(* ===== verification/Prelude.thy ===== *)
theory Prelude
  imports Main "HOL-Library.Word" "HOL-Library.Signed_Division"
begin

text \<open>
  Shared vocabulary of the development: the machine integers of the Go program, its failures
  (returned errors and run-time panics) as values, the sequencing of fallible computations,
  the checked slice accesses, and fuelled loops.

  A Go function that can fail returns a value of type \<open>'a result\<close>: \<open>Inl\<close> carries the failure,
  \<open>Inr\<close> the value. A returned \<open>error\<close> is \<open>Error e\<close>; a run-time panic (index out of range,
  integer division by zero, a negative shift count, an explicit \<open>panic\<close>) is \<open>Panic p\<close>.
\<close>

section \<open>Machine integers\<close>

unbundle bit_operations_syntax

type_synonym int32 = "32 word"
type_synonym int8 = "8 word"

text \<open>Go divides signed integers rounding towards zero; \<open>MinInt32 / -1\<close> wraps around.\<close>

definition quot32 :: "int32 \<Rightarrow> int32 \<Rightarrow> int32" where
  "quot32 a b = word_of_int (sint a sdiv sint b)"

definition rem32 :: "int32 \<Rightarrow> int32 \<Rightarrow> int32" where
  "rem32 a b = word_of_int (sint a smod sint b)"

lemma sint32_range: "- (2 ^ 31) \<le> sint (x :: int32)" "sint (x :: int32) < 2 ^ 31"
  using sint_range_size [of x] by (simp_all add: word_size)

text \<open>Signed addition and subtraction: exact when the result fits, off by \<open>2 ^ 32\<close> otherwise.\<close>

lemma sint32_of_int: "sint (word_of_int k :: int32) = (k + 2 ^ 31) mod 2 ^ 32 - 2 ^ 31"
  by (simp add: signed_of_int signed_take_bit_eq_take_bit_shift take_bit_eq_mod)

lemma sint32_add: "sint (x + y :: int32) = (sint x + sint y + 2 ^ 31) mod 2 ^ 32 - 2 ^ 31"
  using sint32_of_int [of "sint x + sint y"] by simp

lemma sint32_diff: "sint (x - y :: int32) = (sint x - sint y + 2 ^ 31) mod 2 ^ 32 - 2 ^ 31"
  using sint32_of_int [of "sint x - sint y"] by simp

lemma sint32_of_nat: "n < 2 ^ 31 \<Longrightarrow> sint (of_nat n :: int32) = int n"
  using sint32_of_int [of "int n"] by simp

lemma sint32_add_exact:
  "- (2 ^ 31) \<le> sint x + sint y \<Longrightarrow> sint x + sint y < 2 ^ 31 \<Longrightarrow>
    sint (x + y :: int32) = sint x + sint y"
  by (simp add: sint32_add)

lemma sint32_add_over:
  assumes "2 ^ 31 \<le> sint x + sint y"
  shows "sint (x + y :: int32) = sint x + sint y - 2 ^ 32"
proof -
  have "(sint x + sint y + 2 ^ 31 - 2 ^ 32) mod 2 ^ 32 = sint x + sint y + 2 ^ 31 - 2 ^ 32"
    using assms sint32_range [of x] sint32_range [of y] by (intro mod_pos_pos_trivial) simp_all
  then show ?thesis
    using minus_mod_self2 [of "sint x + sint y + 2 ^ 31" "2 ^ 32"] by (simp add: sint32_add)
qed

section \<open>Failures\<close>

datatype go_error =
    LabelMissing string
  | DivisionByZero
  | InvalidLine string
  | WrongArgs nat nat string
  | UnknownRegister string
  | BadInt string
  | InvalidOffset string
  | InvalidInstruction string
  | OnLine string go_error

datatype go_panic =
    IndexOutOfRange
  | SliceOutOfRange
  | IntegerDivide
  | NegativeShift
  | CacheLineMissing
  | CacheLengthMismatch
  | ShouldNotBeBranch
  | Deadlock
  | NilDereference

datatype failure = Error go_error | Panic go_panic

type_synonym 'a result = "failure + 'a"

fun rbind :: "'e + 'a \<Rightarrow> ('a \<Rightarrow> 'e + 'b) \<Rightarrow> 'e + 'b" where
  "rbind (Inl e) f = Inl e"
| "rbind (Inr x) f = f x"

lemma rbind_assoc [simp]: "rbind (rbind m f) g = rbind m (\<lambda>x. rbind (f x) g)"
  by (cases m) simp_all

lemma rbind_Inr [simp]: "rbind m Inr = m"
  by (cases m) simp_all

lemma rbind_eq_Inr [simp]: "rbind m f = Inr y \<longleftrightarrow> (\<exists>x. m = Inr x \<and> f x = Inr y)"
  by (cases m) simp_all

lemma rbind_eq_Inl: "rbind m f = Inl e \<longleftrightarrow> m = Inl e \<or> (\<exists>x. m = Inr x \<and> f x = Inl e)"
  by (cases m) simp_all

text \<open>Evaluation by the simplifier goes into the continuations of \<open>rbind\<close> and of pairs before their arguments
  are known; these forms, with \<open>case\<close> and \<open>let\<close>, keep it out.\<close>

lemma rbind_case [code_unfold]: "rbind m f = case_sum Inl f m"
  by (cases m) simp_all

lemma case_prod_let [code_unfold]: "case_prod f = (\<lambda>p. let q = p in f (fst q) (snd q))"
  by (simp add: fun_eq_iff)

lemma rbind_cong [fundef_cong]:
  "m = m' \<Longrightarrow> (\<And>x. m' = Inr x \<Longrightarrow> f x = f' x) \<Longrightarrow> rbind m f = rbind m' f'"
  by (cases m') simp_all

text \<open>Related computations followed by related continuations are related.\<close>

lemma rel_rbind:
  "rel_sum (=) R m m' \<Longrightarrow> (\<And>x y. R x y \<Longrightarrow> m = Inr x \<Longrightarrow> m' = Inr y \<Longrightarrow> rel_sum (=) S (f x) (g y)) \<Longrightarrow>
    rel_sum (=) S (rbind m f) (rbind m' g)"
  by (cases m; cases m') auto

section \<open>Checked slice accesses\<close>

text \<open>\<open>xs[i]\<close> read and written: out of range is a panic.\<close>

definition go_index :: "'a list \<Rightarrow> int \<Rightarrow> 'a result" where
  "go_index xs i =
     (if 0 \<le> i \<and> i < int (length xs) then Inr (xs ! nat i) else Inl (Panic IndexOutOfRange))"

definition go_store :: "'a list \<Rightarrow> int \<Rightarrow> 'a \<Rightarrow> 'a list result" where
  "go_store xs i v =
     (if 0 \<le> i \<and> i < int (length xs) then Inr (xs[nat i := v]) else Inl (Panic IndexOutOfRange))"

lemma go_index_Inr [simp]:
  "go_index xs i = Inr v \<longleftrightarrow> 0 \<le> i \<and> i < int (length xs) \<and> v = xs ! nat i"
  by (auto simp: go_index_def)

lemma go_store_Inr [simp]:
  "go_store xs i v = Inr ys \<longleftrightarrow> 0 \<le> i \<and> i < int (length xs) \<and> ys = xs[nat i := v]"
  by (auto simp: go_store_def)

lemma go_index_Cons_0 [simp]: "go_index (x # xs) 0 = Inr x"
  by simp

section \<open>Fuelled loops\<close>

text \<open>
  A loop of the program is a step function: it fails, continues with a new state, or returns.
  \<open>run_loop step n s\<close> runs at most \<open>n\<close> iterations; \<open>None\<close> means that the fuel ran out.
\<close>

datatype ('s, 'r) outcome = Continue 's | Done 'r

fun run_loop :: "('s \<Rightarrow> ('s, 'r) outcome result) \<Rightarrow> nat \<Rightarrow> 's \<Rightarrow> 'r result option" where
  "run_loop step 0 s = None"
| "run_loop step (Suc n) s =
     (case step s of
        Inl e \<Rightarrow> Some (Inl e)
      | Inr (Continue s') \<Rightarrow> run_loop step n s'
      | Inr (Done r) \<Rightarrow> Some (Inr r))"

lemma run_loop_mono:
  "run_loop step n s = Some r \<Longrightarrow> n \<le> m \<Longrightarrow> run_loop step m s = Some r"
proof (induction n arbitrary: s m)
  case 0
  then show ?case by simp
next
  case (Suc n)
  then obtain m' where "m = Suc m'" and "n \<le> m'"
    by (cases m) auto
  with Suc show ?case
    by (auto split: sum.splits outcome.splits)
qed

lemma run_loop_deterministic:
  assumes "run_loop step n s = Some r" and "run_loop step m s = Some r'"
  shows "r = r'"
proof (cases "n \<le> m")
  case True
  with assms show ?thesis by (auto dest: run_loop_mono)
next
  case False
  then have "m \<le> n" by simp
  with assms show ?thesis by (auto dest: run_loop_mono)
qed

section \<open>Collections of facts\<close>

text \<open>
  \<open>op_defs\<close> holds the method tables of the instructions, \<open>go_defs\<close> the small accessors that every
  component proof unfolds.
\<close>

named_theorems op_defs
named_theorems go_defs

end
