(* ===== verification/Risc.thy ===== *)
theory Risc
  imports Prelude
begin

text \<open>
  \<open>src/risc/risc.go\<close>: the register and instruction enumerations, their names, the cycle table,
  the instruction classes and the write filter of register \<open>Zero\<close>. The Go types are \<open>uint64\<close>
  constants made with \<open>iota\<close>; the program only ever makes the named ones, so the datatypes have
  one constructor per constant and the \<open>default: panic\<close> branches have no counterpart.
\<close>

section \<open>Registers\<close>

datatype RegisterType =
    Zero | Ra | Sp | Gp | Tp | T0 | T1 | T2 | S0 | S1 | A0 | A1 | A2 | A3 | A4 | A5 | A6 |
    A7 | S2 | S3 | S4 | S5 | S6 | S7 | S8 | S9 | S10 | S11 | T3 | T4 | T5 | T6

primrec register_iota :: "RegisterType \<Rightarrow> nat" where
  "register_iota Zero = 0"
| "register_iota Ra = 1"
| "register_iota Sp = 2"
| "register_iota Gp = 3"
| "register_iota Tp = 4"
| "register_iota T0 = 5"
| "register_iota T1 = 6"
| "register_iota T2 = 7"
| "register_iota S0 = 8"
| "register_iota S1 = 9"
| "register_iota A0 = 10"
| "register_iota A1 = 11"
| "register_iota A2 = 12"
| "register_iota A3 = 13"
| "register_iota A4 = 14"
| "register_iota A5 = 15"
| "register_iota A6 = 16"
| "register_iota A7 = 17"
| "register_iota S2 = 18"
| "register_iota S3 = 19"
| "register_iota S4 = 20"
| "register_iota S5 = 21"
| "register_iota S6 = 22"
| "register_iota S7 = 23"
| "register_iota S8 = 24"
| "register_iota S9 = 25"
| "register_iota S10 = 26"
| "register_iota S11 = 27"
| "register_iota T3 = 28"
| "register_iota T4 = 29"
| "register_iota T5 = 30"
| "register_iota T6 = 31"

primrec RegisterType_String :: "RegisterType \<Rightarrow> string" where
  "RegisterType_String Zero = ''Zero''"
| "RegisterType_String Ra = ''Ra''"
| "RegisterType_String Sp = ''Sp''"
| "RegisterType_String Gp = ''Gp''"
| "RegisterType_String Tp = ''Tp''"
| "RegisterType_String T0 = ''T0''"
| "RegisterType_String T1 = ''T1''"
| "RegisterType_String T2 = ''T2''"
| "RegisterType_String S0 = ''S0''"
| "RegisterType_String S1 = ''S1''"
| "RegisterType_String A0 = ''A0''"
| "RegisterType_String A1 = ''A1''"
| "RegisterType_String A2 = ''A2''"
| "RegisterType_String A3 = ''A3''"
| "RegisterType_String A4 = ''A4''"
| "RegisterType_String A5 = ''A5''"
| "RegisterType_String A6 = ''A6''"
| "RegisterType_String A7 = ''A7''"
| "RegisterType_String S2 = ''S2''"
| "RegisterType_String S3 = ''S3''"
| "RegisterType_String S4 = ''S4''"
| "RegisterType_String S5 = ''S5''"
| "RegisterType_String S6 = ''S6''"
| "RegisterType_String S7 = ''S7''"
| "RegisterType_String S8 = ''S8''"
| "RegisterType_String S9 = ''S9''"
| "RegisterType_String S10 = ''S10''"
| "RegisterType_String S11 = ''S11''"
| "RegisterType_String T3 = ''T3''"
| "RegisterType_String T4 = ''T4''"
| "RegisterType_String T5 = ''T5''"
| "RegisterType_String T6 = ''T6''"

text \<open>The constants in order; the type is finite.\<close>

definition all_registers :: "RegisterType list" where
  "all_registers =
    [Zero, Ra, Sp, Gp, Tp, T0, T1, T2, S0, S1, A0, A1, A2, A3, A4, A5, A6, A7, S2, S3, S4,
    S5, S6, S7, S8, S9, S10, S11, T3, T4, T5, T6]"

lemma all_registers_complete [simp]: "r \<in> set all_registers"
  by (cases r) (simp_all add: all_registers_def)

lemma set_all_registers: "set all_registers = UNIV"
  by auto

instance RegisterType :: finite
  by standard (simp flip: set_all_registers)

lemma register_iota_inject [simp]: "register_iota r = register_iota s \<longleftrightarrow> r = s"
  by (cases r; cases s; simp)

lemma register_iota_bound: "register_iota r < 32"
  by (cases r) simp_all

text \<open>Registers are ordered by their number, as the Go constants are.\<close>

instantiation RegisterType :: linorder
begin

definition less_eq_RegisterType :: "RegisterType \<Rightarrow> RegisterType \<Rightarrow> bool" where
  "r \<le> s \<longleftrightarrow> register_iota r \<le> register_iota s"

definition less_RegisterType :: "RegisterType \<Rightarrow> RegisterType \<Rightarrow> bool" where
  "r < s \<longleftrightarrow> register_iota r < register_iota s"

instance
  by standard (auto simp: less_eq_RegisterType_def less_RegisterType_def)

end

lemma Zero_least [simp]: "Zero \<le> r"
  by (simp add: less_eq_RegisterType_def)

lemma RegisterType_String_inject [simp]: "RegisterType_String r = RegisterType_String s \<longleftrightarrow> r = s"
  by (cases r; cases s; simp)

section \<open>Instructions\<close>

datatype InstructionType =
    Add | Addi | And | Andi | Auipc | Beq | Beqz | Bge | Bgeu | Blt | Bltu | Bne | Div |
    J | Jal | Jalr | Lui | Lb | Lh | Li | Lw | Nop | Mul | Mv | Or | Ori | Rem | Ret | Sb |
    Sh | Sll | Slli | Slt | Sltu | Slti | Sra | Srai | Srl | Srli | Sub | Sw | Xor | Xori

primrec InstructionType_String :: "InstructionType \<Rightarrow> string" where
  "InstructionType_String Add = ''Add''"
| "InstructionType_String Addi = ''Addi''"
| "InstructionType_String And = ''And''"
| "InstructionType_String Andi = ''Andi''"
| "InstructionType_String Auipc = ''Auipc''"
| "InstructionType_String Beq = ''Beq''"
| "InstructionType_String Beqz = ''Beqz''"
| "InstructionType_String Bge = ''Bge''"
| "InstructionType_String Bgeu = ''Bgeu''"
| "InstructionType_String Blt = ''Blt''"
| "InstructionType_String Bltu = ''Bltu''"
| "InstructionType_String Bne = ''Bne''"
| "InstructionType_String Div = ''Div''"
| "InstructionType_String J = ''J''"
| "InstructionType_String Jal = ''Jal''"
| "InstructionType_String Jalr = ''Jalr''"
| "InstructionType_String Lui = ''Lui''"
| "InstructionType_String Lb = ''Lb''"
| "InstructionType_String Lh = ''Lh''"
| "InstructionType_String Li = ''Li''"
| "InstructionType_String Lw = ''Lw''"
| "InstructionType_String Nop = ''Nop''"
| "InstructionType_String Mul = ''Mul''"
| "InstructionType_String Mv = ''Mv''"
| "InstructionType_String Or = ''Or''"
| "InstructionType_String Ori = ''Ori''"
| "InstructionType_String Rem = ''Rem''"
| "InstructionType_String Ret = ''Ret''"
| "InstructionType_String Sb = ''Sb''"
| "InstructionType_String Sh = ''Sh''"
| "InstructionType_String Sll = ''Sll''"
| "InstructionType_String Slli = ''Slli''"
| "InstructionType_String Slt = ''Slt''"
| "InstructionType_String Sltu = ''Sltu''"
| "InstructionType_String Slti = ''Slti''"
| "InstructionType_String Sra = ''Sra''"
| "InstructionType_String Srai = ''Srai''"
| "InstructionType_String Srl = ''Srl''"
| "InstructionType_String Srli = ''Srli''"
| "InstructionType_String Sub = ''Sub''"
| "InstructionType_String Sw = ''Sw''"
| "InstructionType_String Xor = ''Xor''"
| "InstructionType_String Xori = ''Xori''"

text \<open>Execution costs; a load costs 50 cycles on top of its memory access.\<close>

primrec Cycles :: "InstructionType \<Rightarrow> int" where
  "Cycles Add = 1"
| "Cycles Addi = 1"
| "Cycles And = 1"
| "Cycles Andi = 1"
| "Cycles Auipc = 1"
| "Cycles Beq = 1"
| "Cycles Beqz = 1"
| "Cycles Bge = 1"
| "Cycles Bgeu = 1"
| "Cycles Blt = 1"
| "Cycles Bltu = 1"
| "Cycles Bne = 1"
| "Cycles Div = 1"
| "Cycles J = 1"
| "Cycles Jal = 1"
| "Cycles Jalr = 1"
| "Cycles Lui = 1"
| "Cycles Lb = 50"
| "Cycles Lh = 50"
| "Cycles Li = 1"
| "Cycles Lw = 50"
| "Cycles Nop = 1"
| "Cycles Mul = 1"
| "Cycles Mv = 1"
| "Cycles Or = 1"
| "Cycles Ori = 1"
| "Cycles Rem = 1"
| "Cycles Ret = 1"
| "Cycles Sb = 1"
| "Cycles Sh = 1"
| "Cycles Sll = 1"
| "Cycles Slli = 1"
| "Cycles Slt = 1"
| "Cycles Sltu = 1"
| "Cycles Slti = 1"
| "Cycles Sra = 1"
| "Cycles Srai = 1"
| "Cycles Srl = 1"
| "Cycles Srli = 1"
| "Cycles Sub = 1"
| "Cycles Sw = 1"
| "Cycles Xor = 1"
| "Cycles Xori = 1"

definition IsWriteBack :: "InstructionType \<Rightarrow> bool" where
  "IsWriteBack ins = (ins \<notin> {Sb, Sw, Sh})"

definition IsMemoryWrite :: "InstructionType \<Rightarrow> bool" where
  "IsMemoryWrite ins = (ins \<in> {Sb, Sw, Sh})"

definition IsMemoryRead :: "InstructionType \<Rightarrow> bool" where
  "IsMemoryRead ins = (ins \<in> {Lb, Lw, Lh})"

definition IsUnconditionalBranch :: "InstructionType \<Rightarrow> bool" where
  "IsUnconditionalBranch ins = (ins \<in> {J, Jal, Jalr})"

definition IsConditionalBranch :: "InstructionType \<Rightarrow> bool" where
  "IsConditionalBranch ins = (ins \<in> {Beq, Beqz, Bne, Blt, Bge, Bgeu})"

definition IsBranch :: "InstructionType \<Rightarrow> bool" where
  "IsBranch ins = (IsUnconditionalBranch ins \<or> IsConditionalBranch ins)"

lemmas instruction_class_defs =
  IsWriteBack_def IsMemoryWrite_def IsMemoryRead_def IsUnconditionalBranch_def
  IsConditionalBranch_def IsBranch_def

section \<open>The write filter\<close>

text \<open>A write to register \<open>Zero\<close> becomes a write of the value 0.\<close>

definition IsRegisterChange :: "RegisterType \<Rightarrow> int32 \<Rightarrow> RegisterType \<times> int32" where
  "IsRegisterChange register value = (if register = Zero then (Zero, 0) else (register, value))"

lemma fst_IsRegisterChange [simp]: "fst (IsRegisterChange rd v) = rd"
  by (simp add: IsRegisterChange_def)

lemma snd_IsRegisterChange [simp]: "snd (IsRegisterChange rd v) = (if rd = Zero then 0 else v)"
  by (simp add: IsRegisterChange_def)

lemma Cycles_positive: "0 < Cycles ins"
  by (cases ins) simp_all

lemma Cycles_le: "Cycles ins \<le> 50"
  by (cases ins) simp_all

end
