(* ===== verification/Bits.thy ===== *)
theory Bits
  imports Prelude
begin

text \<open>
  \<open>src/risc/bit.go\<close>: splitting an \<open>int32\<close> into four bytes, lowest first, and joining four bytes
  into an \<open>int32\<close>, both bit by bit. The loops are recursions over the list of loop indices and
  thread the \<open>uint8\<close> counter \<open>index\<close>. A shift count converted to \<open>int8\<close> is negative from 128 on,
  which panics: the setters can fail, and the lemmas show that the two conversions never do.
\<close>

unbundle bit_operations_syntax

section \<open>Single bits\<close>

definition getI8Bit :: "int8 \<Rightarrow> 8 word \<Rightarrow> bool" where
  "getI8Bit input n = (input AND push_bit (unat n) 1 \<noteq> 0)"

definition getI32Bit :: "int32 \<Rightarrow> 8 word \<Rightarrow> bool" where
  "getI32Bit input n = (input AND push_bit (unat n) 1 \<noteq> 0)"

definition setI8Bit :: "int8 \<Rightarrow> 8 word \<Rightarrow> int8 result" where
  "setI8Bit n i =
     (if sint i < 0 then Inl (Panic NegativeShift) else Inr (n OR push_bit (nat (sint i)) 1))"

definition setI32Bit :: "int32 \<Rightarrow> 8 word \<Rightarrow> int32 result" where
  "setI32Bit n i =
     (if sint i < 0 then Inl (Panic NegativeShift) else Inr (n OR push_bit (nat (sint i)) 1))"

section \<open>The loops\<close>

text \<open>\<open>split_loop n [a..<b] index acc\<close> is \<open>for i := a; i < b; i++\<close> of \<open>BytesFromLowBits\<close>.\<close>

fun split_loop :: "int32 \<Rightarrow> nat list \<Rightarrow> 8 word \<Rightarrow> int8 \<Rightarrow> int8 result" where
  "split_loop n [] index acc = Inr acc"
| "split_loop n (i # is) index acc =
     rbind (if getI32Bit n (of_nat i) then setI8Bit acc index else Inr acc)
       (split_loop n is (index + 1))"

definition BytesFromLowBits :: "int32 \<Rightarrow> (int8 \<times> int8 \<times> int8 \<times> int8) result" where
  "BytesFromLowBits n =
     rbind (split_loop n [0..<8] 0 0) (\<lambda>i1.
     rbind (split_loop n [8..<16] 0 0) (\<lambda>i2.
     rbind (split_loop n [16..<24] 0 0) (\<lambda>i3.
     rbind (split_loop n [24..<32] 0 0) (\<lambda>i4.
     Inr (i1, i2, i3, i4)))))"

text \<open>\<open>join_loop b [0..<8] index result\<close> is one of the four loops of \<open>I32FromBytes\<close>; it also
  returns the counter, which runs through all four.\<close>

fun join_loop :: "int8 \<Rightarrow> nat list \<Rightarrow> 8 word \<Rightarrow> int32 \<Rightarrow> (8 word \<times> int32) result" where
  "join_loop b [] index r = Inr (index, r)"
| "join_loop b (i # is) index r =
     rbind (if getI8Bit b (of_nat i) then setI32Bit r index else Inr r)
       (join_loop b is (index + 1))"

definition I32FromBytes :: "int8 \<Rightarrow> int8 \<Rightarrow> int8 \<Rightarrow> int8 \<Rightarrow> int32 result" where
  "I32FromBytes i1 i2 i3 i4 =
     rbind (join_loop i1 [0..<8] 0 0) (\<lambda>(index, r).
     rbind (join_loop i2 [0..<8] index r) (\<lambda>(index, r).
     rbind (join_loop i3 [0..<8] index r) (\<lambda>(index, r).
     rbind (join_loop i4 [0..<8] index r) (\<lambda>(index, r).
     Inr r))))"

section \<open>Closed forms\<close>

lemma getI8Bit_bit: "getI8Bit b n = bit b (unat n)"
  by (simp add: getI8Bit_def bit_iff_and_push_bit_not_eq_0)

lemma getI32Bit_bit: "getI32Bit b n = bit b (unat n)"
  by (simp add: getI32Bit_def bit_iff_and_push_bit_not_eq_0)

lemma sint_small: "k < 128 \<Longrightarrow> sint (of_nat k :: 8 word) = int k"
  by (simp add: sint_uint unsigned_of_nat take_bit_nat_eq_self signed_take_bit_int_eq_self)

lemma setI8Bit_small: "k < 128 \<Longrightarrow> setI8Bit n (of_nat k) = Inr (set_bit k n)"
  by (simp add: setI8Bit_def sint_small set_bit_eq_or)

lemma setI32Bit_small: "k < 128 \<Longrightarrow> setI32Bit n (of_nat k) = Inr (set_bit k n)"
  by (simp add: setI32Bit_def sint_small set_bit_eq_or)

lemma split_loop_bits:
  assumes "a + m \<le> 255" and "k + m \<le> 127"
  shows "\<exists>w. split_loop n [a..<a + m] (of_nat k) acc = Inr w
    \<and> (\<forall>j<8. bit w j \<longleftrightarrow> bit acc j \<or> (k \<le> j \<and> j < k + m \<and> bit n (a + (j - k))))"
  using assms
proof (induction m arbitrary: a k acc)
  case 0
  then show ?case by auto
next
  case (Suc m)
  define acc' where "acc' = (if bit n a then set_bit k acc else acc)"
  have list: "[a..<a + Suc m] = a # [Suc a..<Suc a + m]"
    by (simp add: upt_conv_Cons)
  have a: "unat (of_nat a :: 8 word) = a"
    using Suc.prems by (simp add: unat_of_nat take_bit_nat_eq_self)
  have idx: "(of_nat k + 1 :: 8 word) = of_nat (Suc k)"
    by simp
  have step: "split_loop n [a..<a + Suc m] (of_nat k) acc =
      split_loop n [Suc a..<Suc a + m] (of_nat (Suc k)) acc'"
    using Suc.prems unfolding list idx [symmetric]
    by (simp add: getI32Bit_bit a setI8Bit_small acc'_def)
  obtain w where w: "split_loop n [Suc a..<Suc a + m] (of_nat (Suc k)) acc' = Inr w"
    and bits: "\<forall>j<8. bit w j \<longleftrightarrow>
      bit acc' j \<or> (Suc k \<le> j \<and> j < Suc k + m \<and> bit n (Suc a + (j - Suc k)))"
    using Suc.IH [of "Suc a" "Suc k" acc'] Suc.prems by auto
  have "bit w j \<longleftrightarrow> bit acc j \<or> (k \<le> j \<and> j < k + Suc m \<and> bit n (a + (j - k)))" if "j < 8" for j
    using that bits by (cases "j = k") (auto simp: acc'_def bit_set_bit_iff Suc_diff_Suc)
  with step w show ?case by auto
qed

lemma join_loop_bits:
  assumes "a + m \<le> 255" and "k + m \<le> 127"
  shows "\<exists>w. join_loop b [a..<a + m] (of_nat k) r = Inr (of_nat (k + m), w)
    \<and> (\<forall>j<32. bit w j \<longleftrightarrow> bit r j \<or> (k \<le> j \<and> j < k + m \<and> bit b (a + (j - k))))"
  using assms
proof (induction m arbitrary: a k r)
  case 0
  then show ?case by auto
next
  case (Suc m)
  define r' where "r' = (if bit b a then set_bit k r else r)"
  have list: "[a..<a + Suc m] = a # [Suc a..<Suc a + m]"
    by (simp add: upt_conv_Cons)
  have a: "unat (of_nat a :: 8 word) = a"
    using Suc.prems by (simp add: unat_of_nat take_bit_nat_eq_self)
  have idx: "(of_nat k + 1 :: 8 word) = of_nat (Suc k)"
    by simp
  have step: "join_loop b [a..<a + Suc m] (of_nat k) r =
      join_loop b [Suc a..<Suc a + m] (of_nat (Suc k)) r'"
    using Suc.prems unfolding list idx [symmetric]
    by (simp add: getI8Bit_bit a setI32Bit_small r'_def)
  obtain w where w: "join_loop b [Suc a..<Suc a + m] (of_nat (Suc k)) r' =
        Inr (of_nat (Suc k + m), w)"
    and bits: "\<forall>j<32. bit w j \<longleftrightarrow>
      bit r' j \<or> (Suc k \<le> j \<and> j < Suc k + m \<and> bit b (Suc a + (j - Suc k)))"
    using Suc.IH [of "Suc a" "Suc k" r'] Suc.prems by auto
  have "bit w j \<longleftrightarrow> bit r j \<or> (k \<le> j \<and> j < k + Suc m \<and> bit b (a + (j - k)))" if "j < 32" for j
    using that bits by (cases "j = k") (auto simp: r'_def bit_set_bit_iff Suc_diff_Suc)
  with step w show ?case by auto
qed

text \<open>The two conversions in closed form: bytes are truncations of the shifted word, the joined
  word is the disjunction of the shifted bytes. In particular neither panics.\<close>

lemma split_loop_eq:
  assumes "a \<le> 247" and "b = a + 8"
  shows "split_loop n [a..<b] 0 0 = Inr (ucast (drop_bit a n))"
proof -
  obtain w where "split_loop n [a..<b] (of_nat 0) 0 = Inr w"
    and bits: "\<forall>j<8. bit w j \<longleftrightarrow> bit n (a + j)"
    using split_loop_bits [of a 8 0 n 0] assms by auto
  moreover have "w = ucast (drop_bit a n)"
    by (rule bit_word_eqI) (use bits in \<open>simp add: bit_simps\<close>)
  ultimately show ?thesis by simp
qed

lemma BytesFromLowBits_eq:
  "BytesFromLowBits n =
     Inr (ucast n, ucast (drop_bit 8 n), ucast (drop_bit 16 n), ucast (drop_bit 24 n))"
proof -
  have "split_loop n [0..<8] 0 0 = Inr (ucast n)"
    by (subst split_loop_eq) simp_all
  moreover have "split_loop n [8..<16] 0 0 = Inr (ucast (drop_bit 8 n))"
    by (rule split_loop_eq) simp_all
  moreover have "split_loop n [16..<24] 0 0 = Inr (ucast (drop_bit 16 n))"
    by (rule split_loop_eq) simp_all
  moreover have "split_loop n [24..<32] 0 0 = Inr (ucast (drop_bit 24 n))"
    by (rule split_loop_eq) simp_all
  ultimately show ?thesis
    by (simp only: BytesFromLowBits_def rbind.simps)
qed

lemma join_loop_eq:
  assumes "k + 8 \<le> 127"
  shows "join_loop b [0..<8] (of_nat k) r =
    Inr (of_nat (k + 8), r OR push_bit k (ucast b))"
proof -
  obtain w where w: "join_loop b [0..<8] (of_nat k) r = Inr (of_nat (k + 8), w)"
    and bits: "\<forall>j<32. bit w j \<longleftrightarrow> bit r j \<or> (k \<le> j \<and> j < k + 8 \<and> bit b (j - k))"
    using join_loop_bits [of 0 8 k b r] assms by auto
  have "w = r OR push_bit k (ucast b)"
  proof (rule bit_word_eqI)
    fix j
    assume "j < LENGTH(32)"
    then show "bit w j = bit (r OR push_bit k (ucast b)) j"
      using bits by (auto simp: bit_simps dest: bit_imp_le_length)
  qed
  with w show ?thesis by simp
qed

lemma I32FromBytes_eq:
  "I32FromBytes a b c d =
     Inr (ucast a OR push_bit 8 (ucast b) OR push_bit 16 (ucast c) OR push_bit 24 (ucast d))"
  using join_loop_eq [of 0 a 0] join_loop_eq [of 8 b] join_loop_eq [of 16 c]
    join_loop_eq [of 24 d]
  by (simp add: I32FromBytes_def or.assoc)

section \<open>Round trips\<close>

lemma join_split:
  "rbind (BytesFromLowBits n) (\<lambda>(b0, b1, b2, b3). I32FromBytes b0 b1 b2 b3) = Inr n"
proof -
  have "ucast (ucast n :: int8) OR push_bit 8 (ucast (ucast (drop_bit 8 n) :: int8))
      OR push_bit 16 (ucast (ucast (drop_bit 16 n) :: int8))
      OR push_bit 24 (ucast (ucast (drop_bit 24 n) :: int8)) = n" (is "?joined = n")
  proof (rule bit_word_eqI)
    fix j
    show "bit ?joined j = bit n j" if "j < LENGTH(32)"
      using that by (cases "j < 24"; cases "j < 16") (auto simp: bit_simps not_less)
  qed
  then show ?thesis
    by (simp add: BytesFromLowBits_eq I32FromBytes_eq)
qed

lemma split_join:
  "rbind (I32FromBytes b0 b1 b2 b3) BytesFromLowBits = Inr (b0, b1, b2, b3)"
proof -
  define n :: int32 where
    "n = ucast b0 OR push_bit 8 (ucast b1) OR push_bit 16 (ucast b2) OR push_bit 24 (ucast b3)"
  have "ucast n = b0"
    by (rule bit_word_eqI) (auto simp: n_def bit_simps dest: bit_imp_le_length)
  moreover have "ucast (drop_bit 8 n) = b1"
    by (rule bit_word_eqI) (auto simp: n_def bit_simps dest: bit_imp_le_length)
  moreover have "ucast (drop_bit 16 n) = b2"
    by (rule bit_word_eqI) (auto simp: n_def bit_simps dest: bit_imp_le_length)
  moreover have "ucast (drop_bit 24 n) = b3"
    by (rule bit_word_eqI) (auto simp: n_def bit_simps dest: bit_imp_le_length)
  ultimately show ?thesis
    by (simp add: I32FromBytes_eq BytesFromLowBits_eq flip: n_def)
qed

end
