(* ===== verification/App.thy ===== *)
theory App
  imports Risc Bits "HOL-Library.Multiset"
begin

text \<open>
  The data of \<open>src/risc/app.go\<close>: the execution context (registers, pending counters, memory), the
  result of an instruction, an application, and the two architectural writes. A Go map is a
  partial function; reading an absent key gives the zero value. The map \<open>MemoryChanges\<close> of an
  execution is the list of its entries: Go iterates over a map in an unspecified order, and
  \<open>store_all_permutation\<close> shows that the order of the list does not matter to \<open>WriteMemory\<close>.
\<close>

section \<open>State\<close>

record Execution =
  RegisterChange :: bool
  Register :: RegisterType
  RegisterValue :: int32
  MemoryChange :: bool
  MemoryChanges :: "(int32 \<times> int8) list"
  NextPc :: int32
  PcChange :: bool
  Return :: bool

text \<open>The zero value \<open>Execution{}\<close>.\<close>

definition noExecution :: Execution where
  "noExecution = \<lparr>RegisterChange = False, Register = Zero, RegisterValue = 0,
     MemoryChange = False, MemoryChanges = [], NextPc = 0, PcChange = False, Return = False\<rparr>"

record Context =
  Registers :: "RegisterType \<rightharpoonup> int32"
  PendingWriteRegisters :: "RegisterType \<rightharpoonup> int"
  PendingReadRegisters :: "RegisterType \<rightharpoonup> int"
  Memory :: "int8 list"
  Debug :: bool

definition NewContext :: "bool \<Rightarrow> nat \<Rightarrow> Context" where
  "NewContext debug memoryBytes =
     \<lparr>Registers = Map.empty, PendingWriteRegisters = Map.empty,
      PendingReadRegisters = Map.empty, Memory = replicate memoryBytes 0, Debug = debug\<rparr>"

text \<open>\<open>m[k]\<close> for a map with numeric values.\<close>

definition map_get :: "('k \<rightharpoonup> 'v::zero) \<Rightarrow> 'k \<Rightarrow> 'v" where
  "map_get m k = (case m k of None \<Rightarrow> 0 | Some v \<Rightarrow> v)"

lemma map_get_empty [simp]: "map_get Map.empty k = 0"
  by (simp add: map_get_def)

lemma map_get_upd [simp]: "map_get (m(k \<mapsto> v)) j = (if j = k then v else map_get m j)"
  by (simp add: map_get_def)

lemma map_get_del [simp]: "map_get (m(k := None)) j = (if j = k then 0 else map_get m j)"
  by (simp add: map_get_def)

section \<open>Architectural writes\<close>

definition WriteRegister :: "Context \<Rightarrow> Execution \<Rightarrow> Context" where
  "WriteRegister ctx exe =
     ctx\<lparr>Registers := (Registers ctx)(Register exe \<mapsto> RegisterValue exe)\<rparr>"

definition store_change :: "int32 \<times> int8 \<Rightarrow> int8 list result \<Rightarrow> int8 list result" where
  "store_change kv m = rbind m (\<lambda>mem. go_store mem (sint (fst kv)) (snd kv))"

definition store_all :: "(int32 \<times> int8) list \<Rightarrow> int8 list \<Rightarrow> int8 list result" where
  "store_all changes mem = fold store_change changes (Inr mem)"

definition WriteMemory :: "Context \<Rightarrow> Execution \<Rightarrow> Context result" where
  "WriteMemory ctx exe =
     rbind (store_all (MemoryChanges exe) (Memory ctx)) (\<lambda>mem. Inr (ctx\<lparr>Memory := mem\<rparr>))"

definition Context_Flush :: "Context \<Rightarrow> Context" where
  "Context_Flush ctx =
     ctx\<lparr>PendingWriteRegisters := Map.empty, PendingReadRegisters := Map.empty\<rparr>"

section \<open>Facts about the writes\<close>

lemma store_change_Inl [simp]: "store_change kv (Inl e) = Inl e"
  by (simp add: store_change_def)

lemma fold_store_change_Inl [simp]: "fold store_change kvs (Inl e) = Inl e"
  by (induction kvs) simp_all

lemma store_all_Nil [simp]: "store_all [] mem = Inr mem"
  by (simp add: store_all_def)

lemma store_all_Cons:
  "store_all ((k, v) # kvs) mem = rbind (go_store mem (sint k) v) (store_all kvs)"
  by (cases "go_store mem (sint k) v") (simp_all add: store_all_def store_change_def
      del: go_store_Inr)

lemma store_change_commute:
  assumes "k \<noteq> k'"
  shows "store_change (k, v) (store_change (k', v') m) =
    store_change (k', v') (store_change (k, v) m)"
proof (cases m)
  case (Inl e)
  then show ?thesis by simp
next
  case (Inr mem)
  have "sint k \<noteq> sint k'"
    using assms by (auto dest: signed_word_eqI)
  then have "mem[nat (sint k') := v', nat (sint k) := v] =
      mem[nat (sint k) := v, nat (sint k') := v']" if "0 \<le> sint k" and "0 \<le> sint k'"
    using that by (simp add: list_update_swap nat_eq_iff)
  with Inr show ?thesis
    by (simp add: store_change_def go_store_def)
qed

lemma store_all_permutation:
  assumes "mset kvs = mset kvs'" and "distinct (map fst kvs)"
  shows "store_all kvs mem = store_all kvs' mem"
proof -
  have "fold store_change kvs = fold store_change kvs'"
  proof (rule fold_multiset_equiv [OF _ assms(1)])
    fix x y
    assume "x \<in> set kvs" and "y \<in> set kvs"
    then have "x = y \<or> fst x \<noteq> fst y"
      using assms(2) by (metis distinct_map inj_on_eq_iff)
    then show "store_change x \<circ> store_change y = store_change y \<circ> store_change x"
      using store_change_commute by (cases x; cases y) (auto simp: fun_eq_iff)
  qed
  then show ?thesis
    by (simp add: store_all_def)
qed

lemma length_store_all: "store_all kvs mem = Inr mem' \<Longrightarrow> length mem' = length mem"
  by (induction kvs arbitrary: mem) (auto simp: store_all_Cons)

lemma store_all_in_range:
  "(\<exists>mem'. store_all kvs mem = Inr mem') \<longleftrightarrow>
     (\<forall>k \<in> fst ` set kvs. 0 \<le> sint k \<and> sint k < int (length mem))"
proof (induction kvs arbitrary: mem)
  case Nil
  then show ?case by simp
next
  case (Cons kv kvs)
  obtain k v where kv: "kv = (k, v)" by force
  have "(\<exists>mem'. store_all (kv # kvs) mem = Inr mem') \<longleftrightarrow>
      0 \<le> sint k \<and> sint k < int (length mem)
      \<and> (\<exists>mem'. store_all kvs (mem[nat (sint k) := v]) = Inr mem')"
    by (auto simp: kv store_all_Cons)
  then show ?case
    by (simp add: Cons.IH kv)
qed

text \<open>Reading memory back after the writes: the written byte where a change has the address,
  the old byte elsewhere.\<close>

lemma nth_store_all:
  assumes "store_all kvs mem = Inr mem'" and "distinct (map fst kvs)" and "0 \<le> sint a"
  shows "mem' ! nat (sint a) = (case map_of kvs a of None \<Rightarrow> mem ! nat (sint a) | Some v \<Rightarrow> v)"
  using assms
proof (induction kvs arbitrary: mem)
  case Nil
  then show ?case by simp
next
  case (Cons kv kvs)
  obtain k v where kv: "kv = (k, v)" by force
  from Cons.prems kv have range: "0 \<le> sint k" "sint k < int (length mem)"
    and rest: "store_all kvs (mem[nat (sint k) := v]) = Inr mem'" "distinct (map fst kvs)"
    and fresh: "k \<notin> fst ` set kvs"
    by (auto simp: store_all_Cons)
  have same: "nat (sint a) = nat (sint k) \<longleftrightarrow> a = k"
    using range Cons.prems(3) by (metis eq_nat_nat_iff signed_word_eqI)
  have "map_of kvs k = None"
    using fresh by (simp add: map_of_eq_None_iff)
  then show ?case
    using Cons.IH [OF rest Cons.prems(3)] range same kv
    by (auto simp: nth_list_update split: option.splits)
qed

lemma WriteMemory_Inr:
  "WriteMemory ctx exe = Inr ctx' \<longleftrightarrow>
     (\<exists>mem. store_all (MemoryChanges exe) (Memory ctx) = Inr mem \<and> ctx' = ctx\<lparr>Memory := mem\<rparr>)"
  unfolding WriteMemory_def rbind_eq_Inr by auto

lemma WriteMemory_fields [simp]:
  assumes "WriteMemory ctx exe = Inr ctx'"
  shows "Registers ctx' = Registers ctx"
    and "PendingWriteRegisters ctx' = PendingWriteRegisters ctx"
    and "PendingReadRegisters ctx' = PendingReadRegisters ctx"
    and "length (Memory ctx') = length (Memory ctx)"
    and "Debug ctx' = Debug ctx"
  using assms by (auto simp: WriteMemory_def dest: length_store_all)

section \<open>Applications\<close>

text \<open>An application is a list of instructions with the addresses of its labels; \<open>'i\<close> is the type
  of instructions, which \<open>Opcodes\<close> defines.\<close>

record 'i Application =
  Instructions :: "'i list"
  Labels :: "string \<rightharpoonup> int32"

text \<open>\<open>pc/4 < int32(len(app.Instructions))\<close> and \<open>app.Instructions[pc/4]\<close>.\<close>

definition pc_in_app :: "'i Application \<Rightarrow> int32 \<Rightarrow> bool" where
  "pc_in_app app pc = (quot32 pc 4 <s of_nat (length (Instructions app)))"

definition instruction_at :: "'i Application \<Rightarrow> int32 \<Rightarrow> 'i result" where
  "instruction_at app pc = go_index (Instructions app) (sint (quot32 pc 4))"

end
