(* ===== verification/Opcodes.thy ===== *)
theory Opcodes
  imports App
begin

text \<open>
  \<open>src/risc/opcodes.go\<close>: one Go struct per instruction, each implementing the interface
  \<open>InstructionRunner\<close>. A struct with its methods is the definition \<open>op_<name>\<close>: it takes the
  fields and gives the method table, a record with one field per method of the interface. The
  field \<open>forward\<close>, which the method \<open>Forward\<close> overwrites, is an argument; the table's
  \<open>ForwardField\<close> says what the field becomes. The datatype \<open>instr\<close> has one constructor per struct
  with the other fields in the struct's order, and \<open>runner\<close> is the method dispatch.

  \<open>Run\<close> returns the context too, since \<open>jal\<close> writes register \<open>Ra\<close> directly. Debug printing is left
  out.
\<close>

unbundle bit_operations_syntax

section \<open>The interface\<close>

record Forward =
  FwdRegister :: RegisterType
  FwdValue :: int32

text \<open>The zero value \<open>Forward{}\<close>: register \<open>Zero\<close> is forwarded with the value 0.\<close>

definition noForward :: Forward where
  "noForward = \<lparr>FwdRegister = Zero, FwdValue = 0\<rparr>"

definition registerRead :: "Context \<Rightarrow> Forward \<Rightarrow> RegisterType \<Rightarrow> int32" where
  "registerRead ctx forward reg =
     (if reg = FwdRegister forward then FwdValue forward
      else map_get (Registers ctx) reg)"

type_synonym labels = "string \<rightharpoonup> int32"

record InstructionRunner =
  Run :: "Context \<Rightarrow> labels \<Rightarrow> int32 \<Rightarrow> int8 list \<Rightarrow> (Context \<times> Execution) result"
  InstructionTypeOf :: InstructionType
  ReadRegisters :: "RegisterType list"
  WriteRegisters :: "RegisterType list"
  ForwardField :: "Forward \<Rightarrow> Forward"
  MemoryRead :: "Context \<Rightarrow> int32 list"

section \<open>Shared parts of the method bodies\<close>

text \<open>\<open>Execution{RegisterChange: true, ...}\<close> with the filtered write of \<open>IsRegisterChange\<close>.\<close>

definition register_execution :: "RegisterType \<Rightarrow> int32 \<Rightarrow> Execution" where
  "register_execution rd v =
     noExecution\<lparr>RegisterChange := True, Register := fst (IsRegisterChange rd v),
       RegisterValue := snd (IsRegisterChange rd v)\<rparr>"

text \<open>The taken branch: look the label up, else the error \<open>label %s does not exist\<close>.\<close>

definition branch_to :: "Context \<Rightarrow> labels \<Rightarrow> string \<Rightarrow> (Context \<times> Execution) result" where
  "branch_to ctx labels label =
     (case labels label of
        None \<Rightarrow> Inl (Error (LabelMissing label))
      | Some addr \<Rightarrow> Inr (ctx, noExecution\<lparr>NextPc := addr, PcChange := True\<rparr>))"

text \<open>
  Go shifts: a count of at least the width shifts everything out, a negative signed count
  panics, and \<open>>>\<close> on a signed value keeps the sign. \<open>uint(x)\<close> of an \<open>int32\<close> sign-extends to 64
  bits and reads the result unsigned.
\<close>

definition shl32 :: "int32 \<Rightarrow> int \<Rightarrow> int32" where
  "shl32 x amount = (if 32 \<le> amount then 0 else push_bit (nat amount) x)"

definition sar32 :: "int32 \<Rightarrow> int \<Rightarrow> int32 result" where
  "sar32 x amount =
     (if amount < 0 then Inl (Panic NegativeShift)
      else Inr (signed_drop_bit (nat (min amount 32)) x))"

definition uint64_of :: "int32 \<Rightarrow> int" where
  "uint64_of x = (if sint x < 0 then 2 ^ 64 + sint x else sint x)"

section \<open>Instructions\<close>

definition op_add :: "RegisterType \<Rightarrow> RegisterType \<Rightarrow> RegisterType \<Rightarrow> Forward \<Rightarrow> InstructionRunner" where
  "op_add rd rs1 rs2 forward =
     \<lparr>Run = (\<lambda>ctx _ _ _.
          let v1 = registerRead ctx forward rs1; v2 = registerRead ctx forward rs2 in
          Inr (ctx, register_execution rd (v1 + v2))),
      InstructionTypeOf = Add,
      ReadRegisters = [rs1, rs2],
      WriteRegisters = [rd],
      ForwardField = (\<lambda>f. f),
      MemoryRead = (\<lambda>_. [])\<rparr>"

definition op_addi :: "int32 \<Rightarrow> RegisterType \<Rightarrow> RegisterType \<Rightarrow> Forward \<Rightarrow> InstructionRunner" where
  "op_addi imm rd rs forward =
     \<lparr>Run = (\<lambda>ctx _ _ _.
          let v = registerRead ctx forward rs in Inr (ctx, register_execution rd (v + imm))),
      InstructionTypeOf = Addi,
      ReadRegisters = [rs],
      WriteRegisters = [rd],
      ForwardField = (\<lambda>f. f),
      MemoryRead = (\<lambda>_. [])\<rparr>"

definition op_and :: "RegisterType \<Rightarrow> RegisterType \<Rightarrow> RegisterType \<Rightarrow> Forward \<Rightarrow> InstructionRunner" where
  "op_and rd rs1 rs2 forward =
     \<lparr>Run = (\<lambda>ctx _ _ _.
          let v1 = registerRead ctx forward rs1; v2 = registerRead ctx forward rs2 in
          Inr (ctx, register_execution rd (v1 AND v2))),
      InstructionTypeOf = And,
      ReadRegisters = [rs1, rs2],
      WriteRegisters = [rd],
      ForwardField = (\<lambda>f. f),
      MemoryRead = (\<lambda>_. [])\<rparr>"

definition op_andi :: "int32 \<Rightarrow> RegisterType \<Rightarrow> RegisterType \<Rightarrow> Forward \<Rightarrow> InstructionRunner" where
  "op_andi imm rd rs forward =
     \<lparr>Run = (\<lambda>ctx _ _ _.
          let v = registerRead ctx forward rs in Inr (ctx, register_execution rd (v AND imm))),
      InstructionTypeOf = Andi,
      ReadRegisters = [rs],
      WriteRegisters = [rd],
      ForwardField = (\<lambda>f. f),
      MemoryRead = (\<lambda>_. [])\<rparr>"

definition op_auipc :: "RegisterType \<Rightarrow> int32 \<Rightarrow> Forward \<Rightarrow> InstructionRunner" where
  "op_auipc rd imm forward =
     \<lparr>Run = (\<lambda>ctx _ pc _.
          Inr (ctx, register_execution rd (pc + shl32 imm 12))),
      InstructionTypeOf = Auipc,
      ReadRegisters = [],
      WriteRegisters = [rd],
      ForwardField = (\<lambda>_. forward),
      MemoryRead = (\<lambda>_. [])\<rparr>"

definition op_beq :: "RegisterType \<Rightarrow> RegisterType \<Rightarrow> string \<Rightarrow> Forward \<Rightarrow> InstructionRunner" where
  "op_beq rs1 rs2 label forward =
     \<lparr>Run = (\<lambda>ctx labels _ _.
          let v1 = registerRead ctx forward rs1; v2 = registerRead ctx forward rs2 in
          if v1 = v2 then branch_to ctx labels label else Inr (ctx, noExecution)),
      InstructionTypeOf = Beq,
      ReadRegisters = [rs1, rs2],
      WriteRegisters = [],
      ForwardField = (\<lambda>f. f),
      MemoryRead = (\<lambda>_. [])\<rparr>"

definition op_beqz :: "RegisterType \<Rightarrow> string \<Rightarrow> Forward \<Rightarrow> InstructionRunner" where
  "op_beqz rs label forward =
     \<lparr>Run = (\<lambda>ctx labels _ _.
          let v = registerRead ctx forward rs in
          if v = 0 then branch_to ctx labels label else Inr (ctx, noExecution)),
      InstructionTypeOf = Beqz,
      ReadRegisters = [rs],
      WriteRegisters = [],
      ForwardField = (\<lambda>f. f),
      MemoryRead = (\<lambda>_. [])\<rparr>"

definition op_bge :: "RegisterType \<Rightarrow> RegisterType \<Rightarrow> string \<Rightarrow> Forward \<Rightarrow> InstructionRunner" where
  "op_bge rs1 rs2 label forward =
     \<lparr>Run = (\<lambda>ctx labels _ _.
          let v1 = registerRead ctx forward rs1; v2 = registerRead ctx forward rs2 in
          if v2 <=s v1 then branch_to ctx labels label else Inr (ctx, noExecution)),
      InstructionTypeOf = Bge,
      ReadRegisters = [rs1, rs2],
      WriteRegisters = [],
      ForwardField = (\<lambda>f. f),
      MemoryRead = (\<lambda>_. [])\<rparr>"

definition op_bgeu :: "RegisterType \<Rightarrow> RegisterType \<Rightarrow> string \<Rightarrow> Forward \<Rightarrow> InstructionRunner" where
  "op_bgeu rs1 rs2 label forward =
     \<lparr>Run = (\<lambda>ctx labels _ _.
          let v1 = registerRead ctx forward rs1; v2 = registerRead ctx forward rs2 in
          if v2 <=s v1 then branch_to ctx labels label else Inr (ctx, noExecution)),
      InstructionTypeOf = Bgeu,
      ReadRegisters = [rs1, rs2],
      WriteRegisters = [],
      ForwardField = (\<lambda>f. f),
      MemoryRead = (\<lambda>_. [])\<rparr>"

definition op_blt :: "RegisterType \<Rightarrow> RegisterType \<Rightarrow> string \<Rightarrow> Forward \<Rightarrow> InstructionRunner" where
  "op_blt rs1 rs2 label forward =
     \<lparr>Run = (\<lambda>ctx labels _ _.
          let v1 = registerRead ctx forward rs1; v2 = registerRead ctx forward rs2 in
          if v1 <s v2 then branch_to ctx labels label else Inr (ctx, noExecution)),
      InstructionTypeOf = Blt,
      ReadRegisters = [rs1, rs2],
      WriteRegisters = [],
      ForwardField = (\<lambda>f. f),
      MemoryRead = (\<lambda>_. [])\<rparr>"

definition op_bltu :: "RegisterType \<Rightarrow> RegisterType \<Rightarrow> string \<Rightarrow> Forward \<Rightarrow> InstructionRunner" where
  "op_bltu rs1 rs2 label forward =
     \<lparr>Run = (\<lambda>ctx labels _ _.
          let v1 = registerRead ctx forward rs1; v2 = registerRead ctx forward rs2 in
          if v1 <s v2 then branch_to ctx labels label else Inr (ctx, noExecution)),
      InstructionTypeOf = Bltu,
      ReadRegisters = [rs1, rs2],
      WriteRegisters = [],
      ForwardField = (\<lambda>f. f),
      MemoryRead = (\<lambda>_. [])\<rparr>"

definition op_bne :: "RegisterType \<Rightarrow> RegisterType \<Rightarrow> string \<Rightarrow> Forward \<Rightarrow> InstructionRunner" where
  "op_bne rs1 rs2 label forward =
     \<lparr>Run = (\<lambda>ctx labels _ _.
          let v1 = registerRead ctx forward rs1; v2 = registerRead ctx forward rs2 in
          if v1 \<noteq> v2 then branch_to ctx labels label else Inr (ctx, noExecution)),
      InstructionTypeOf = Bne,
      ReadRegisters = [rs1, rs2],
      WriteRegisters = [],
      ForwardField = (\<lambda>f. f),
      MemoryRead = (\<lambda>_. [])\<rparr>"

definition op_div :: "RegisterType \<Rightarrow> RegisterType \<Rightarrow> RegisterType \<Rightarrow> Forward \<Rightarrow> InstructionRunner" where
  "op_div rd rs1 rs2 forward =
     \<lparr>Run = (\<lambda>ctx _ _ _.
          let v1 = registerRead ctx forward rs1; v2 = registerRead ctx forward rs2 in
          if v2 = 0 then Inl (Error DivisionByZero)
          else Inr (ctx, register_execution rd (quot32 v1 v2))),
      InstructionTypeOf = Div,
      ReadRegisters = [rs1, rs2],
      WriteRegisters = [rd],
      ForwardField = (\<lambda>f. f),
      MemoryRead = (\<lambda>_. [])\<rparr>"

definition op_j :: "string \<Rightarrow> Forward \<Rightarrow> InstructionRunner" where
  "op_j label forward =
     \<lparr>Run = (\<lambda>ctx labels _ _.
          branch_to ctx labels label),
      InstructionTypeOf = J,
      ReadRegisters = [],
      WriteRegisters = [],
      ForwardField = (\<lambda>_. forward),
      MemoryRead = (\<lambda>_. [])\<rparr>"

definition op_jal :: "string \<Rightarrow> RegisterType \<Rightarrow> Forward \<Rightarrow> InstructionRunner" where
  "op_jal label rd forward =
     \<lparr>Run = (\<lambda>ctx labels pc _.
          case labels label of
            None \<Rightarrow> Inl (Error (LabelMissing label))
          | Some addr \<Rightarrow>
              Inr (ctx\<lparr>Registers := (Registers ctx)(Ra \<mapsto> pc)\<rparr>,
                   (register_execution rd (pc + 4))\<lparr>NextPc := addr, PcChange := True\<rparr>)),
      InstructionTypeOf = Jal,
      ReadRegisters = [],
      WriteRegisters = [rd],
      ForwardField = (\<lambda>f. f),
      MemoryRead = (\<lambda>_. [])\<rparr>"

definition op_jalr :: "RegisterType \<Rightarrow> RegisterType \<Rightarrow> int32 \<Rightarrow> Forward \<Rightarrow> InstructionRunner" where
  "op_jalr rd rs imm forward =
     \<lparr>Run = (\<lambda>ctx _ pc _.
          let v = registerRead ctx forward rs in
          Inr (ctx, (register_execution rd (pc + 4))\<lparr>NextPc := v + imm, PcChange := True\<rparr>)),
      InstructionTypeOf = Jalr,
      ReadRegisters = [rs],
      WriteRegisters = [rd],
      ForwardField = (\<lambda>f. f),
      MemoryRead = (\<lambda>_. [])\<rparr>"

definition op_lui :: "RegisterType \<Rightarrow> int32 \<Rightarrow> Forward \<Rightarrow> InstructionRunner" where
  "op_lui rd imm forward =
     \<lparr>Run = (\<lambda>ctx _ _ _.
          Inr (ctx, register_execution rd (shl32 imm 12))),
      InstructionTypeOf = Lui,
      ReadRegisters = [],
      WriteRegisters = [rd],
      ForwardField = (\<lambda>_. forward),
      MemoryRead = (\<lambda>_. [])\<rparr>"

definition op_lb :: "RegisterType \<Rightarrow> int32 \<Rightarrow> RegisterType \<Rightarrow> Forward \<Rightarrow> InstructionRunner" where
  "op_lb rd offset rs forward =
     \<lparr>Run = (\<lambda>ctx _ _ memory.
          rbind (go_index memory 0) (\<lambda>n. Inr (ctx, register_execution rd (scast n)))),
      InstructionTypeOf = Lb,
      ReadRegisters = [rs],
      WriteRegisters = [rd],
      ForwardField = (\<lambda>f. f),
      MemoryRead = (\<lambda>ctx. [registerRead ctx forward rs + offset])\<rparr>"

definition op_lh :: "RegisterType \<Rightarrow> int32 \<Rightarrow> RegisterType \<Rightarrow> Forward \<Rightarrow> InstructionRunner" where
  "op_lh rd offset rs forward =
     \<lparr>Run = (\<lambda>ctx _ _ memory.
          rbind (go_index memory 0) (\<lambda>b0. rbind (go_index memory 1) (\<lambda>b1.
          rbind (I32FromBytes b0 b1 0 0) (\<lambda>n. Inr (ctx, register_execution rd (n)))))),
      InstructionTypeOf = Lh,
      ReadRegisters = [rs, rd],
      WriteRegisters = [],
      ForwardField = (\<lambda>f. f),
      MemoryRead = (\<lambda>ctx. let idx = registerRead ctx forward rs + offset in [idx, idx + 1])\<rparr>"

definition op_li :: "RegisterType \<Rightarrow> int32 \<Rightarrow> Forward \<Rightarrow> InstructionRunner" where
  "op_li rd imm forward =
     \<lparr>Run = (\<lambda>ctx _ _ _.
          Inr (ctx, register_execution rd (imm))),
      InstructionTypeOf = Li,
      ReadRegisters = [],
      WriteRegisters = [rd],
      ForwardField = (\<lambda>_. forward),
      MemoryRead = (\<lambda>_. [])\<rparr>"

definition op_lw :: "RegisterType \<Rightarrow> int32 \<Rightarrow> RegisterType \<Rightarrow> Forward \<Rightarrow> InstructionRunner" where
  "op_lw rd offset rs forward =
     \<lparr>Run = (\<lambda>ctx _ _ memory.
          rbind (go_index memory 0) (\<lambda>b0. rbind (go_index memory 1) (\<lambda>b1.
          rbind (go_index memory 2) (\<lambda>b2. rbind (go_index memory 3) (\<lambda>b3.
          rbind (I32FromBytes b0 b1 b2 b3) (\<lambda>n. Inr (ctx, register_execution rd (n)))))))),
      InstructionTypeOf = Lw,
      ReadRegisters = [rs],
      WriteRegisters = [rd],
      ForwardField = (\<lambda>f. f),
      MemoryRead = (\<lambda>ctx. let idx = registerRead ctx forward rs + offset in
          [idx, idx + 1, idx + 2, idx + 3])\<rparr>"

definition op_nop :: "Forward \<Rightarrow> InstructionRunner" where
  "op_nop forward =
     \<lparr>Run = (\<lambda>ctx _ _ _.
          Inr (ctx, noExecution)),
      InstructionTypeOf = Nop,
      ReadRegisters = [],
      WriteRegisters = [],
      ForwardField = (\<lambda>_. forward),
      MemoryRead = (\<lambda>_. [])\<rparr>"

definition op_mul :: "RegisterType \<Rightarrow> RegisterType \<Rightarrow> RegisterType \<Rightarrow> Forward \<Rightarrow> InstructionRunner" where
  "op_mul rd rs1 rs2 forward =
     \<lparr>Run = (\<lambda>ctx _ _ _.
          let v1 = registerRead ctx forward rs1; v2 = registerRead ctx forward rs2 in
          Inr (ctx, register_execution rd (v1 * v2))),
      InstructionTypeOf = Mul,
      ReadRegisters = [rs1, rs2],
      WriteRegisters = [rd],
      ForwardField = (\<lambda>f. f),
      MemoryRead = (\<lambda>_. [])\<rparr>"

definition op_mv :: "RegisterType \<Rightarrow> RegisterType \<Rightarrow> Forward \<Rightarrow> InstructionRunner" where
  "op_mv rd rs forward =
     \<lparr>Run = (\<lambda>ctx _ _ _.
          let v = registerRead ctx forward rs in Inr (ctx, register_execution rd (v))),
      InstructionTypeOf = Mv,
      ReadRegisters = [rs],
      WriteRegisters = [rd],
      ForwardField = (\<lambda>f. f),
      MemoryRead = (\<lambda>_. [])\<rparr>"

definition op_or :: "RegisterType \<Rightarrow> RegisterType \<Rightarrow> RegisterType \<Rightarrow> Forward \<Rightarrow> InstructionRunner" where
  "op_or rd rs1 rs2 forward =
     \<lparr>Run = (\<lambda>ctx _ _ _.
          let v1 = registerRead ctx forward rs1; v2 = registerRead ctx forward rs2 in
          Inr (ctx, register_execution rd (v1 OR v2))),
      InstructionTypeOf = Or,
      ReadRegisters = [rs1, rs2],
      WriteRegisters = [rd],
      ForwardField = (\<lambda>f. f),
      MemoryRead = (\<lambda>_. [])\<rparr>"

definition op_ori :: "int32 \<Rightarrow> RegisterType \<Rightarrow> RegisterType \<Rightarrow> Forward \<Rightarrow> InstructionRunner" where
  "op_ori imm rd rs forward =
     \<lparr>Run = (\<lambda>ctx _ _ _.
          let v = registerRead ctx forward rs in Inr (ctx, register_execution rd (v OR imm))),
      InstructionTypeOf = Ori,
      ReadRegisters = [rs],
      WriteRegisters = [rd],
      ForwardField = (\<lambda>f. f),
      MemoryRead = (\<lambda>_. [])\<rparr>"

definition op_rem :: "RegisterType \<Rightarrow> RegisterType \<Rightarrow> RegisterType \<Rightarrow> Forward \<Rightarrow> InstructionRunner" where
  "op_rem rd rs1 rs2 forward =
     \<lparr>Run = (\<lambda>ctx _ _ _.
          let v1 = registerRead ctx forward rs1; v2 = registerRead ctx forward rs2 in
          if v2 = 0 then Inl (Panic IntegerDivide)
          else Inr (ctx, register_execution rd (rem32 v1 v2))),
      InstructionTypeOf = Rem,
      ReadRegisters = [rs1, rs2],
      WriteRegisters = [rd],
      ForwardField = (\<lambda>f. f),
      MemoryRead = (\<lambda>_. [])\<rparr>"

definition op_ret :: "Forward \<Rightarrow> InstructionRunner" where
  "op_ret forward =
     \<lparr>Run = (\<lambda>ctx _ _ _.
          Inr (ctx, noExecution\<lparr>Return := True\<rparr>)),
      InstructionTypeOf = Ret,
      ReadRegisters = [],
      WriteRegisters = [],
      ForwardField = (\<lambda>_. forward),
      MemoryRead = (\<lambda>_. [])\<rparr>"

definition op_sb :: "RegisterType \<Rightarrow> int32 \<Rightarrow> RegisterType \<Rightarrow> Forward \<Rightarrow> InstructionRunner" where
  "op_sb rs2 offset rs1 forward =
     \<lparr>Run = (\<lambda>ctx _ _ _.
          let v1 = registerRead ctx forward rs1; v2 = registerRead ctx forward rs2 in
          let idx = v1 + offset in
          Inr (ctx, noExecution\<lparr>MemoryChange := True, MemoryChanges := [(idx, ucast v2)]\<rparr>)),
      InstructionTypeOf = Sb,
      ReadRegisters = [rs1, rs2],
      WriteRegisters = [],
      ForwardField = (\<lambda>f. f),
      MemoryRead = (\<lambda>_. [])\<rparr>"

definition op_sh :: "RegisterType \<Rightarrow> int32 \<Rightarrow> RegisterType \<Rightarrow> Forward \<Rightarrow> InstructionRunner" where
  "op_sh rs2 offset rs1 forward =
     \<lparr>Run = (\<lambda>ctx _ _ _.
          let v1 = registerRead ctx forward rs1; v2 = registerRead ctx forward rs2 in
          let idx = v1 + offset in
          rbind (BytesFromLowBits v2) (\<lambda>(b0, b1, b2, b3).
          Inr (ctx, noExecution\<lparr>MemoryChange := True,
            MemoryChanges := [(idx, b0), (idx + 1, b1)]\<rparr>))),
      InstructionTypeOf = Sh,
      ReadRegisters = [rs1, rs2],
      WriteRegisters = [],
      ForwardField = (\<lambda>f. f),
      MemoryRead = (\<lambda>_. [])\<rparr>"

definition op_sll :: "RegisterType \<Rightarrow> RegisterType \<Rightarrow> RegisterType \<Rightarrow> Forward \<Rightarrow> InstructionRunner" where
  "op_sll rd rs1 rs2 forward =
     \<lparr>Run = (\<lambda>ctx _ _ _.
          let v1 = registerRead ctx forward rs1; v2 = registerRead ctx forward rs2 in
          Inr (ctx, register_execution rd (shl32 v1 (uint64_of v2)))),
      InstructionTypeOf = Sll,
      ReadRegisters = [rs1, rs2],
      WriteRegisters = [rd],
      ForwardField = (\<lambda>f. f),
      MemoryRead = (\<lambda>_. [])\<rparr>"

definition op_slli :: "RegisterType \<Rightarrow> RegisterType \<Rightarrow> int32 \<Rightarrow> Forward \<Rightarrow> InstructionRunner" where
  "op_slli rd rs imm forward =
     \<lparr>Run = (\<lambda>ctx _ _ _.
          let v = registerRead ctx forward rs in
          Inr (ctx, register_execution rd (shl32 v (uint64_of imm)))),
      InstructionTypeOf = Slli,
      ReadRegisters = [rs],
      WriteRegisters = [rd],
      ForwardField = (\<lambda>f. f),
      MemoryRead = (\<lambda>_. [])\<rparr>"

definition op_slt :: "RegisterType \<Rightarrow> RegisterType \<Rightarrow> RegisterType \<Rightarrow> Forward \<Rightarrow> InstructionRunner" where
  "op_slt rd rs1 rs2 forward =
     \<lparr>Run = (\<lambda>ctx _ _ _.
          let v1 = registerRead ctx forward rs1; v2 = registerRead ctx forward rs2 in
          Inr (ctx, register_execution rd (if v1 <s v2 then 1 else 0))),
      InstructionTypeOf = Slt,
      ReadRegisters = [rs1, rs2],
      WriteRegisters = [rd],
      ForwardField = (\<lambda>f. f),
      MemoryRead = (\<lambda>_. [])\<rparr>"

definition op_sltu :: "RegisterType \<Rightarrow> RegisterType \<Rightarrow> RegisterType \<Rightarrow> Forward \<Rightarrow> InstructionRunner" where
  "op_sltu rd rs1 rs2 forward =
     \<lparr>Run = (\<lambda>ctx _ _ _.
          let v1 = registerRead ctx forward rs1; v2 = registerRead ctx forward rs2 in
          Inr (ctx, register_execution rd (if v1 <s v2 then 1 else 0))),
      InstructionTypeOf = Sltu,
      ReadRegisters = [rs1, rs2],
      WriteRegisters = [rd],
      ForwardField = (\<lambda>f. f),
      MemoryRead = (\<lambda>_. [])\<rparr>"

definition op_slti :: "RegisterType \<Rightarrow> RegisterType \<Rightarrow> int32 \<Rightarrow> Forward \<Rightarrow> InstructionRunner" where
  "op_slti rd rs imm forward =
     \<lparr>Run = (\<lambda>ctx _ _ _.
          let v = registerRead ctx forward rs in
          Inr (ctx, register_execution rd (if v <s imm then 1 else 0))),
      InstructionTypeOf = Slti,
      ReadRegisters = [rs],
      WriteRegisters = [rd],
      ForwardField = (\<lambda>f. f),
      MemoryRead = (\<lambda>_. [])\<rparr>"

definition op_sra :: "RegisterType \<Rightarrow> RegisterType \<Rightarrow> RegisterType \<Rightarrow> Forward \<Rightarrow> InstructionRunner" where
  "op_sra rd rs1 rs2 forward =
     \<lparr>Run = (\<lambda>ctx _ _ _.
          let v1 = registerRead ctx forward rs1; v2 = registerRead ctx forward rs2 in
          rbind (sar32 v1 (sint v2)) (\<lambda>r. Inr (ctx, register_execution rd (r)))),
      InstructionTypeOf = Sra,
      ReadRegisters = [rs1, rs2],
      WriteRegisters = [rd],
      ForwardField = (\<lambda>f. f),
      MemoryRead = (\<lambda>_. [])\<rparr>"

definition op_srai :: "RegisterType \<Rightarrow> RegisterType \<Rightarrow> int32 \<Rightarrow> Forward \<Rightarrow> InstructionRunner" where
  "op_srai rd rs imm forward =
     \<lparr>Run = (\<lambda>ctx _ _ _.
          let v = registerRead ctx forward rs in
          rbind (sar32 v (sint imm)) (\<lambda>r. Inr (ctx, register_execution rd (r)))),
      InstructionTypeOf = Srai,
      ReadRegisters = [rs],
      WriteRegisters = [rd],
      ForwardField = (\<lambda>f. f),
      MemoryRead = (\<lambda>_. [])\<rparr>"

definition op_srl :: "RegisterType \<Rightarrow> RegisterType \<Rightarrow> RegisterType \<Rightarrow> Forward \<Rightarrow> InstructionRunner" where
  "op_srl rd rs1 rs2 forward =
     \<lparr>Run = (\<lambda>ctx _ _ _.
          let v1 = registerRead ctx forward rs1; v2 = registerRead ctx forward rs2 in
          rbind (sar32 v1 (sint v2)) (\<lambda>r. Inr (ctx, register_execution rd (r)))),
      InstructionTypeOf = Srl,
      ReadRegisters = [rs1, rs2],
      WriteRegisters = [rd],
      ForwardField = (\<lambda>f. f),
      MemoryRead = (\<lambda>_. [])\<rparr>"

definition op_srli :: "RegisterType \<Rightarrow> RegisterType \<Rightarrow> int32 \<Rightarrow> Forward \<Rightarrow> InstructionRunner" where
  "op_srli rd rs imm forward =
     \<lparr>Run = (\<lambda>ctx _ _ _.
          let v = registerRead ctx forward rs in
          rbind (sar32 v (sint imm)) (\<lambda>r. Inr (ctx, register_execution rd (r)))),
      InstructionTypeOf = Srli,
      ReadRegisters = [rs],
      WriteRegisters = [rd],
      ForwardField = (\<lambda>f. f),
      MemoryRead = (\<lambda>_. [])\<rparr>"

definition op_sub :: "RegisterType \<Rightarrow> RegisterType \<Rightarrow> RegisterType \<Rightarrow> Forward \<Rightarrow> InstructionRunner" where
  "op_sub rd rs1 rs2 forward =
     \<lparr>Run = (\<lambda>ctx _ _ _.
          let v1 = registerRead ctx forward rs1; v2 = registerRead ctx forward rs2 in
          Inr (ctx, register_execution rd (v1 - v2))),
      InstructionTypeOf = Sub,
      ReadRegisters = [rs1, rs2],
      WriteRegisters = [rd],
      ForwardField = (\<lambda>f. f),
      MemoryRead = (\<lambda>_. [])\<rparr>"

definition op_sw :: "RegisterType \<Rightarrow> int32 \<Rightarrow> RegisterType \<Rightarrow> Forward \<Rightarrow> InstructionRunner" where
  "op_sw rs2 offset rs1 forward =
     \<lparr>Run = (\<lambda>ctx _ _ _.
          let v1 = registerRead ctx forward rs1; v2 = registerRead ctx forward rs2 in
          let idx = v1 + offset in
          rbind (BytesFromLowBits v2) (\<lambda>(b0, b1, b2, b3).
          Inr (ctx, noExecution\<lparr>MemoryChange := True,
            MemoryChanges := [(idx, b0), (idx + 1, b1), (idx + 2, b2), (idx + 3, b3)]\<rparr>))),
      InstructionTypeOf = Sw,
      ReadRegisters = [rs1, rs2],
      WriteRegisters = [],
      ForwardField = (\<lambda>f. f),
      MemoryRead = (\<lambda>_. [])\<rparr>"

definition op_xor :: "RegisterType \<Rightarrow> RegisterType \<Rightarrow> RegisterType \<Rightarrow> Forward \<Rightarrow> InstructionRunner" where
  "op_xor rd rs1 rs2 forward =
     \<lparr>Run = (\<lambda>ctx _ _ _.
          let v1 = registerRead ctx forward rs1; v2 = registerRead ctx forward rs2 in
          Inr (ctx, register_execution rd (v1 XOR v2))),
      InstructionTypeOf = Xor,
      ReadRegisters = [rs1, rs2],
      WriteRegisters = [rd],
      ForwardField = (\<lambda>f. f),
      MemoryRead = (\<lambda>_. [])\<rparr>"

definition op_xori :: "int32 \<Rightarrow> RegisterType \<Rightarrow> RegisterType \<Rightarrow> Forward \<Rightarrow> InstructionRunner" where
  "op_xori imm rd rs forward =
     \<lparr>Run = (\<lambda>ctx _ _ _.
          let v = registerRead ctx forward rs in Inr (ctx, register_execution rd (v XOR imm))),
      InstructionTypeOf = Xori,
      ReadRegisters = [rs],
      WriteRegisters = [rd],
      ForwardField = (\<lambda>f. f),
      MemoryRead = (\<lambda>_. [])\<rparr>"

section \<open>Dispatch\<close>

datatype (plugins only: code size) instr =
    I_add RegisterType RegisterType RegisterType
  | I_addi int32 RegisterType RegisterType
  | I_and RegisterType RegisterType RegisterType
  | I_andi int32 RegisterType RegisterType
  | I_auipc RegisterType int32
  | I_beq RegisterType RegisterType string
  | I_beqz RegisterType string
  | I_bge RegisterType RegisterType string
  | I_bgeu RegisterType RegisterType string
  | I_blt RegisterType RegisterType string
  | I_bltu RegisterType RegisterType string
  | I_bne RegisterType RegisterType string
  | I_div RegisterType RegisterType RegisterType
  | I_j string
  | I_jal string RegisterType
  | I_jalr RegisterType RegisterType int32
  | I_lui RegisterType int32
  | I_lb RegisterType int32 RegisterType
  | I_lh RegisterType int32 RegisterType
  | I_li RegisterType int32
  | I_lw RegisterType int32 RegisterType
  | I_nop
  | I_mul RegisterType RegisterType RegisterType
  | I_mv RegisterType RegisterType
  | I_or RegisterType RegisterType RegisterType
  | I_ori int32 RegisterType RegisterType
  | I_rem RegisterType RegisterType RegisterType
  | I_ret
  | I_sb RegisterType int32 RegisterType
  | I_sh RegisterType int32 RegisterType
  | I_sll RegisterType RegisterType RegisterType
  | I_slli RegisterType RegisterType int32
  | I_slt RegisterType RegisterType RegisterType
  | I_sltu RegisterType RegisterType RegisterType
  | I_slti RegisterType RegisterType int32
  | I_sra RegisterType RegisterType RegisterType
  | I_srai RegisterType RegisterType int32
  | I_srl RegisterType RegisterType RegisterType
  | I_srli RegisterType RegisterType int32
  | I_sub RegisterType RegisterType RegisterType
  | I_sw RegisterType int32 RegisterType
  | I_xor RegisterType RegisterType RegisterType
  | I_xori int32 RegisterType RegisterType

primrec runner :: "instr \<Rightarrow> Forward \<Rightarrow> InstructionRunner" where
  "runner (I_add rd rs1 rs2) forward = op_add rd rs1 rs2 forward"
| "runner (I_addi imm rd rs) forward = op_addi imm rd rs forward"
| "runner (I_and rd rs1 rs2) forward = op_and rd rs1 rs2 forward"
| "runner (I_andi imm rd rs) forward = op_andi imm rd rs forward"
| "runner (I_auipc rd imm) forward = op_auipc rd imm forward"
| "runner (I_beq rs1 rs2 label) forward = op_beq rs1 rs2 label forward"
| "runner (I_beqz rs label) forward = op_beqz rs label forward"
| "runner (I_bge rs1 rs2 label) forward = op_bge rs1 rs2 label forward"
| "runner (I_bgeu rs1 rs2 label) forward = op_bgeu rs1 rs2 label forward"
| "runner (I_blt rs1 rs2 label) forward = op_blt rs1 rs2 label forward"
| "runner (I_bltu rs1 rs2 label) forward = op_bltu rs1 rs2 label forward"
| "runner (I_bne rs1 rs2 label) forward = op_bne rs1 rs2 label forward"
| "runner (I_div rd rs1 rs2) forward = op_div rd rs1 rs2 forward"
| "runner (I_j label) forward = op_j label forward"
| "runner (I_jal label rd) forward = op_jal label rd forward"
| "runner (I_jalr rd rs imm) forward = op_jalr rd rs imm forward"
| "runner (I_lui rd imm) forward = op_lui rd imm forward"
| "runner (I_lb rd offset rs) forward = op_lb rd offset rs forward"
| "runner (I_lh rd offset rs) forward = op_lh rd offset rs forward"
| "runner (I_li rd imm) forward = op_li rd imm forward"
| "runner (I_lw rd offset rs) forward = op_lw rd offset rs forward"
| "runner I_nop forward = op_nop forward"
| "runner (I_mul rd rs1 rs2) forward = op_mul rd rs1 rs2 forward"
| "runner (I_mv rd rs) forward = op_mv rd rs forward"
| "runner (I_or rd rs1 rs2) forward = op_or rd rs1 rs2 forward"
| "runner (I_ori imm rd rs) forward = op_ori imm rd rs forward"
| "runner (I_rem rd rs1 rs2) forward = op_rem rd rs1 rs2 forward"
| "runner I_ret forward = op_ret forward"
| "runner (I_sb rs2 offset rs1) forward = op_sb rs2 offset rs1 forward"
| "runner (I_sh rs2 offset rs1) forward = op_sh rs2 offset rs1 forward"
| "runner (I_sll rd rs1 rs2) forward = op_sll rd rs1 rs2 forward"
| "runner (I_slli rd rs imm) forward = op_slli rd rs imm forward"
| "runner (I_slt rd rs1 rs2) forward = op_slt rd rs1 rs2 forward"
| "runner (I_sltu rd rs1 rs2) forward = op_sltu rd rs1 rs2 forward"
| "runner (I_slti rd rs imm) forward = op_slti rd rs imm forward"
| "runner (I_sra rd rs1 rs2) forward = op_sra rd rs1 rs2 forward"
| "runner (I_srai rd rs imm) forward = op_srai rd rs imm forward"
| "runner (I_srl rd rs1 rs2) forward = op_srl rd rs1 rs2 forward"
| "runner (I_srli rd rs imm) forward = op_srli rd rs imm forward"
| "runner (I_sub rd rs1 rs2) forward = op_sub rd rs1 rs2 forward"
| "runner (I_sw rs2 offset rs1) forward = op_sw rs2 offset rs1 forward"
| "runner (I_xor rd rs1 rs2) forward = op_xor rd rs1 rs2 forward"
| "runner (I_xori imm rd rs) forward = op_xori imm rd rs forward"

type_synonym app = "instr Application"

lemmas op_table_defs [op_defs] =
  op_add_def op_addi_def op_and_def op_andi_def op_auipc_def op_beq_def
  op_beqz_def op_bge_def op_bgeu_def op_blt_def op_bltu_def op_bne_def
  op_div_def op_j_def op_jal_def op_jalr_def op_lui_def op_lb_def
  op_lh_def op_li_def op_lw_def op_nop_def op_mul_def op_mv_def
  op_or_def op_ori_def op_rem_def op_ret_def op_sb_def op_sh_def
  op_sll_def op_slli_def op_slt_def op_sltu_def op_slti_def op_sra_def
  op_srai_def op_srl_def op_srli_def op_sub_def op_sw_def op_xor_def
  op_xori_def

section \<open>Evaluation\<close>

text \<open>The methods of the stores as constants of their own: evaluating the table leaves them alone.\<close>

definition sw_Run :: "RegisterType \<Rightarrow> int32 \<Rightarrow> RegisterType \<Rightarrow> Forward \<Rightarrow> Context \<Rightarrow> (string \<Rightarrow> int32 option) \<Rightarrow> int32 \<Rightarrow>
    int8 list \<Rightarrow> (Context \<times> Execution) result" where
  "sw_Run rs2 offset rs1 forward ctx labels pc memory =
     (let idx = registerRead ctx forward rs1 + offset
      in rbind (BytesFromLowBits (registerRead ctx forward rs2)) (\<lambda>(b0, b1, b2, b3).
         Inr (ctx, noExecution\<lparr>MemoryChange := True,
           MemoryChanges := [(idx, b0), (idx + 1, b1), (idx + 2, b2), (idx + 3, b3)]\<rparr>)))"

lemma op_sw_code [code]:
  "op_sw rs2 offset rs1 forward =
     \<lparr>Run = sw_Run rs2 offset rs1 forward, InstructionTypeOf = Sw, ReadRegisters = [rs1, rs2],
      WriteRegisters = [], ForwardField = (\<lambda>f. f), MemoryRead = (\<lambda>_. [])\<rparr>"
  by (simp add: op_sw_def sw_Run_def fun_eq_iff Let_def)

end
