(* ===== verification/Footprint.thy ===== *)
theory Footprint
  imports Opcodes
begin

text \<open>
  What an instruction may read and write, as the rest of the program relies on it: the pipelines
  decide about hazards from \<open>ReadRegisters\<close> and \<open>WriteRegisters\<close> alone, forward a value instead of a
  register read, and choose the kind of write-back from the flags of the execution. The lemmas
  relate these declarations to what \<open>Run\<close> does, for all 43 instructions.
\<close>

section \<open>Evaluation of the method tables\<close>

text \<open>The facts that evaluate \<open>Run\<close>; the conversions of \<open>bit.go\<close> enter by their closed forms.\<close>

lemmas run_defs =
  op_defs branch_to_def sar32_def BytesFromLowBits_eq I32FromBytes_eq Let_def

lemmas execution_defs = register_execution_def noExecution_def

lemma register_execution_simps [simp]:
  "RegisterChange (register_execution rd v)"
  "Register (register_execution rd v) = rd"
  "RegisterValue (register_execution rd v) = (if rd = Zero then 0 else v)"
  "\<not> MemoryChange (register_execution rd v)"
  "MemoryChanges (register_execution rd v) = []"
  "\<not> PcChange (register_execution rd v)"
  "\<not> Return (register_execution rd v)"
  by (simp_all add: execution_defs)

lemma noExecution_simps [simp]:
  "\<not> RegisterChange noExecution" "\<not> MemoryChange noExecution" "MemoryChanges noExecution = []"
  "\<not> PcChange noExecution" "\<not> Return noExecution"
  by (simp_all add: execution_defs)

text \<open>\<open>InstructionType\<close>, \<open>ReadRegisters\<close> and \<open>WriteRegisters\<close> do not depend on the forwarded value.\<close>

lemma static_fields:
  "InstructionTypeOf (runner i f) = InstructionTypeOf (runner i g)"
  "ReadRegisters (runner i f) = ReadRegisters (runner i g)"
  "WriteRegisters (runner i f) = WriteRegisters (runner i g)"
  by (cases i; simp add: op_defs)+

text \<open>The static view of an instruction: the table with nothing forwarded.\<close>

abbreviation instructionType :: "instr \<Rightarrow> InstructionType" where
  "instructionType i \<equiv> InstructionTypeOf (runner i noForward)"

section \<open>Reads\<close>

text \<open>Two states that give the same values to the declared read registers give the same execution
  and the same memory addresses.\<close>

lemma run_reads:
  assumes "\<forall>r \<in> set (ReadRegisters (runner i f)). registerRead ctx f r = registerRead ctx' f' r"
  shows "rbind (Run (runner i f) ctx labels pc memory) (\<lambda>(_, exe). Inr exe) =
    rbind (Run (runner i f') ctx' labels pc memory) (\<lambda>(_, exe). Inr exe)"
  using assms by (cases i) (simp_all add: run_defs split: option.splits)

lemma memory_reads:
  assumes "\<forall>r \<in> set (ReadRegisters (runner i f)). registerRead ctx f r = registerRead ctx' f' r"
  shows "MemoryRead (runner i f) ctx = MemoryRead (runner i f') ctx'"
  using assms by (cases i) (simp_all add: op_defs Let_def)

text \<open>A failing instruction fails whatever the undeclared registers hold, with the same failure.\<close>

lemma run_fails_alike:
  assumes "\<forall>r \<in> set (ReadRegisters (runner i f)). registerRead ctx f r = registerRead ctx' f' r"
    and "Run (runner i f) ctx labels pc memory = Inl e"
  shows "Run (runner i f') ctx' labels pc memory = Inl e"
proof -
  have "rbind (Run (runner i f') ctx' labels pc memory) (\<lambda>(_, exe). Inr exe) = Inl e"
    using run_reads [OF assms(1), of labels pc memory] assms(2) by simp
  then show ?thesis
    by (cases "Run (runner i f') ctx' labels pc memory") auto
qed

section \<open>Writes\<close>

lemma run_context:
  assumes "Run (runner i f) ctx labels pc memory = Inr (ctx', exe)"
  shows "ctx' = (if instructionType i = Jal then ctx\<lparr>Registers := (Registers ctx)(Ra \<mapsto> pc)\<rparr>
    else ctx)"
  using assms by (cases i) (auto simp: run_defs split: option.splits if_splits)

text \<open>The memory of the context plays no role: loads get their bytes as an argument.\<close>

lemma run_other_memory:
  "Run (runner i f) (ctx\<lparr>Memory := M\<rparr>) labels pc memory =
    rbind (Run (runner i f) ctx labels pc memory) (\<lambda>(c, exe). Inr (c\<lparr>Memory := M\<rparr>, exe))"
  by (cases i) (simp_all add: run_defs registerRead_def split: option.splits)

lemma read_other_memory:
  "MemoryRead (runner i f) (ctx\<lparr>Memory := M\<rparr>) = MemoryRead (runner i f) ctx"
  by (cases i) (simp_all add: op_defs registerRead_def Let_def)

lemma run_register:
  assumes "Run (runner i f) ctx labels pc memory = Inr (ctx', exe)" and "RegisterChange exe"
  shows "instructionType i \<noteq> Lh \<Longrightarrow> Register exe \<in> set (WriteRegisters (runner i f))"
    and "Register exe = Zero \<Longrightarrow> RegisterValue exe = 0"
  using assms by (cases i; auto simp: run_defs split: option.splits if_splits)+

lemma run_class:
  assumes "Run (runner i f) ctx labels pc memory = Inr (ctx', exe)"
  shows "MemoryChange exe \<longleftrightarrow> IsMemoryWrite (instructionType i)"
    and "Return exe \<longleftrightarrow> instructionType i = Ret"
    and "MemoryChange exe \<Longrightarrow> \<not> RegisterChange exe \<and> \<not> PcChange exe"
    and "PcChange exe \<Longrightarrow> IsBranch (instructionType i) \<or> instructionType i = Bltu"
    and "IsUnconditionalBranch (instructionType i) \<Longrightarrow> PcChange exe"
  using assms
  by (cases i; auto simp: run_defs instruction_class_defs split: option.splits if_splits)+

lemma memory_read_class: "MemoryRead (runner i f) ctx \<noteq> [] \<longleftrightarrow> IsMemoryRead (instructionType i)"
  by (cases i) (simp_all add: op_defs instruction_class_defs Let_def)

lemma memory_read_addresses:
  "\<exists>a. MemoryRead (runner i f) ctx =
    map (\<lambda>k. a + of_nat k) [0..<length (MemoryRead (runner i f) ctx)]
    \<and> length (MemoryRead (runner i f) ctx) \<le> 4"
  by (cases i) (auto simp: op_defs Let_def upt_rec)

text \<open>The byte addresses of a store are consecutive, starting at the base address.\<close>

lemma run_memory_changes:
  assumes "Run (runner i f) ctx labels pc memory = Inr (ctx', exe)" and "MemoryChange exe"
  shows "\<exists>a. map fst (MemoryChanges exe) =
    map (\<lambda>k. a + of_nat k) [0..<length (MemoryChanges exe)] \<and> length (MemoryChanges exe) \<in> {1, 2, 4}"
  using assms
  by (cases i) (auto simp: run_defs upt_rec split: option.splits if_splits)

lemma consecutive_distinct:
  assumes "n \<le> 2 ^ 32"
  shows "distinct (map (\<lambda>k. (a :: int32) + of_nat k) [0..<n])"
proof -
  have "inj_on (\<lambda>k. a + of_nat k) (set [0..<n])"
  proof (rule inj_onI)
    fix j k
    assume "j \<in> set [0..<n]" and "k \<in> set [0..<n]"
      and "a + of_nat j = a + (of_nat k :: int32)"
    then have "unat (of_nat j :: int32) = unat (of_nat k :: int32)" and "j < 2 ^ 32" and "k < 2 ^ 32"
      using assms by auto
    then show "j = k"
      by (simp add: unat_of_nat take_bit_nat_eq_self)
  qed
  then show ?thesis
    by (simp add: distinct_map)
qed

lemma run_memory_distinct:
  assumes "Run (runner i f) ctx labels pc memory = Inr (ctx', exe)"
  shows "distinct (map fst (MemoryChanges exe))"
proof (cases "MemoryChange exe")
  case True
  from run_memory_changes [OF assms True] obtain a where
    keys: "map fst (MemoryChanges exe) = map (\<lambda>k. a + of_nat k) [0..<length (MemoryChanges exe)]"
    and len: "length (MemoryChanges exe) \<in> {1, 2, 4}"
    by blast
  have "length (MemoryChanges exe) \<le> 2 ^ 32"
    using len by auto
  then show ?thesis
    unfolding keys by (rule consecutive_distinct)
next
  case False
  with assms show ?thesis
    by (cases i) (auto simp: run_defs split: option.splits if_splits)
qed

text \<open>The memory changes of a load or of a branch are empty.\<close>

lemma run_no_memory_changes:
  assumes "Run (runner i f) ctx labels pc memory = Inr (ctx', exe)" and "\<not> MemoryChange exe"
  shows "MemoryChanges exe = []"
  using assms by (cases i) (auto simp: run_defs split: option.splits if_splits)

end
