(* ===== verification/Isa.thy ===== *)
theory Isa
  imports Footprint
begin

text \<open>
  A reference semantics of the RV32IM instructions that \<open>src/risc/opcodes.go\<close> implements, written
  from the RISC-V manual, and the extent to which \<open>Run\<close> implements it. \<open>rv_value\<close> is the value an
  instruction writes to its destination, \<open>rv_taken\<close> the condition of a branch; \<open>x\<close> is the register
  file, with \<open>x Zero = 0\<close>.
\<close>

unbundle bit_operations_syntax

section \<open>Reference semantics\<close>

definition shamt :: "int32 \<Rightarrow> nat" where
  "shamt v = unat (v AND 31)"

primrec rv_value ::
    "instr \<Rightarrow> (RegisterType \<Rightarrow> int32) \<Rightarrow> int32 \<Rightarrow> int8 list \<Rightarrow> (RegisterType \<times> int32) option" where
  "rv_value (I_add rd a b) x pc m = Some (rd, x a + x b)"
| "rv_value (I_addi imm rd a) x pc m = Some (rd, x a + imm)"
| "rv_value (I_and rd a b) x pc m = Some (rd, x a AND x b)"
| "rv_value (I_andi imm rd a) x pc m = Some (rd, x a AND imm)"
| "rv_value (I_auipc rd imm) x pc m = Some (rd, pc + push_bit 12 imm)"
| "rv_value (I_beq a b l) x pc m = None"
| "rv_value (I_beqz a l) x pc m = None"
| "rv_value (I_bge a b l) x pc m = None"
| "rv_value (I_bgeu a b l) x pc m = None"
| "rv_value (I_blt a b l) x pc m = None"
| "rv_value (I_bltu a b l) x pc m = None"
| "rv_value (I_bne a b l) x pc m = None"
| "rv_value (I_div rd a b) x pc m = Some (rd, if x b = 0 then -1 else quot32 (x a) (x b))"
| "rv_value (I_j l) x pc m = None"
| "rv_value (I_jal l rd) x pc m = Some (rd, pc + 4)"
| "rv_value (I_jalr rd a imm) x pc m = Some (rd, pc + 4)"
| "rv_value (I_lui rd imm) x pc m = Some (rd, push_bit 12 imm)"
| "rv_value (I_lb rd ofs a) x pc m = Some (rd, scast (m ! 0))"
| "rv_value (I_lh rd ofs a) x pc m =
     Some (rd, scast (ucast (m ! 0) OR push_bit 8 (ucast (m ! 1)) :: 16 word))"
| "rv_value (I_li rd imm) x pc m = Some (rd, imm)"
| "rv_value (I_lw rd ofs a) x pc m =
     Some (rd, ucast (m ! 0) OR push_bit 8 (ucast (m ! 1)) OR push_bit 16 (ucast (m ! 2))
       OR push_bit 24 (ucast (m ! 3)))"
| "rv_value I_nop x pc m = None"
| "rv_value (I_mul rd a b) x pc m = Some (rd, x a * x b)"
| "rv_value (I_mv rd a) x pc m = Some (rd, x a)"
| "rv_value (I_or rd a b) x pc m = Some (rd, x a OR x b)"
| "rv_value (I_ori imm rd a) x pc m = Some (rd, x a OR imm)"
| "rv_value (I_rem rd a b) x pc m = Some (rd, if x b = 0 then x a else rem32 (x a) (x b))"
| "rv_value I_ret x pc m = None"
| "rv_value (I_sb b ofs a) x pc m = None"
| "rv_value (I_sh b ofs a) x pc m = None"
| "rv_value (I_sll rd a b) x pc m = Some (rd, push_bit (shamt (x b)) (x a))"
| "rv_value (I_slli rd a imm) x pc m = Some (rd, push_bit (shamt imm) (x a))"
| "rv_value (I_slt rd a b) x pc m = Some (rd, if x a <s x b then 1 else 0)"
| "rv_value (I_sltu rd a b) x pc m = Some (rd, if x a < x b then 1 else 0)"
| "rv_value (I_slti rd a imm) x pc m = Some (rd, if x a <s imm then 1 else 0)"
| "rv_value (I_sra rd a b) x pc m = Some (rd, signed_drop_bit (shamt (x b)) (x a))"
| "rv_value (I_srai rd a imm) x pc m = Some (rd, signed_drop_bit (shamt imm) (x a))"
| "rv_value (I_srl rd a b) x pc m = Some (rd, drop_bit (shamt (x b)) (x a))"
| "rv_value (I_srli rd a imm) x pc m = Some (rd, drop_bit (shamt imm) (x a))"
| "rv_value (I_sub rd a b) x pc m = Some (rd, x a - x b)"
| "rv_value (I_sw b ofs a) x pc m = None"
| "rv_value (I_xor rd a b) x pc m = Some (rd, x a XOR x b)"
| "rv_value (I_xori imm rd a) x pc m = Some (rd, x a XOR imm)"

definition rv_taken :: "instr \<Rightarrow> (RegisterType \<Rightarrow> int32) \<Rightarrow> (string \<times> bool) option" where
  "rv_taken i x =
     (case i of
        I_beq a b l \<Rightarrow> Some (l, x a = x b)
      | I_beqz a l \<Rightarrow> Some (l, x a = 0)
      | I_bge a b l \<Rightarrow> Some (l, x b <=s x a)
      | I_bgeu a b l \<Rightarrow> Some (l, x b \<le> x a)
      | I_blt a b l \<Rightarrow> Some (l, x a <s x b)
      | I_bltu a b l \<Rightarrow> Some (l, x a < x b)
      | I_bne a b l \<Rightarrow> Some (l, x a \<noteq> x b)
      | I_j l \<Rightarrow> Some (l, True)
      | I_jal l rd \<Rightarrow> Some (l, True)
      | _ \<Rightarrow> None)"

definition rv_load_width :: "instr \<Rightarrow> nat" where
  "rv_load_width i = (case i of I_lb _ _ _ \<Rightarrow> 1 | I_lh _ _ _ \<Rightarrow> 2 | I_lw _ _ _ \<Rightarrow> 4 | _ \<Rightarrow> 0)"

section \<open>Where the implementation conforms\<close>

text \<open>
  The condition under which the two agree. It is \<open>True\<close> for most instructions; the shift counts
  must be below the width, unsigned comparisons agree where the operands have the same sign, the
  logical right shifts where the operand is not negative, \<open>lh\<close> where the half-word is not
  negative, and the divisions where the divisor is not 0.
\<close>

definition in_width :: "int32 \<Rightarrow> bool" where
  "in_width v = (0 \<le> sint v \<and> sint v < 32)"

definition conforming :: "instr \<Rightarrow> (RegisterType \<Rightarrow> int32) \<Rightarrow> int8 list \<Rightarrow> bool" where
  "conforming i x m =
     (case i of
        I_sll rd a b \<Rightarrow> in_width (x b)
      | I_slli rd a imm \<Rightarrow> in_width imm
      | I_sra rd a b \<Rightarrow> in_width (x b)
      | I_srai rd a imm \<Rightarrow> in_width imm
      | I_srl rd a b \<Rightarrow> in_width (x b) \<and> 0 \<le> sint (x a)
      | I_srli rd a imm \<Rightarrow> in_width imm \<and> 0 \<le> sint (x a)
      | I_sltu rd a b \<Rightarrow> (0 \<le> sint (x a)) = (0 \<le> sint (x b))
      | I_bltu a b l \<Rightarrow> (0 \<le> sint (x a)) = (0 \<le> sint (x b))
      | I_bgeu a b l \<Rightarrow> (0 \<le> sint (x a)) = (0 \<le> sint (x b))
      | I_div rd a b \<Rightarrow> x b \<noteq> 0
      | I_rem rd a b \<Rightarrow> x b \<noteq> 0
      | I_lh rd ofs a \<Rightarrow> 0 \<le> sint (m ! 1)
      | _ \<Rightarrow> True)"

section \<open>Word facts\<close>

lemma sint_nonneg_iff: "0 \<le> sint (v :: int32) \<longleftrightarrow> \<not> bit v 31"
  by (simp add: sint_uint not_less [symmetric] signed_take_bit_negative_iff)
     (simp add: bit_uint_iff)

lemma uint_sint_cases: "uint (v :: int32) = (if 0 \<le> sint v then sint v else sint v + 2 ^ 32)"
proof (cases "0 \<le> sint v")
  case True
  then show ?thesis
    using sint_less [of v] by (simp add: uint_sint take_bit_int_eq_self)
next
  case False
  have "sint v mod 2 ^ 32 = (sint v + 2 ^ 32) mod 2 ^ 32"
    by simp
  also have "\<dots> = sint v + 2 ^ 32"
    using False sint_ge [of v] by (intro mod_pos_pos_trivial) simp_all
  finally show ?thesis
    using False by (simp add: uint_sint take_bit_eq_mod)
qed

lemma unsigned_less_signed:
  "(0 \<le> sint a) = (0 \<le> sint b) \<Longrightarrow> (a :: int32) < b \<longleftrightarrow> a <s b"
  by (simp add: word_less_alt word_sless_alt uint_sint_cases)

lemma unsigned_le_signed:
  "(0 \<le> sint a) = (0 \<le> sint b) \<Longrightarrow> (a :: int32) \<le> b \<longleftrightarrow> a <=s b"
  by (simp add: word_le_def word_sle_eq uint_sint_cases)

lemma signed_drop_bit_nonneg:
  "0 \<le> sint (v :: int32) \<Longrightarrow> signed_drop_bit n v = drop_bit n v"
  by (rule bit_word_eqI)
     (auto simp: bit_simps sint_nonneg_iff dest: bit_imp_le_length)

lemma shamt_in_width: "in_width v \<Longrightarrow> shamt v = nat (sint v)"
proof -
  assume w: "in_width v"
  then have small: "unat v = nat (sint v)"
    by (simp add: in_width_def uint_sint_cases flip: nat_uint_eq)
  have "v AND 31 = take_bit 5 v"
    by (simp add: take_bit_eq_mask mask_eq_exp_minus_1)
  then have "shamt v = take_bit 5 (unat v)"
    by (simp add: shamt_def unsigned_take_bit_eq)
  also have "\<dots> = nat (sint v)"
    using w unfolding small by (intro take_bit_nat_eq_self) (simp add: in_width_def nat_less_iff)
  finally show ?thesis .
qed

lemma shl32_in_width: "in_width v \<Longrightarrow> shl32 w (uint64_of v) = push_bit (shamt v) w"
  by (simp add: shl32_def uint64_of_def shamt_in_width in_width_def)

lemma sar32_in_width: "in_width v \<Longrightarrow> sar32 w (sint v) = Inr (signed_drop_bit (shamt v) w)"
  by (simp add: sar32_def shamt_in_width) (simp add: in_width_def)

lemma shl32_12 [simp]: "shl32 w 12 = push_bit 12 w"
  by (simp add: shl32_def)

lemma half_word_nonneg:
  assumes "0 \<le> sint (hi :: int8)"
  shows "scast (ucast lo OR push_bit 8 (ucast hi) :: 16 word) =
    (ucast (lo :: int8) OR push_bit 8 (ucast hi) :: int32)"
proof (rule bit_word_eqI)
  have "\<not> bit hi 7"
    using assms bit_last_iff [of hi] by simp
  then have hi: "k < 7" if "bit hi k" for k
    using that bit_imp_le_length [of hi k] by (cases "k = 7") auto
  fix n
  assume "n < LENGTH(32)"
  then show "bit (scast (ucast lo OR push_bit 8 (ucast hi) :: 16 word) :: int32) n =
      bit (ucast lo OR push_bit 8 (ucast hi) :: int32) n"
    by (auto simp: bit_simps min_def not_le dest: hi bit_imp_le_length)
qed

section \<open>Conformance\<close>

definition agrees :: "(RegisterType \<times> int32) option \<Rightarrow> Execution \<Rightarrow> bool" where
  "agrees r exe =
     (case r of
        None \<Rightarrow> \<not> RegisterChange exe
      | Some (rd, v) \<Rightarrow> RegisterChange exe \<and> Register exe = rd
          \<and> RegisterValue exe = (if rd = Zero then 0 else v))"

definition branches :: "(string \<times> bool) option \<Rightarrow> labels \<Rightarrow> Execution \<Rightarrow> bool" where
  "branches t labels exe =
     (case t of
        None \<Rightarrow> True
      | Some (l, b) \<Rightarrow> PcChange exe = b \<and> (b \<longrightarrow> labels l = Some (NextPc exe)))"

lemma run_conforms:
  assumes "x = registerRead ctx f" and "conforming i x m" and "length m = rv_load_width i"
    and "\<forall>l. rv_taken i x = Some (l, True) \<longrightarrow> labels l \<noteq> None"
  shows "\<exists>ctx' exe. Run (runner i f) ctx labels pc m = Inr (ctx', exe)
    \<and> agrees (rv_value i x pc m) exe \<and> branches (rv_taken i x) labels exe"
  using assms
  by (cases i)
     (auto simp: op_defs branch_to_def BytesFromLowBits_eq I32FromBytes_eq conforming_def
       rv_taken_def rv_load_width_def agrees_def branches_def shl32_in_width sar32_in_width
       unsigned_less_signed unsigned_le_signed signed_drop_bit_nonneg half_word_nonneg go_index_def Let_def)

section \<open>Where it does not\<close>

lemma unsigned_run_as_signed:
  "Run (runner (I_bltu a b l) f) = Run (runner (I_blt a b l) f)"
  "Run (runner (I_bgeu a b l) f) = Run (runner (I_bge a b l) f)"
  "Run (runner (I_sltu rd a b) f) = Run (runner (I_slt rd a b) f)"
  "Run (runner (I_srl rd a b) f) = Run (runner (I_sra rd a b) f)"
  "Run (runner (I_srli rd a imm) f) = Run (runner (I_srai rd a imm) f)"
  by (simp_all add: op_defs)

lemma unsigned_less_signed_iff:
  "(a < b) = (a <s b) \<longleftrightarrow> (0 \<le> sint (a :: int32)) = (0 \<le> sint b)"
  using sint_ge [of a] sint_less [of a] sint_ge [of b] sint_less [of b]
  by (auto simp: word_less_alt word_sless_alt uint_sint_cases)

end
