(* ===== verification/Hazards.thy ===== *)
theory Hazards
  imports Footprint
begin

text \<open>
  The pending-register bookkeeping of \<open>src/risc/app.go\<close>: the counters that the control units
  increment when an instruction is issued and the write units decrement when it retires, and the
  hazard checks on them. The locale \<open>scoreboard\<close> is the contract between the two: the registers in
  flight are a multiset, issuing adds the registers of an instruction, retiring removes them, in
  any order. It is interpreted on \<open>AddPendingRegisters\<close> and \<open>DeletePendingRegisters\<close>, once for the
  read counters and once for the write counters.
\<close>

section \<open>Counters\<close>

text \<open>\<open>m[r]++\<close>, and \<open>m[r]--\<close> followed by the deletion of an entry that is no longer positive; both
  skip register \<open>Zero\<close>.\<close>

definition increment :: "RegisterType \<Rightarrow> (RegisterType \<rightharpoonup> int) \<Rightarrow> (RegisterType \<rightharpoonup> int)" where
  "increment register m = (if register = Zero then m else m(register \<mapsto> map_get m register + 1))"

definition decrement :: "RegisterType \<Rightarrow> (RegisterType \<rightharpoonup> int) \<Rightarrow> (RegisterType \<rightharpoonup> int)" where
  "decrement register m =
     (if register = Zero then m
      else let m' = m(register \<mapsto> map_get m register - 1)
           in if map_get m' register \<le> 0 then m'(register := None) else m')"

definition AddPendingRegisters :: "Context \<Rightarrow> InstructionRunner \<Rightarrow> Context" where
  "AddPendingRegisters ctx run =
     ctx\<lparr>PendingReadRegisters := fold increment (ReadRegisters run) (PendingReadRegisters ctx),
         PendingWriteRegisters := fold increment (WriteRegisters run) (PendingWriteRegisters ctx)\<rparr>"

definition DeletePendingRegisters ::
    "Context \<Rightarrow> RegisterType list \<Rightarrow> RegisterType list \<Rightarrow> Context" where
  "DeletePendingRegisters ctx readRegisters writeRegisters =
     ctx\<lparr>PendingReadRegisters := fold decrement readRegisters (PendingReadRegisters ctx),
         PendingWriteRegisters := fold decrement writeRegisters (PendingWriteRegisters ctx)\<rparr>"

text \<open>The older pair of operations, which MVP-4 and MVP-5 use. Its deletion tests and deletes the
  register file entry, not the counter.\<close>

definition AddPendingWriteRegisters :: "Context \<Rightarrow> RegisterType list \<Rightarrow> Context" where
  "AddPendingWriteRegisters ctx registers =
     fold (\<lambda>register ctx. ctx\<lparr>PendingWriteRegisters :=
         (PendingWriteRegisters ctx)(register \<mapsto> map_get (PendingWriteRegisters ctx) register + 1)\<rparr>)
       registers ctx"

definition deletePendingWrite :: "RegisterType \<Rightarrow> Context \<Rightarrow> Context" where
  "deletePendingWrite register ctx =
     (let ctx' = ctx\<lparr>PendingWriteRegisters :=
        (PendingWriteRegisters ctx)(register \<mapsto> map_get (PendingWriteRegisters ctx) register - 1)\<rparr>
      in if map_get (Registers ctx') register <=s 0
         then ctx'\<lparr>Registers := (Registers ctx')(register := None)\<rparr> else ctx')"

definition DeletePendingWriteRegisters :: "Context \<Rightarrow> RegisterType list \<Rightarrow> Context" where
  "DeletePendingWriteRegisters ctx registers = fold deletePendingWrite registers ctx"

section \<open>Hazard checks\<close>

text \<open>\<open>v, exists := m[register]; exists && v > 0\<close>.\<close>

definition pending :: "(RegisterType \<rightharpoonup> int) \<Rightarrow> RegisterType \<Rightarrow> bool" where
  "pending m register = (case m register of None \<Rightarrow> False | Some v \<Rightarrow> 0 < v)"

fun IsWriteDataHazard :: "Context \<Rightarrow> RegisterType list \<Rightarrow> bool" where
  "IsWriteDataHazard ctx [] = False"
| "IsWriteDataHazard ctx (register # registers) =
     (if register = Zero then IsWriteDataHazard ctx registers
      else if pending (PendingWriteRegisters ctx) register then True
      else IsWriteDataHazard ctx registers)"

fun readHazard :: "Context \<Rightarrow> RegisterType list \<Rightarrow> bool \<times> string" where
  "readHazard ctx [] = (False, [])"
| "readHazard ctx (register # registers) =
     (if register = Zero then readHazard ctx registers
      else if pending (PendingWriteRegisters ctx) register
      then (True, ''Read hazard on '' @ RegisterType_String register)
      else readHazard ctx registers)"

definition IsDataHazard :: "Context \<Rightarrow> InstructionRunner \<Rightarrow> bool \<times> string" where
  "IsDataHazard ctx run = readHazard ctx (ReadRegisters run)"

definition IsDataHazard2 ::
    "Context \<Rightarrow> InstructionRunner \<Rightarrow> bool \<times> nat \<times> RegisterType list" where
  "IsDataHazard2 ctx run =
     (let hazards = filter (\<lambda>r. r \<noteq> Zero \<and> pending (PendingWriteRegisters ctx) r)
        (ReadRegisters run)
      in if length hazards = 0 then (False, 0, []) else (True, length hazards, hazards))"

datatype HazardType = ReadAfterWrite | WriteAfterWrite | WriteAfterRead

primrec HazardType_Stringer :: "HazardType \<Rightarrow> string" where
  "HazardType_Stringer ReadAfterWrite = ''RAW''"
| "HazardType_Stringer WriteAfterWrite = ''WAW''"
| "HazardType_Stringer WriteAfterRead = ''WAR''"

record Hazard =
  HazardKind :: HazardType
  HazardRegister :: RegisterType

text \<open>The appends of one register; the set of hazard types is collected afterwards.\<close>

definition read_hazards :: "Context \<Rightarrow> RegisterType \<Rightarrow> Hazard list" where
  "read_hazards ctx register =
     (if register = Zero then []
      else if pending (PendingWriteRegisters ctx) register
      then [\<lparr>HazardKind = ReadAfterWrite, HazardRegister = register\<rparr>] else [])"

definition write_hazards :: "Context \<Rightarrow> RegisterType \<Rightarrow> Hazard list" where
  "write_hazards ctx register =
     (if register = Zero then []
      else (if pending (PendingWriteRegisters ctx) register
            then [\<lparr>HazardKind = WriteAfterWrite, HazardRegister = register\<rparr>] else [])
         @ (if pending (PendingReadRegisters ctx) register
            then [\<lparr>HazardKind = WriteAfterRead, HazardRegister = register\<rparr>] else []))"

definition IsDataHazard3 ::
    "Context \<Rightarrow> InstructionRunner \<Rightarrow> Hazard list \<times> HazardType set" where
  "IsDataHazard3 ctx run =
     (let hazards = concat (map (read_hazards ctx) (ReadRegisters run))
        @ concat (map (write_hazards ctx) (WriteRegisters run))
      in (hazards, set (map HazardKind hazards)))"

section \<open>The counters as multisets\<close>

text \<open>The invariant of a counter map: entries are positive and register \<open>Zero\<close> has none. The
  registers in flight, as a multiset.\<close>

definition counters_ok :: "(RegisterType \<rightharpoonup> int) \<Rightarrow> bool" where
  "counters_ok m = (m Zero = None \<and> (\<forall>v \<in> ran m. 0 < v))"

definition in_flight :: "(RegisterType \<rightharpoonup> int) \<Rightarrow> RegisterType multiset" where
  "in_flight m = Abs_multiset (\<lambda>r. nat (map_get m r))"

definition tracked :: "RegisterType list \<Rightarrow> RegisterType multiset" where
  "tracked rs = mset (filter (\<lambda>r. r \<noteq> Zero) rs)"

lemma count_in_flight [simp]: "count (in_flight m) r = nat (map_get m r)"
  by (simp add: in_flight_def count_Abs_multiset)

lemma tracked_Nil [simp]: "tracked [] = {#}"
  by (simp add: tracked_def)

lemma tracked_Cons: "tracked (r # rs) = (if r = Zero then tracked rs else add_mset r (tracked rs))"
  by (simp add: tracked_def)

lemma Zero_not_tracked [simp]: "Zero \<notin># tracked rs"
  by (simp add: tracked_def)

lemma set_tracked [simp]: "set_mset (tracked rs) = set rs - {Zero}"
  by (auto simp: tracked_def)

lemma counters_ok_get: "counters_ok m \<Longrightarrow> 0 \<le> map_get m r"
  by (auto simp: counters_ok_def map_get_def ran_def less_imp_le split: option.splits)

lemma counters_ok_empty [simp]: "counters_ok Map.empty"
  by (simp add: counters_ok_def)

lemma in_flight_empty [simp]: "in_flight Map.empty = {#}"
  by (rule multiset_eqI) simp

lemma increment_ok: "counters_ok m \<Longrightarrow> counters_ok (increment r m)"
  using counters_ok_get [of m r]
  by (auto simp: increment_def counters_ok_def ran_def)

lemma decrement_ok: "counters_ok m \<Longrightarrow> counters_ok (decrement r m)"
  by (auto simp: decrement_def counters_ok_def ran_def Let_def)

lemma in_flight_increment:
  "counters_ok m \<Longrightarrow>
    in_flight (increment r m) = (if r = Zero then in_flight m else add_mset r (in_flight m))"
  using counters_ok_get [of m r]
  by (auto intro!: multiset_eqI simp: increment_def nat_add_distrib)

lemma in_flight_decrement:
  "counters_ok m \<Longrightarrow>
    in_flight (decrement r m) = (if r = Zero then in_flight m else in_flight m - {#r#})"
  using counters_ok_get [of m r]
  by (auto intro!: multiset_eqI simp: decrement_def Let_def nat_diff_distrib)

lemma fold_increment:
  "counters_ok m \<Longrightarrow>
    counters_ok (fold increment rs m) \<and> in_flight (fold increment rs m) = in_flight m + tracked rs"
  by (induction rs arbitrary: m)
     (simp_all add: increment_ok in_flight_increment tracked_Cons)

lemma fold_decrement:
  "counters_ok m \<Longrightarrow>
    counters_ok (fold decrement rs m) \<and> in_flight (fold decrement rs m) = in_flight m - tracked rs"
  by (induction rs arbitrary: m)
     (simp_all add: decrement_ok in_flight_decrement tracked_Cons)

lemma pending_iff: "pending m r \<longleftrightarrow> r \<in># in_flight m"
  by (auto simp: pending_def map_get_def count_greater_zero_iff [symmetric]
      simp del: count_greater_zero_iff split: option.splits)

section \<open>The scoreboard contract\<close>

locale scoreboard =
  fixes regs :: "'i \<Rightarrow> 'r multiset"
    and inflight :: "'s \<Rightarrow> 'r multiset"
    and issue :: "'i \<Rightarrow> 's \<Rightarrow> 's"
    and retire :: "'i \<Rightarrow> 's \<Rightarrow> 's"
    and busy :: "'s \<Rightarrow> 'r \<Rightarrow> bool"
    and invar :: "'s \<Rightarrow> bool"
  assumes invar_issue: "invar s \<Longrightarrow> invar (issue i s)"
    and invar_retire: "invar s \<Longrightarrow> invar (retire i s)"
    and inflight_issue: "invar s \<Longrightarrow> inflight (issue i s) = inflight s + regs i"
    and inflight_retire: "invar s \<Longrightarrow> inflight (retire i s) = inflight s - regs i"
    and busy_iff: "invar s \<Longrightarrow> busy s r \<longleftrightarrow> r \<in># inflight s"
begin

definition total :: "'i multiset \<Rightarrow> 'r multiset" where
  "total M = \<Sum>\<^sub># (image_mset regs M)"

lemma total_add_mset: "total (add_mset i M) = regs i + total M"
  by (simp add: total_def)

lemma total_union: "total (M + N) = total M + total N"
  by (simp add: total_def)

lemma issue_all:
  "invar s \<Longrightarrow> invar (fold issue is s) \<and> inflight (fold issue is s) = inflight s + total (mset is)"
  by (induction "is" arbitrary: s)
     (simp_all add: invar_issue inflight_issue total_add_mset total_def)

lemma retire_all:
  "invar s \<Longrightarrow> invar (fold retire is s) \<and> inflight (fold retire is s) = inflight s - total (mset is)"
  by (induction "is" arbitrary: s)
     (simp_all add: invar_retire inflight_retire total_add_mset total_def)

text \<open>Instructions retire in any order: what stays in flight are the registers of the others.\<close>

lemma retire_some:
  assumes "invar s" and "mset js \<subseteq># mset is"
  shows "inflight (fold retire js (fold issue is s)) = inflight s + total (mset is - mset js)"
proof -
  obtain M where M: "mset is = mset js + M"
    using assms(2) by (metis subset_mset.add_diff_inverse)
  have "inflight (fold retire js (fold issue is s)) = inflight s + total (mset is) - total (mset js)"
    using issue_all [OF assms(1)] retire_all by simp
  then show ?thesis
    by (simp add: M total_union)
qed

lemma busy_outstanding:
  assumes "invar s" and "mset js \<subseteq># mset is" and "inflight s = {#}"
  shows "busy (fold retire js (fold issue is s)) r \<longleftrightarrow> (\<exists>i \<in># mset is - mset js. r \<in># regs i)"
proof -
  have "invar (fold retire js (fold issue is s))"
    using issue_all [OF assms(1)] retire_all by blast
  then show ?thesis
    using retire_some [OF assms(1,2)] assms(3) by (simp add: busy_iff total_def)
qed

end

text \<open>The two interpretations: the read counters and the write counters of a context.\<close>

definition issue_pending :: "InstructionRunner \<Rightarrow> Context \<Rightarrow> Context" where
  "issue_pending run ctx = AddPendingRegisters ctx run"

definition retire_pending :: "InstructionRunner \<Rightarrow> Context \<Rightarrow> Context" where
  "retire_pending run ctx = DeletePendingRegisters ctx (ReadRegisters run) (WriteRegisters run)"

interpretation write_board: scoreboard "\<lambda>run. tracked (WriteRegisters run)"
  "\<lambda>ctx. in_flight (PendingWriteRegisters ctx)" issue_pending retire_pending
  "\<lambda>ctx. pending (PendingWriteRegisters ctx)" "\<lambda>ctx. counters_ok (PendingWriteRegisters ctx)"
  by unfold_locales
     (simp_all add: issue_pending_def retire_pending_def AddPendingRegisters_def
       DeletePendingRegisters_def fold_increment fold_decrement pending_iff)

interpretation read_board: scoreboard "\<lambda>run. tracked (ReadRegisters run)"
  "\<lambda>ctx. in_flight (PendingReadRegisters ctx)" issue_pending retire_pending
  "\<lambda>ctx. pending (PendingReadRegisters ctx)" "\<lambda>ctx. counters_ok (PendingReadRegisters ctx)"
  by unfold_locales
     (simp_all add: issue_pending_def retire_pending_def AddPendingRegisters_def
       DeletePendingRegisters_def fold_increment fold_decrement pending_iff)

section \<open>What the checks decide\<close>

lemma IsWriteDataHazard_iff:
  "IsWriteDataHazard ctx rs \<longleftrightarrow> (\<exists>r \<in> set rs. r \<noteq> Zero \<and> pending (PendingWriteRegisters ctx) r)"
  by (induction rs) auto

lemma readHazard_iff:
  "fst (readHazard ctx rs) \<longleftrightarrow> (\<exists>r \<in> set rs. r \<noteq> Zero \<and> pending (PendingWriteRegisters ctx) r)"
  by (induction rs) auto

lemma read_hazards_Nil:
  "read_hazards ctx r = [] \<longleftrightarrow> (r \<noteq> Zero \<longrightarrow> \<not> pending (PendingWriteRegisters ctx) r)"
  by (simp add: read_hazards_def)

lemma write_hazards_Nil:
  "write_hazards ctx r = [] \<longleftrightarrow>
     (r \<noteq> Zero \<longrightarrow> \<not> pending (PendingWriteRegisters ctx) r \<and> \<not> pending (PendingReadRegisters ctx) r)"
  by (simp add: write_hazards_def)

lemma hazard_kinds:
  "HazardKind ` set (read_hazards ctx r) \<subseteq> {ReadAfterWrite}"
  "HazardKind ` set (write_hazards ctx r) \<subseteq> {WriteAfterWrite, WriteAfterRead}"
  by (auto simp: read_hazards_def write_hazards_def)

lemma IsDataHazard3_raw:
  "ReadAfterWrite \<in> snd (IsDataHazard3 ctx run) \<longleftrightarrow>
     (\<exists>r \<in> set (ReadRegisters run). r \<noteq> Zero \<and> pending (PendingWriteRegisters ctx) r)"
proof -
  have "ReadAfterWrite \<in> snd (IsDataHazard3 ctx run) \<longleftrightarrow>
      (\<exists>r \<in> set (ReadRegisters run). ReadAfterWrite \<in> HazardKind ` set (read_hazards ctx r))
      \<or> (\<exists>r \<in> set (WriteRegisters run). ReadAfterWrite \<in> HazardKind ` set (write_hazards ctx r))"
    by (simp add: IsDataHazard3_def Let_def image_Un image_UN)
  moreover have "ReadAfterWrite \<in> HazardKind ` set (read_hazards ctx r) \<longleftrightarrow>
      r \<noteq> Zero \<and> pending (PendingWriteRegisters ctx) r" for r
    by (cases "pending (PendingWriteRegisters ctx) r") (simp_all add: read_hazards_def)
  moreover have "ReadAfterWrite \<notin> HazardKind ` set (write_hazards ctx r)" for r
    using hazard_kinds(2) [of ctx r] by blast
  ultimately show ?thesis
    by simp
qed

text \<open>The four checks agree on read-after-write hazards.\<close>

lemma read_checks_agree:
  "fst (IsDataHazard ctx run) = IsWriteDataHazard ctx (ReadRegisters run)"
  "fst (IsDataHazard2 ctx run) = IsWriteDataHazard ctx (ReadRegisters run)"
  "ReadAfterWrite \<in> snd (IsDataHazard3 ctx run) \<longleftrightarrow> IsWriteDataHazard ctx (ReadRegisters run)"
  by (auto simp: IsDataHazard_def readHazard_iff IsDataHazard2_def Let_def
      IsWriteDataHazard_iff filter_empty_conv IsDataHazard3_raw)

lemma IsDataHazard3_none:
  "fst (IsDataHazard3 ctx run) = [] \<longleftrightarrow>
     (\<forall>r \<in> set (ReadRegisters run). r \<noteq> Zero \<longrightarrow> \<not> pending (PendingWriteRegisters ctx) r)
     \<and> (\<forall>r \<in> set (WriteRegisters run). r \<noteq> Zero \<longrightarrow>
          \<not> pending (PendingWriteRegisters ctx) r \<and> \<not> pending (PendingReadRegisters ctx) r)"
  by (simp add: IsDataHazard3_def Let_def read_hazards_Nil write_hazards_Nil)

text \<open>The deletion of MVP-4 and MVP-5 leaves the counters positive and clears registers.\<close>

lemma deletePendingWrite_registers:
  "map_get (Registers (deletePendingWrite r ctx)) q =
     (if q = r \<and> map_get (Registers ctx) r <=s 0 then 0 else map_get (Registers ctx) q)"
  by (simp add: deletePendingWrite_def Let_def)

lemma DeletePendingWriteRegisters_registers:
  "map_get (Registers (DeletePendingWriteRegisters ctx rs)) q =
     (if q \<in> set rs \<and> map_get (Registers ctx) q <=s 0 then 0 else map_get (Registers ctx) q)"
  unfolding DeletePendingWriteRegisters_def
  by (induction rs arbitrary: ctx) (auto simp: deletePendingWrite_registers)

end
