(* ===== verification/Bus.thy ===== *)
theory Bus
  imports Prelude
begin

text \<open>
  \<open>src/proc/comp/bus.go\<close>: the two kinds of bus between the stages of the processors. The locale
  \<open>channel\<close> is the contract that the stages rely on (no element is lost, duplicated or reordered);
  it is interpreted on both buses.
\<close>

section \<open>SimpleBus\<close>

text \<open>An \<open>entry\<close> with its \<open>exists\<close> flag is an option.\<close>

record 'a SimpleBus =
  sb_pending :: "'a option"
  sb_current :: "'a option"

definition newSimpleBus :: "'a SimpleBus" where
  "newSimpleBus = \<lparr>sb_pending = None, sb_current = None\<rparr>"

definition SimpleBus_Flush :: "'a SimpleBus \<Rightarrow> 'a SimpleBus" where
  "SimpleBus_Flush b = b\<lparr>sb_pending := None, sb_current := None\<rparr>"

definition SimpleBus_Get :: "'a SimpleBus \<Rightarrow> 'a option \<times> 'a SimpleBus" where
  "SimpleBus_Get b = (sb_current b, b\<lparr>sb_current := sb_pending b, sb_pending := None\<rparr>)"

definition SimpleBus_CanAdd :: "'a SimpleBus \<Rightarrow> bool" where
  "SimpleBus_CanAdd b = (sb_pending b = None)"

definition SimpleBus_Add :: "'a SimpleBus \<Rightarrow> 'a \<Rightarrow> 'a SimpleBus" where
  "SimpleBus_Add b t = b\<lparr>sb_pending := Some t\<rparr>"

definition SimpleBus_IsEmpty :: "'a SimpleBus \<Rightarrow> bool" where
  "SimpleBus_IsEmpty b = (sb_pending b = None \<and> sb_current b = None)"

definition SimpleBus_Clean :: "'a SimpleBus \<Rightarrow> 'a SimpleBus" where
  "SimpleBus_Clean b = b\<lparr>sb_pending := None, sb_current := None\<rparr>"

lemmas SimpleBus_defs [go_defs] =
  newSimpleBus_def SimpleBus_Flush_def SimpleBus_Get_def SimpleBus_CanAdd_def SimpleBus_Add_def
  SimpleBus_IsEmpty_def SimpleBus_Clean_def

section \<open>BufferedBus\<close>

record 'a BufferEntry =
  availableFromCycle :: int
  entry_t :: 'a

record 'a BufferedBus =
  bb_buffer :: "'a BufferEntry list"
  bb_queue :: "'a list"
  queueLength :: nat
  bufferLength :: nat

definition NewBufferedBus :: "nat \<Rightarrow> nat \<Rightarrow> 'a BufferedBus" where
  "NewBufferedBus ql bl =
     \<lparr>bb_buffer = [], bb_queue = [], queueLength = ql, bufferLength = bl\<rparr>"

definition BufferedBus_InLength :: "'a BufferedBus \<Rightarrow> nat" where
  "BufferedBus_InLength b = queueLength b"

definition BufferedBus_OutLength :: "'a BufferedBus \<Rightarrow> nat" where
  "BufferedBus_OutLength b = bufferLength b"

definition BufferedBus_Clean :: "'a BufferedBus \<Rightarrow> 'a BufferedBus" where
  "BufferedBus_Clean b = b\<lparr>bb_buffer := [], bb_queue := []\<rparr>"

definition BufferedBus_Add :: "'a BufferedBus \<Rightarrow> 'a \<Rightarrow> int \<Rightarrow> 'a BufferedBus" where
  "BufferedBus_Add b t currentCycle =
     b\<lparr>bb_buffer := bb_buffer b @ [\<lparr>availableFromCycle = currentCycle + 1, entry_t = t\<rparr>]\<rparr>"

definition BufferedBus_Revert :: "'a BufferedBus \<Rightarrow> 'a \<Rightarrow> int \<Rightarrow> 'a BufferedBus" where
  "BufferedBus_Revert b t currentCycle =
     b\<lparr>bb_buffer := \<lparr>availableFromCycle = currentCycle, entry_t = t\<rparr> # bb_buffer b\<rparr>"

definition BufferedBus_DeleteLast :: "'a BufferedBus \<Rightarrow> 'a BufferedBus" where
  "BufferedBus_DeleteLast b =
     (if bb_buffer b = [] then b else b\<lparr>bb_buffer := butlast (bb_buffer b)\<rparr>)"

definition BufferedBus_Get :: "'a BufferedBus \<Rightarrow> 'a option \<times> 'a BufferedBus" where
  "BufferedBus_Get b =
     (case bb_queue b of [] \<Rightarrow> (None, b) | elem # rest \<Rightarrow> (Some elem, b\<lparr>bb_queue := rest\<rparr>))"

definition BufferedBus_CanGet :: "'a BufferedBus \<Rightarrow> bool" where
  "BufferedBus_CanGet b = (length (bb_queue b) \<noteq> 0)"

definition BufferedBus_CanAdd :: "'a BufferedBus \<Rightarrow> bool" where
  "BufferedBus_CanAdd b = (length (bb_buffer b) \<noteq> bufferLength b)"

definition BufferedBus_RemainingToAdd :: "'a BufferedBus \<Rightarrow> int" where
  "BufferedBus_RemainingToAdd b = int (bufferLength b) - int (length (bb_buffer b))"

definition BufferedBus_PendingRead :: "'a BufferedBus \<Rightarrow> nat" where
  "BufferedBus_PendingRead b = length (bb_queue b)"

definition BufferedBus_IsEmpty :: "'a BufferedBus \<Rightarrow> bool" where
  "BufferedBus_IsEmpty b = (length (bb_queue b) = 0 \<and> length (bb_buffer b) = 0)"

text \<open>The loop of \<open>Connect\<close>: the queue grown so far and the rest of the buffer.\<close>

fun connect_loop ::
    "int \<Rightarrow> nat \<Rightarrow> 'a BufferEntry list \<Rightarrow> 'a list \<Rightarrow> 'a list \<times> 'a BufferEntry list" where
  "connect_loop currentCycle n [] queue = (queue, [])"
| "connect_loop currentCycle n (e # es) queue =
     (if length queue = n then (queue, e # es)
      else if currentCycle < availableFromCycle e then (queue, e # es)
      else connect_loop currentCycle n es (queue @ [entry_t e]))"

definition BufferedBus_Connect :: "'a BufferedBus \<Rightarrow> int \<Rightarrow> 'a BufferedBus" where
  "BufferedBus_Connect b currentCycle =
     (if length (bb_queue b) = queueLength b then b
      else let (queue, buffer) =
             connect_loop currentCycle (queueLength b) (bb_buffer b) (bb_queue b)
           in b\<lparr>bb_queue := queue, bb_buffer := buffer\<rparr>)"

lemmas BufferedBus_defs [go_defs] =
  NewBufferedBus_def BufferedBus_InLength_def BufferedBus_OutLength_def BufferedBus_Clean_def
  BufferedBus_Add_def BufferedBus_Get_def BufferedBus_CanGet_def BufferedBus_CanAdd_def
  BufferedBus_RemainingToAdd_def BufferedBus_PendingRead_def BufferedBus_IsEmpty_def

section \<open>The contract of a bus\<close>

text \<open>What a stage does with a bus: offer an element (sent only where the bus can take it), let the
  bus move its elements at the start of a cycle, take an element.\<close>

datatype 'a bus_op = Offer 'a int | Move int | Take

text \<open>The elements that were accepted and the elements that came out, over a sequence of uses.\<close>

fun bus_run ::
    "('b \<Rightarrow> bool) \<Rightarrow> ('b \<Rightarrow> 'a \<Rightarrow> int \<Rightarrow> 'b) \<Rightarrow> ('b \<Rightarrow> int \<Rightarrow> 'b) \<Rightarrow> ('b \<Rightarrow> 'a option \<times> 'b) \<Rightarrow>
     'a bus_op list \<Rightarrow> 'b \<Rightarrow> 'a list \<times> 'a list \<times> 'b" where
  "bus_run can_add add move get [] b = ([], [], b)"
| "bus_run can_add add move get (Offer x c # ops) b =
     (if can_add b
      then (case bus_run can_add add move get ops (add b x c) of (i, out, b') \<Rightarrow> (x # i, out, b'))
      else bus_run can_add add move get ops b)"
| "bus_run can_add add move get (Move c # ops) b = bus_run can_add add move get ops (move b c)"
| "bus_run can_add add move get (Take # ops) b =
     (case get b of
        (None, b') \<Rightarrow> bus_run can_add add move get ops b'
      | (Some x, b') \<Rightarrow>
          (case bus_run can_add add move get ops b' of (i, out, b'') \<Rightarrow> (i, x # out, b'')))"

locale channel =
  fixes contents :: "'b \<Rightarrow> 'a list"
    and capacity :: "'b \<Rightarrow> nat"
    and can_add :: "'b \<Rightarrow> bool"
    and add :: "'b \<Rightarrow> 'a \<Rightarrow> int \<Rightarrow> 'b"
    and move :: "'b \<Rightarrow> int \<Rightarrow> 'b"
    and get :: "'b \<Rightarrow> 'a option \<times> 'b"
    and invar :: "'b \<Rightarrow> bool"
  assumes contents_add: "invar b \<Longrightarrow> can_add b \<Longrightarrow> contents (add b x c) = contents b @ [x]"
    and contents_move: "invar b \<Longrightarrow> contents (move b c) = contents b"
    and contents_get: "invar b \<Longrightarrow> get b = (r, b') \<Longrightarrow> contents b = (case r of None \<Rightarrow> [] | Some x \<Rightarrow> [x]) @ contents b'"
    and invar_add: "invar b \<Longrightarrow> can_add b \<Longrightarrow> invar (add b x c)"
    and invar_move: "invar b \<Longrightarrow> invar (move b c)"
    and invar_get: "invar b \<Longrightarrow> get b = (r, b') \<Longrightarrow> invar b'"
    and capacity_add: "capacity (add b x c) = capacity b"
    and capacity_move: "capacity (move b c) = capacity b"
    and capacity_get: "get b = (r, b') \<Longrightarrow> capacity b' = capacity b"
    and bounded: "invar b \<Longrightarrow> length (contents b) \<le> capacity b"
begin

text \<open>First in, first out: what came out, followed by what is still inside, is what was inside at
  first, followed by what went in.\<close>

lemma fifo:
  "invar b \<Longrightarrow> bus_run can_add add move get ops b = (i, out, b') \<Longrightarrow>
    invar b' \<and> capacity b' = capacity b \<and> out @ contents b' = contents b @ i"
proof (induction ops arbitrary: b i out b')
  case Nil
  then show ?case by simp
next
  case (Cons op ops)
  show ?case
  proof (cases op)
    case (Offer x c)
    show ?thesis
    proof (cases "can_add b")
      case True
      with Cons.prems Offer obtain i1
        where "bus_run can_add add move get ops (add b x c) = (i1, out, b')" and "i = x # i1"
        by (auto split: prod.splits)
      with True Cons.prems(1) Cons.IH [of "add b x c" i1 out b'] show ?thesis
        by (simp add: contents_add invar_add capacity_add)
    next
      case False
      with Cons.prems Offer Cons.IH [of b i out b'] show ?thesis by simp
    qed
  next
    case (Move c)
    with Cons.IH [of "move b c" i out b'] Cons.prems show ?thesis
      by (simp add: contents_move invar_move capacity_move)
  next
    case Take
    obtain r b1 where got: "get b = (r, b1)" by force
    note laws = contents_get [OF Cons.prems(1) got] invar_get [OF Cons.prems(1) got]
      capacity_get [OF got]
    show ?thesis
    proof (cases r)
      case None
      with Cons.IH [of b1 i out b'] Cons.prems Take got laws show ?thesis by simp
    next
      case (Some x)
      with Cons.prems Take got obtain out1
        where "bus_run can_add add move get ops b1 = (i, out1, b')" and "out = x # out1"
        by (auto split: prod.splits)
      with Some Cons.IH [of b1 i out1 b'] laws show ?thesis by simp
    qed
  qed
qed

text \<open>No more than the capacity is ever inside: the number of elements accepted but not yet taken
  is bounded.\<close>

lemma in_transit_bounded:
  assumes "invar b" and "contents b = []" and "bus_run can_add add move get ops b = (i, out, b')"
  shows "length i \<le> length out + capacity b"
proof -
  from fifo [OF assms(1,3)] have "invar b'" and "capacity b' = capacity b"
    and "out @ contents b' = i"
    using assms(2) by auto
  then show ?thesis
    using bounded [of b'] by (metis length_append nat_add_left_cancel_le)
qed

end

subsection \<open>SimpleBus keeps the contract\<close>

definition SimpleBus_contents :: "'a SimpleBus \<Rightarrow> 'a list" where
  "SimpleBus_contents b =
     (case sb_current b of None \<Rightarrow> [] | Some x \<Rightarrow> [x]) @
     (case sb_pending b of None \<Rightarrow> [] | Some x \<Rightarrow> [x])"

interpretation simple_bus: channel SimpleBus_contents "\<lambda>_. 2" SimpleBus_CanAdd
    "\<lambda>b x c. SimpleBus_Add b x" "\<lambda>b c. b" SimpleBus_Get "\<lambda>_. True"
  by unfold_locales (auto simp: SimpleBus_contents_def SimpleBus_defs split: option.splits)

subsection \<open>BufferedBus keeps the contract\<close>

definition BufferedBus_contents :: "'a BufferedBus \<Rightarrow> 'a list" where
  "BufferedBus_contents b = bb_queue b @ map entry_t (bb_buffer b)"

definition BufferedBus_ok :: "'a BufferedBus \<Rightarrow> bool" where
  "BufferedBus_ok b \<longleftrightarrow>
     length (bb_queue b) \<le> queueLength b \<and> length (bb_buffer b) \<le> bufferLength b"

text \<open>The loop moves the longest prefix of available entries that fits.\<close>

lemma connect_loop_eq:
  "length q \<le> n \<Longrightarrow>
    connect_loop c n es q =
      (let k = min (n - length q) (length (takeWhile (\<lambda>e. availableFromCycle e \<le> c) es))
       in (q @ map entry_t (take k es), drop k es))"
  by (induction c n es q rule: connect_loop.induct) (auto simp: Let_def min_def take_Cons' drop_Cons')

lemma BufferedBus_Connect_eq:
  assumes "length (bb_queue b) \<le> queueLength b"
  shows "BufferedBus_Connect b c =
    (let k = min (queueLength b - length (bb_queue b))
               (length (takeWhile (\<lambda>e. availableFromCycle e \<le> c) (bb_buffer b)))
     in b\<lparr>bb_queue := bb_queue b @ map entry_t (take k (bb_buffer b)),
          bb_buffer := drop k (bb_buffer b)\<rparr>)"
  using assms by (simp add: BufferedBus_Connect_def connect_loop_eq Let_def)

lemma BufferedBus_Connect_contents:
  "length (bb_queue b) \<le> queueLength b \<Longrightarrow>
    BufferedBus_contents (BufferedBus_Connect b c) = BufferedBus_contents b"
  by (simp add: BufferedBus_Connect_eq BufferedBus_contents_def Let_def flip: map_append)

interpretation buffered_bus: channel BufferedBus_contents
    "\<lambda>b. queueLength b + bufferLength b" BufferedBus_CanAdd BufferedBus_Add BufferedBus_Connect
    BufferedBus_Get BufferedBus_ok
proof
  show "BufferedBus_ok (BufferedBus_Connect b c)" if "BufferedBus_ok b" for b :: "'a BufferedBus" and c
    using that by (auto simp: BufferedBus_ok_def BufferedBus_Connect_eq Let_def)
  show "BufferedBus_contents (BufferedBus_Connect b c) = BufferedBus_contents b"
    if "BufferedBus_ok b" for b :: "'a BufferedBus" and c
    using that by (simp add: BufferedBus_ok_def BufferedBus_Connect_contents)
  show "queueLength (BufferedBus_Connect b c) + bufferLength (BufferedBus_Connect b c) =
      queueLength b + bufferLength b" for b :: "'a BufferedBus" and c
    by (simp add: BufferedBus_Connect_def split: prod.splits)
qed (auto simp: BufferedBus_contents_def BufferedBus_ok_def BufferedBus_defs split: list.splits)

end
