(* ===== verification/Queue.thy ===== *)
theory Queue
  imports Prelude
begin

text \<open>
  \<open>src/proc/comp/queue.go\<close>: the bounded queue that holds the instructions of the control unit. It
  wraps Go's doubly linked \<open>container/list\<close>. A list element is identified by a number (the
  pointer); the queue remembers the next unused one. The iterator is a goroutine that walks the
  list while the caller may remove the elements it has received: both run as the step relation
  \<open>iter_step\<close>, and \<open>iterator_snapshot\<close> shows that every interleaving delivers exactly the elements
  that the queue held when the iterator started.
\<close>

section \<open>Operations\<close>

type_synonym 'a element = "nat \<times> 'a"

record 'a Queue =
  q_list :: "'a element list"
  q_next :: nat
  q_length :: nat

definition NewQueue :: "nat \<Rightarrow> 'a Queue" where
  "NewQueue n = \<lparr>q_list = [], q_next = 0, q_length = n\<rparr>"

definition Queue_Push :: "'a Queue \<Rightarrow> 'a \<Rightarrow> 'a Queue" where
  "Queue_Push q v = q\<lparr>q_list := q_list q @ [(q_next q, v)], q_next := Suc (q_next q)\<rparr>"

definition Queue_Length :: "'a Queue \<Rightarrow> nat" where
  "Queue_Length q = length (q_list q)"

definition Queue_IsFull :: "'a Queue \<Rightarrow> bool" where
  "Queue_IsFull q = (q_length q \<le> length (q_list q))"

definition Queue_Value :: "'a element \<Rightarrow> 'a" where
  "Queue_Value e = snd e"

text \<open>\<open>list.Remove\<close> unlinks the element if it is still in the list.\<close>

definition Queue_Remove :: "'a Queue \<Rightarrow> 'a element \<Rightarrow> 'a Queue" where
  "Queue_Remove q e = q\<lparr>q_list := filter (\<lambda>x. fst x \<noteq> fst e) (q_list q)\<rparr>"

text \<open>The elements that the iterator delivers.\<close>

definition Queue_Iterator :: "'a Queue \<Rightarrow> 'a element list" where
  "Queue_Iterator q = q_list q"

lemmas Queue_defs [go_defs] =
  NewQueue_def Queue_Push_def Queue_Length_def Queue_IsFull_def Queue_Value_def Queue_Remove_def
  Queue_Iterator_def

section \<open>Well-formedness\<close>

definition Queue_ok :: "'a Queue \<Rightarrow> bool" where
  "Queue_ok q \<longleftrightarrow> distinct (map fst (q_list q)) \<and> (\<forall>e \<in> set (q_list q). fst e < q_next q)"

lemma Queue_ok_New [simp]: "Queue_ok (NewQueue n)"
  by (simp add: Queue_ok_def Queue_defs)

lemma Queue_ok_Push: "Queue_ok q \<Longrightarrow> Queue_ok (Queue_Push q v)"
  by (auto simp: Queue_ok_def Queue_defs less_Suc_eq)

lemma Queue_ok_Remove: "Queue_ok q \<Longrightarrow> Queue_ok (Queue_Remove q e)"
  by (auto simp: Queue_ok_def Queue_defs distinct_map_filter)

lemma Queue_values_Push: "map snd (q_list (Queue_Push q v)) = map snd (q_list q) @ [v]"
  by (simp add: Queue_defs)

lemma filter_unlink:
  assumes "distinct (map fst (xs @ e # ys))"
  shows "filter (\<lambda>x. fst x \<noteq> fst e) (xs @ e # ys) = xs @ ys"
proof -
  have "filter (\<lambda>x. fst x \<noteq> fst e) xs = xs" and "filter (\<lambda>x. fst x \<noteq> fst e) ys = ys"
    using assms by (auto simp: filter_id_conv rev_image_eqI)
  then show ?thesis by simp
qed

text \<open>Removing an element leaves the others in their order.\<close>

lemma Queue_Remove_split:
  assumes "Queue_ok q" and "q_list q = xs @ e # ys"
  shows "q_list (Queue_Remove q e) = xs @ ys"
  using assms filter_unlink [of xs e ys] by (simp add: Queue_ok_def Queue_Remove_def)

section \<open>The iterator as a goroutine\<close>

text \<open>\<open>e.Next()\<close>: \<open>None\<close> after the last element and for an element that is not in the list.\<close>

fun element_next :: "nat \<Rightarrow> 'a element list \<Rightarrow> 'a element option" where
  "element_next i [] = None"
| "element_next i (e # es) =
     (if fst e = i then (case es of [] \<Rightarrow> None | e' # _ \<Rightarrow> Some e') else element_next i es)"

record 'a iterating =
  it_queue :: "'a Queue"
  it_cursor :: "'a element option"
  it_channel :: "'a element list"
  it_received :: "'a element list"

definition iter_start :: "'a Queue \<Rightarrow> 'a iterating" where
  "iter_start q =
     \<lparr>it_queue = q, it_cursor = (case q_list q of [] \<Rightarrow> None | e # _ \<Rightarrow> Some e),
      it_channel = [], it_received = []\<rparr>"

text \<open>
  The goroutine sends the element under its cursor after advancing (the channel is buffered with
  room for all elements, so that the send does not block); the caller receives; the caller removes
  an element that it has received.
\<close>

inductive iter_step :: "'a iterating \<Rightarrow> 'a iterating \<Rightarrow> bool" where
  send: "it_cursor s = Some e \<Longrightarrow>
    iter_step s (s\<lparr>it_cursor := element_next (fst e) (q_list (it_queue s)),
      it_channel := it_channel s @ [e]\<rparr>)"
| receive: "it_channel s = e # rest \<Longrightarrow>
    iter_step s (s\<lparr>it_channel := rest, it_received := it_received s @ [e]\<rparr>)"
| remove: "e \<in> set (it_received s) \<Longrightarrow>
    iter_step s (s\<lparr>it_queue := Queue_Remove (it_queue s) e\<rparr>)"

text \<open>The part of the list that the cursor has not passed.\<close>

definition ahead :: "'a iterating \<Rightarrow> 'a element list" where
  "ahead s = (case it_cursor s of
     None \<Rightarrow> [] | Some e \<Rightarrow> dropWhile (\<lambda>x. fst x \<noteq> fst e) (q_list (it_queue s)))"

text \<open>
  The invariant: received, in transit and still ahead make up the snapshot, the cursor is in the
  list, and the list is some passed elements followed by those ahead.
\<close>

definition iter_ok :: "'a element list \<Rightarrow> 'a iterating \<Rightarrow> bool" where
  "iter_ok snapshot s \<longleftrightarrow>
     (\<exists>passed rest. q_list (it_queue s) = passed @ rest \<and>
        it_cursor s = (case rest of [] \<Rightarrow> None | e # _ \<Rightarrow> Some e) \<and>
        it_received s @ it_channel s @ rest = snapshot) \<and>
     Queue_ok (it_queue s) \<and> distinct (map fst snapshot)"

lemma iter_ok_start: "Queue_ok q \<Longrightarrow> iter_ok (q_list q) (iter_start q)"
  by (auto simp: iter_ok_def iter_start_def Queue_ok_def)

lemma element_next_split:
  "distinct (map fst (xs @ e # ys)) \<Longrightarrow>
    element_next (fst e) (xs @ e # ys) = (case ys of [] \<Rightarrow> None | e' # _ \<Rightarrow> Some e')"
  by (induction xs) auto

lemma iter_ok_step:
  assumes "iter_step s s'" and "iter_ok snapshot s"
  shows "iter_ok snapshot s'"
  using assms(1)
proof cases
  case (send e)
  from assms(2) send(2) obtain passed rest where
    split: "q_list (it_queue s) = passed @ e # rest"
      "it_received s @ it_channel s @ e # rest = snapshot"
    unfolding iter_ok_def by (metis (no_types, lifting) list.case(1) list.exhaust list.simps(5)
        option.distinct(1) option.inject)
  then have "q_list (it_queue s) = (passed @ [e]) @ rest" by simp
  moreover have "element_next (fst e) (q_list (it_queue s)) =
      (case rest of [] \<Rightarrow> None | e' # _ \<Rightarrow> Some e')"
    using assms(2) split(1) element_next_split [of passed e rest]
    by (simp add: iter_ok_def Queue_ok_def)
  ultimately show ?thesis
    using assms(2) send(1) split(2) unfolding iter_ok_def by auto
next
  case (receive e rest)
  with assms(2) show ?thesis by (auto simp: iter_ok_def)
next
  case (remove e)
  from assms(2) obtain passed rest where
    split: "q_list (it_queue s) = passed @ rest"
      "it_cursor s = (case rest of [] \<Rightarrow> None | e # _ \<Rightarrow> Some e)"
      "it_received s @ it_channel s @ rest = snapshot"
    and ok: "Queue_ok (it_queue s)" "distinct (map fst snapshot)"
    by (auto simp: iter_ok_def)
  have "fst x \<noteq> fst e" if "x \<in> set rest" for x
    using that remove(2) ok(2) split(3) by force
  then have "filter (\<lambda>x. fst x \<noteq> fst e) rest = rest" by (simp add: filter_id_conv)
  then have "q_list (it_queue s') = filter (\<lambda>x. fst x \<noteq> fst e) passed @ rest"
    using remove(1) split(1) by (simp add: Queue_Remove_def)
  with remove(1) split(2,3) ok Queue_ok_Remove [OF ok(1)] show ?thesis
    unfolding iter_ok_def by auto
qed

lemma iterator_snapshot_aux:
  assumes "Queue_ok q" and "iter_step\<^sup>*\<^sup>* (iter_start q) s" and "it_cursor s = None"
  shows "it_received s @ it_channel s = Queue_Iterator q"
proof -
  have "iter_ok (q_list q) s"
    using assms(2) by (induction rule: rtranclp_induct)
      (auto intro: iter_ok_step iter_ok_start [OF assms(1)])
  then obtain rest where "it_cursor s = (case rest of [] \<Rightarrow> None | e # _ \<Rightarrow> Some e)"
    and "it_received s @ it_channel s @ rest = q_list q"
    by (auto simp: iter_ok_def)
  with assms(3) show ?thesis
    by (cases rest) (simp_all add: Queue_Iterator_def)
qed

end
