(* ===== verification/Btb.thy ===== *)
theory Btb
  imports Prelude
begin

text \<open>
  The branch target buffer of MVP-5 and MVP-6 (\<open>src/proc/mvp5/btb.go\<close>, \<open>src/proc/mvp6-0/btb.go\<close>
  and \<open>src/proc/mvp6-1/btb.go\<close>, the same code): a bounded list of branch addresses with their
  targets, the oldest entry dropped first. The locale \<open>target_store\<close> is the contract that the
  branch units rely on: what a lookup returns is the last target that was recorded.
\<close>

section \<open>Operations\<close>

record btb_entry =
  entry_pc :: int32
  entry_pcDest :: int32

record branchTargetBuffer =
  btb_buffer :: "btb_entry list"
  btb_length :: nat

definition newBranchTargetBuffer :: "nat \<Rightarrow> branchTargetBuffer" where
  "newBranchTargetBuffer n = \<lparr>btb_buffer = [], btb_length = n\<rparr>"

text \<open>The loop of \<open>add\<close>: the first entry of the branch gets the new target; \<open>None\<close> when there is
  none.\<close>

fun btb_update :: "int32 \<Rightarrow> int32 \<Rightarrow> btb_entry list \<Rightarrow> btb_entry list option" where
  "btb_update pc pcDest [] = None"
| "btb_update pc pcDest (e # es) =
     (if entry_pc e = pc then Some (e\<lparr>entry_pcDest := pcDest\<rparr> # es)
      else map_option (\<lambda>es'. e # es') (btb_update pc pcDest es))"

text \<open>\<open>b.buffer[1:]\<close> of an empty buffer (a buffer of length 0) panics.\<close>

definition btb_add :: "branchTargetBuffer \<Rightarrow> int32 \<Rightarrow> int32 \<Rightarrow> branchTargetBuffer result" where
  "btb_add b pc pcDest =
     (case btb_update pc pcDest (btb_buffer b) of
        Some buffer \<Rightarrow> Inr (b\<lparr>btb_buffer := buffer\<rparr>)
      | None \<Rightarrow>
          let e = \<lparr>entry_pc = pc, entry_pcDest = pcDest\<rparr> in
          if length (btb_buffer b) \<noteq> btb_length b
          then Inr (b\<lparr>btb_buffer := btb_buffer b @ [e]\<rparr>)
          else if btb_buffer b = [] then Inl (Panic SliceOutOfRange)
          else Inr (b\<lparr>btb_buffer := tl (btb_buffer b) @ [e]\<rparr>))"

fun btb_lookup :: "int32 \<Rightarrow> btb_entry list \<Rightarrow> int32 option" where
  "btb_lookup pc [] = None"
| "btb_lookup pc (e # es) = (if entry_pc e = pc then Some (entry_pcDest e) else btb_lookup pc es)"

definition btb_get :: "branchTargetBuffer \<Rightarrow> int32 \<Rightarrow> int32 option" where
  "btb_get b pc = btb_lookup pc (btb_buffer b)"

section \<open>Well-formedness\<close>

definition btb_ok :: "branchTargetBuffer \<Rightarrow> bool" where
  "btb_ok b \<longleftrightarrow> distinct (map entry_pc (btb_buffer b)) \<and> length (btb_buffer b) \<le> btb_length b
     \<and> 0 < btb_length b"

lemma btb_lookup_None: "btb_lookup pc es = None \<longleftrightarrow> pc \<notin> entry_pc ` set es"
  by (induction es) auto

lemma btb_lookup_append:
  "btb_lookup pc (es @ fs) = (case btb_lookup pc es of None \<Rightarrow> btb_lookup pc fs | Some v \<Rightarrow> Some v)"
  by (induction es) auto

lemma btb_update_None: "btb_update pc d es = None \<longleftrightarrow> pc \<notin> entry_pc ` set es"
  by (induction es) auto

lemma btb_update_pcs: "btb_update pc d es = Some fs \<Longrightarrow> map entry_pc fs = map entry_pc es"
  by (induction es arbitrary: fs) (auto split: if_splits)

lemma btb_update_lookup:
  "btb_update pc d es = Some fs \<Longrightarrow> btb_lookup j fs = (if j = pc then Some d else btb_lookup j es)"
  by (induction es arbitrary: fs) (auto split: if_splits)

lemma btb_ok_new: "0 < n \<Longrightarrow> btb_ok (newBranchTargetBuffer n)"
  by (simp add: btb_ok_def newBranchTargetBuffer_def)

lemma btb_add_returns: "btb_ok b \<Longrightarrow> \<exists>b'. btb_add b pc d = Inr b'"
  by (auto simp: btb_add_def btb_ok_def Let_def split: option.splits)

lemma btb_lookup_tl:
  "distinct (map entry_pc es) \<Longrightarrow> btb_lookup pc (tl es) = Some d \<Longrightarrow> btb_lookup pc es = Some d"
proof (cases es)
  case (Cons e fs)
  assume "distinct (map entry_pc es)" and d: "btb_lookup pc (tl es) = Some d"
  with Cons btb_lookup_None [of pc fs] have "entry_pc e \<noteq> pc" by auto
  with Cons d show ?thesis by simp
qed simp

lemma btb_lookup_tl_None: "btb_lookup pc es = None \<Longrightarrow> btb_lookup pc (tl es) = None"
  by (cases es) (auto split: if_splits)

text \<open>An addition updates an entry, or appends a new one, possibly after dropping the first.\<close>

lemma btb_add_cases:
  assumes "btb_add b pc d = Inr b'"
  obtains
    (update) es where "btb_update pc d (btb_buffer b) = Some es" and "b' = b\<lparr>btb_buffer := es\<rparr>"
  | (append) "btb_lookup pc (btb_buffer b) = None" and "length (btb_buffer b) \<noteq> btb_length b"
      and "b' = b\<lparr>btb_buffer := btb_buffer b @ [\<lparr>entry_pc = pc, entry_pcDest = d\<rparr>]\<rparr>"
  | (rotate) "btb_lookup pc (btb_buffer b) = None" and "btb_buffer b \<noteq> []"
      and "length (btb_buffer b) = btb_length b"
      and "b' = b\<lparr>btb_buffer := tl (btb_buffer b) @ [\<lparr>entry_pc = pc, entry_pcDest = d\<rparr>]\<rparr>"
proof (cases "btb_update pc d (btb_buffer b)")
  case None
  then have "btb_lookup pc (btb_buffer b) = None"
    by (simp only: btb_update_None btb_lookup_None simp_thms)
  with None assms append rotate show thesis
    by (simp add: btb_add_def Let_def split: if_splits)
next
  case (Some es)
  with assms update show thesis by (simp add: btb_add_def)
qed

lemma btb_ok_add:
  assumes "btb_ok b" and "btb_add b pc d = Inr b'"
  shows "btb_ok b'"
  using assms(2)
proof (cases rule: btb_add_cases)
  case (update es)
  with assms(1) btb_update_pcs [OF update(1)] show ?thesis
    by (simp add: btb_ok_def) (metis length_map)
next
  case append
  with assms(1) show ?thesis by (simp add: btb_ok_def btb_lookup_None)
next
  case rotate
  then have "pc \<notin> entry_pc ` set (tl (btb_buffer b))"
    using btb_lookup_tl_None btb_lookup_None by metis
  moreover have "distinct (map entry_pc (tl (btb_buffer b)))"
    using assms(1) by (simp add: btb_ok_def map_tl distinct_tl)
  ultimately show ?thesis
    using rotate assms(1) by (simp add: btb_ok_def)
qed

lemma btb_get_add_same:
  assumes "btb_ok b" and "btb_add b pc d = Inr b'"
  shows "btb_get b' pc = Some d"
  using assms(2)
proof (cases rule: btb_add_cases)
  case (update es)
  then show ?thesis by (simp add: btb_get_def btb_update_lookup)
next
  case append
  then show ?thesis by (simp add: btb_get_def btb_lookup_append)
next
  case rotate
  then show ?thesis by (simp add: btb_get_def btb_lookup_append btb_lookup_tl_None)
qed

lemma btb_get_add_other:
  assumes "btb_ok b" and "btb_add b pc d = Inr b'" and "j \<noteq> pc" and "btb_get b' j = Some t"
  shows "btb_get b j = Some t"
  using assms(2)
proof (cases rule: btb_add_cases)
  case (update es)
  with assms(3,4) show ?thesis by (simp add: btb_get_def btb_update_lookup)
next
  case append
  with assms(3,4) show ?thesis
    by (simp add: btb_get_def btb_lookup_append split: option.splits)
next
  case rotate
  with assms show ?thesis
    by (simp add: btb_get_def btb_ok_def btb_lookup_append btb_lookup_tl split: option.splits)
qed

text \<open>A new branch is the last of the buffer, hence the last to be dropped.\<close>

lemma btb_add_last:
  assumes "btb_add b pc d = Inr b'" and "btb_get b pc = None"
  shows "last (btb_buffer b') = \<lparr>entry_pc = pc, entry_pcDest = d\<rparr>"
  using assms(1)
proof (cases rule: btb_add_cases)
  case (update es)
  moreover have "btb_update pc d (btb_buffer b) = None"
    using assms(2) by (simp add: btb_get_def btb_update_None btb_lookup_None)
  ultimately show ?thesis by simp
qed simp_all

section \<open>The contract of a target store\<close>

text \<open>A sequence of recorded targets.\<close>

fun record_all :: "('b \<Rightarrow> 'k \<Rightarrow> 'v \<Rightarrow> 'e + 'b) \<Rightarrow> ('k \<times> 'v) list \<Rightarrow> 'b \<Rightarrow> 'e + 'b" where
  "record_all add [] b = Inr b"
| "record_all add (kv # kvs) b = rbind (add b (fst kv) (snd kv)) (record_all add kvs)"

locale target_store =
  fixes add :: "'b \<Rightarrow> 'k \<Rightarrow> 'v \<Rightarrow> 'e + 'b"
    and get :: "'b \<Rightarrow> 'k \<Rightarrow> 'v option"
    and invar :: "'b \<Rightarrow> bool"
  assumes add_returns: "invar b \<Longrightarrow> \<exists>b'. add b k v = Inr b'"
    and invar_add: "invar b \<Longrightarrow> add b k v = Inr b' \<Longrightarrow> invar b'"
    and get_add_same: "invar b \<Longrightarrow> add b k v = Inr b' \<Longrightarrow> get b' k = Some v"
    and get_add_other: "invar b \<Longrightarrow> add b k v = Inr b' \<Longrightarrow> j \<noteq> k \<Longrightarrow> get b' j = Some w \<Longrightarrow>
      get b j = Some w"
begin

lemma record_all_returns: "invar b \<Longrightarrow> \<exists>b'. record_all add kvs b = Inr b' \<and> invar b'"
proof (induction kvs arbitrary: b)
  case Nil
  then show ?case by simp
next
  case (Cons kv kvs)
  from add_returns [OF Cons.prems] obtain b1 where "add b (fst kv) (snd kv) = Inr b1" by blast
  with Cons invar_add show ?case by simp
qed

text \<open>A prediction is the last target that the branch really took.\<close>

lemma prediction_is_last:
  assumes "invar b" and "\<And>k. get b k = None" and "record_all add kvs b = Inr b'"
    and "get b' k = Some v"
  shows "map_of (rev kvs) k = Some v"
proof -
  have "map_of (rev kvs) k = Some v \<or> (k \<notin> fst ` set kvs \<and> get b k = Some v)"
    using assms(1,3,4)
  proof (induction kvs arbitrary: b)
    case Nil
    then show ?case by simp
  next
    case (Cons kv kvs)
    then obtain b1 where b1: "add b (fst kv) (snd kv) = Inr b1" "record_all add kvs b1 = Inr b'"
      by auto
    from Cons.IH [OF invar_add [OF Cons.prems(1) b1(1)] b1(2) Cons.prems(3)] show ?case
    proof
      assume "map_of (rev kvs) k = Some v"
      then show ?thesis by (simp add: map_add_def)
    next
      assume later: "k \<notin> fst ` set kvs \<and> get b1 k = Some v"
      then have "map_of (rev kvs) k = None"
        by (simp add: map_of_eq_None_iff)
      with later get_add_same [OF Cons.prems(1) b1(1)] get_add_other [OF Cons.prems(1) b1(1), of k v]
      show ?thesis
        by (cases kv) (auto simp: map_add_def)
    qed
  qed
  with assms(2) show ?thesis by simp
qed

end

interpretation btb: target_store btb_add btb_get btb_ok
  by unfold_locales
    (auto intro: btb_add_returns btb_ok_add btb_get_add_same btb_get_add_other)

end
