(* ===== verification/Cache.thy ===== *)
theory Cache
  imports Prelude "HOL-Library.Multiset"
begin

text \<open>
  \<open>src/proc/comp/cache.go\<close>: the cache with least-recently-used replacement. A cache is the list of
  its lines, the most recently used first. A line's boundary is half open. \<open>covers\<close>, \<open>lines_value\<close>
  and \<open>touch\<close> are the abstract view: the byte that a lookup finds, and the reordering that it
  causes. The locale \<open>byte_cache\<close> is the contract that the memory management unit relies on.
\<close>

section \<open>Lines\<close>

record Line =
  boundary_from :: int32
  boundary_to :: int32
  Data :: "int8 list"

definition Line_get :: "Line \<Rightarrow> int32 \<Rightarrow> int8 option result" where
  "Line_get l addr =
     (if boundary_from l <=s addr \<and> addr <s boundary_to l
      then rbind (go_index (Data l) (sint (addr - boundary_from l))) (\<lambda>v. Inr (Some v))
      else Inr None)"

definition Line_set :: "Line \<Rightarrow> int32 \<Rightarrow> int8 \<Rightarrow> Line result" where
  "Line_set l addr value =
     rbind (go_store (Data l) (sint (addr - boundary_from l)) value)
       (\<lambda>d. Inr (l\<lparr>Data := d\<rparr>))"

section \<open>The cache\<close>

record LRUCache =
  numberOfLines :: nat
  lineLength :: nat
  cacheLength :: nat
  lines :: "Line list"

definition NewLRUCache :: "nat \<Rightarrow> nat \<Rightarrow> LRUCache result" where
  "NewLRUCache ll cl =
     (if ll = 0 then Inl (Panic IntegerDivide)
      else if cl mod ll \<noteq> 0 then Inl (Panic CacheLengthMismatch)
      else Inr \<lparr>numberOfLines = cl div ll, lineLength = ll, cacheLength = cl, lines = []\<rparr>)"

text \<open>The loop of \<open>Get\<close>: the lines before index \<open>i\<close> and those from \<open>i\<close> on.\<close>

fun get_loop :: "int32 \<Rightarrow> Line list \<Rightarrow> Line list \<Rightarrow> (int8 option \<times> Line list) result" where
  "get_loop addr before [] = Inr (None, before)"
| "get_loop addr before (l # after) =
     rbind (Line_get l addr) (\<lambda>r. case r of
         Some v \<Rightarrow> Inr (Some v, (l # before) @ after)
       | None \<Rightarrow> get_loop addr (before @ [l]) after)"

definition LRUCache_Get :: "LRUCache \<Rightarrow> int32 \<Rightarrow> (int8 option \<times> LRUCache) result" where
  "LRUCache_Get c addr =
     rbind (get_loop addr [] (lines c)) (\<lambda>(r, ls). Inr (r, c\<lparr>lines := ls\<rparr>))"

fun set_bytes :: "Line \<Rightarrow> int32 \<Rightarrow> int8 list \<Rightarrow> Line result" where
  "set_bytes l addr [] = Inr l"
| "set_bytes l addr (v # vs) = rbind (Line_set l addr v) (\<lambda>l'. set_bytes l' (addr + 1) vs)"

fun write_loop :: "int32 \<Rightarrow> int8 list \<Rightarrow> Line list \<Rightarrow> Line list result" where
  "write_loop addr data [] = Inl (Panic CacheLineMissing)"
| "write_loop addr data (l # ls) =
     rbind (Line_get l addr) (\<lambda>r. case r of
         Some _ \<Rightarrow> rbind (set_bytes l addr data) (\<lambda>l'. Inr (l' # ls))
       | None \<Rightarrow> rbind (write_loop addr data ls) (\<lambda>ls'. Inr (l # ls')))"

definition LRUCache_Write :: "LRUCache \<Rightarrow> int32 \<Rightarrow> int8 list \<Rightarrow> LRUCache result" where
  "LRUCache_Write c addr data =
     rbind (write_loop addr data (lines c)) (\<lambda>ls. Inr (c\<lparr>lines := ls\<rparr>))"

text \<open>The result is the slice that \<open>PushLine\<close> returns; \<open>nil\<close> is the empty list.\<close>

definition LRUCache_PushLine :: "LRUCache \<Rightarrow> int32 \<Rightarrow> int8 list \<Rightarrow> (int8 list \<times> LRUCache) result" where
  "LRUCache_PushLine c addr data =
     (let newLine = \<lparr>boundary_from = addr, boundary_to = addr + of_nat (lineLength c), Data = data\<rparr>;
          ls = newLine # lines c
      in if numberOfLines c < length ls
         then (let kept = take (numberOfLines c) ls in
               rbind (go_index kept (int (length kept) - 1))
                 (\<lambda>evicted. Inr (Data evicted, c\<lparr>lines := kept\<rparr>)))
         else Inr ([], c\<lparr>lines := ls\<rparr>))"

definition LRUCache_Lines :: "LRUCache \<Rightarrow> Line list" where
  "LRUCache_Lines c = lines c"

section \<open>The abstract view\<close>

definition covers :: "Line \<Rightarrow> int32 \<Rightarrow> bool" where
  "covers l addr \<longleftrightarrow> boundary_from l <=s addr \<and> addr <s boundary_to l"

definition line_byte :: "Line \<Rightarrow> int32 \<Rightarrow> int8" where
  "line_byte l addr = Data l ! nat (sint addr - sint (boundary_from l))"

fun lines_value :: "Line list \<Rightarrow> int32 \<Rightarrow> int8 option" where
  "lines_value [] addr = None"
| "lines_value (l # ls) addr =
     (if covers l addr then Some (line_byte l addr) else lines_value ls addr)"

definition touch :: "int32 \<Rightarrow> Line list \<Rightarrow> Line list" where
  "touch addr ls =
     (case dropWhile (\<lambda>l. \<not> covers l addr) ls of
        [] \<Rightarrow> ls
      | l # rest \<Rightarrow> l # takeWhile (\<lambda>l. \<not> covers l addr) ls @ rest)"

text \<open>
  The shape of a line: as many bytes as the line length, which is a signed 32-bit number. The
  upper boundary may have wrapped around, in which case the line covers nothing.
\<close>

definition line_shape :: "nat \<Rightarrow> Line \<Rightarrow> bool" where
  "line_shape n l \<longleftrightarrow> boundary_to l = boundary_from l + of_nat n \<and> length (Data l) = n
     \<and> n < 2 ^ 31"

definition cache_shape :: "LRUCache \<Rightarrow> bool" where
  "cache_shape c \<longleftrightarrow> list_all (line_shape (lineLength c)) (lines c)
     \<and> length (lines c) \<le> numberOfLines c \<and> 0 < numberOfLines c \<and> lineLength c < 2 ^ 31"

lemma covers_offset:
  assumes "line_shape n l" and "covers l addr"
  shows "sint (addr - boundary_from l) = sint addr - sint (boundary_from l)"
    and "0 \<le> sint addr - sint (boundary_from l)"
    and "sint addr - sint (boundary_from l) < int n"
    and "sint (boundary_to l) = sint (boundary_from l) + int n"
proof -
  let ?f = "sint (boundary_from l)" and ?a = "sint addr"
  from assms have order: "?f \<le> ?a" "?a < sint (boundary_from l + of_nat n)" and n: "n < 2 ^ 31"
    by (simp_all add: covers_def line_shape_def word_sle_eq word_sless_alt)
  note range = sint32_range [of "boundary_from l"] sint32_range [of addr]
  have "?f + int n < 2 ^ 31"
  proof (rule ccontr)
    assume "\<not> ?f + int n < 2 ^ 31"
    then have "sint (boundary_from l + of_nat n) = ?f + int n - 2 ^ 32"
      using sint32_add_over [of "boundary_from l" "of_nat n"] n by (simp add: sint32_of_nat)
    with order n show False by simp
  qed
  then have top: "sint (boundary_from l + of_nat n) = ?f + int n"
    using sint32_add_exact [of "boundary_from l" "of_nat n"] n range by (simp add: sint32_of_nat)
  then show "sint (boundary_to l) = ?f + int n"
    using assms(1) by (simp add: line_shape_def)
  show "0 \<le> ?a - ?f" and "?a - ?f < int n"
    using order top by simp_all
  then show "sint (addr - boundary_from l) = ?a - ?f"
    using n by (simp add: sint32_diff)
qed

lemma Line_get_eq:
  assumes "line_shape n l"
  shows "Line_get l addr = Inr (if covers l addr then Some (line_byte l addr) else None)"
proof (cases "covers l addr")
  case True
  have "length (Data l) = n" using assms by (simp add: line_shape_def)
  with covers_offset [OF assms True] True show ?thesis
    by (simp add: Line_get_def covers_def line_byte_def go_index_def)
next
  case False
  then show ?thesis by (auto simp: Line_get_def covers_def)
qed

section \<open>Get\<close>

lemma get_loop_eq:
  assumes "list_all (line_shape n) ls"
  shows "get_loop addr before ls = Inr (lines_value ls addr,
    (case dropWhile (\<lambda>l. \<not> covers l addr) ls of
        [] \<Rightarrow> before @ ls
      | l # rest \<Rightarrow> l # before @ takeWhile (\<lambda>l. \<not> covers l addr) ls @ rest))"
  using assms
proof (induction ls arbitrary: before)
  case Nil
  then show ?case by simp
next
  case (Cons l ls)
  then have get: "Line_get l addr = Inr (if covers l addr then Some (line_byte l addr) else None)"
    using Line_get_eq [of n l addr] by simp
  show ?case
    using Cons by (cases "covers l addr"; cases "dropWhile (\<lambda>l. \<not> covers l addr) ls")
      (simp_all add: get del: dropWhile_eq_Nil_conv)
qed

lemma LRUCache_Get_eq:
  assumes "cache_shape c"
  shows "LRUCache_Get c addr =
    Inr (lines_value (lines c) addr, c\<lparr>lines := touch addr (lines c)\<rparr>)"
proof -
  have "list_all (line_shape (lineLength c)) (lines c)"
    using assms by (simp add: cache_shape_def)
  from get_loop_eq [OF this] show ?thesis
    by (simp add: LRUCache_Get_def touch_def del: dropWhile_eq_Nil_conv split: list.split)
qed

text \<open>\<open>touch\<close> moves one line to the front, if any covers the address.\<close>

lemma touch_cases:
  obtains (miss) "touch addr ls = ls" and "lines_value ls addr = None"
  | (hit) xs l ys where "ls = xs @ l # ys" and "touch addr ls = l # xs @ ys" and "covers l addr"
      and "lines_value ls addr = Some (line_byte l addr)" and "\<forall>x \<in> set xs. \<not> covers x addr"
proof (cases "dropWhile (\<lambda>l. \<not> covers l addr) ls")
  case Nil
  then have "\<forall>l \<in> set ls. \<not> covers l addr" by (simp add: dropWhile_eq_Nil_conv)
  then have "lines_value ls addr = None" by (induction ls) auto
  with Nil show thesis by (intro miss) (simp_all only: touch_def list.case)
next
  case (Cons l ys)
  let ?xs = "takeWhile (\<lambda>l. \<not> covers l addr) ls"
  have ls: "ls = ?xs @ l # ys"
    using Cons takeWhile_dropWhile_id by metis
  have l: "covers l addr"
    using Cons hd_dropWhile [of "\<lambda>l. \<not> covers l addr" ls] by simp
  have xs: "\<forall>x \<in> set ?xs. \<not> covers x addr"
    by (auto dest: set_takeWhileD)
  have "lines_value (zs @ l # ys) addr = Some (line_byte l addr)"
    if "\<forall>x \<in> set zs. \<not> covers x addr" for zs
    using that l by (induction zs) auto
  from hit [OF ls _ l this [OF xs, folded ls] xs] Cons show thesis by (simp add: touch_def)
qed

lemma mset_touch: "mset (touch addr ls) = mset ls"
  by (cases rule: touch_cases [of addr ls]) auto

lemma length_touch [simp]: "length (touch addr ls) = length ls"
  using mset_touch mset_eq_length by metis

lemma set_touch [simp]: "set (touch addr ls) = set ls"
  using mset_touch mset_eq_setD by metis

lemma cache_shape_touch: "cache_shape c \<Longrightarrow> cache_shape (c\<lparr>lines := touch addr (lines c)\<rparr>)"
  by (simp add: cache_shape_def list_all_iff)

section \<open>Disjoint lines\<close>

text \<open>A cache of a memory: its lines do not overlap and start at memory addresses.\<close>

definition disjoint_from :: "Line \<Rightarrow> Line \<Rightarrow> bool" where
  "disjoint_from l l' \<longleftrightarrow> boundary_to l <=s boundary_from l' \<or> boundary_to l' <=s boundary_from l"

definition disjoint_lines :: "Line list \<Rightarrow> bool" where
  "disjoint_lines ls = sorted_wrt disjoint_from ls"

definition line_placed :: "nat \<Rightarrow> Line \<Rightarrow> bool" where
  "line_placed n l \<longleftrightarrow>
     0 \<le> sint (boundary_from l) \<and> sint (boundary_from l) + int n < 2 ^ 31"

definition cache_ok :: "LRUCache \<Rightarrow> bool" where
  "cache_ok c \<longleftrightarrow> cache_shape c \<and> disjoint_lines (lines c)
     \<and> list_all (line_placed (lineLength c)) (lines c)"

lemma disjoint_from_sym: "disjoint_from l l' \<longleftrightarrow> disjoint_from l' l"
  by (auto simp: disjoint_from_def)

lemma covers_disjoint: "disjoint_from l l' \<Longrightarrow> covers l addr \<Longrightarrow> \<not> covers l' addr"
  by (auto simp: disjoint_from_def covers_def word_sle_eq word_sless_alt)

lemma lines_value_None: "lines_value ls addr = None \<longleftrightarrow> (\<forall>l \<in> set ls. \<not> covers l addr)"
  by (induction ls) auto

lemma lines_value_Some:
  "disjoint_lines ls \<Longrightarrow>
    lines_value ls addr = Some v \<longleftrightarrow> (\<exists>l \<in> set ls. covers l addr \<and> v = line_byte l addr)"
  by (induction ls) (auto simp: disjoint_lines_def dest: covers_disjoint)

text \<open>The order of disjoint lines does not matter to the view.\<close>

lemma lines_value_set:
  assumes "disjoint_lines ls" and "disjoint_lines ls'" and "set ls = set ls'"
  shows "lines_value ls = lines_value ls'"
proof
  fix addr
  have "lines_value ls addr = Some v \<longleftrightarrow> lines_value ls' addr = Some v" for v
    using assms by (simp add: lines_value_Some)
  then show "lines_value ls addr = lines_value ls' addr"
    by (metis not_Some_eq)
qed

lemma disjoint_lines_touch: "disjoint_lines ls \<Longrightarrow> disjoint_lines (touch addr ls)"
  by (cases rule: touch_cases [of addr ls])
    (auto simp: disjoint_lines_def sorted_wrt_append disjoint_from_sym)

lemma lines_value_touch:
  "disjoint_lines ls \<Longrightarrow> lines_value (touch addr ls) = lines_value ls"
  by (rule lines_value_set) (simp_all add: disjoint_lines_touch)

section \<open>Write\<close>

text \<open>A view with the bytes \<open>data\<close> at \<open>addr\<close> and after.\<close>

definition overlay :: "int32 \<Rightarrow> int8 list \<Rightarrow> (int32 \<Rightarrow> int8 option) \<Rightarrow> int32 \<Rightarrow> int8 option" where
  "overlay addr data f x =
     (if sint addr \<le> sint x \<and> sint x < sint addr + int (length data)
      then Some (data ! nat (sint x - sint addr)) else f x)"

definition within :: "Line \<Rightarrow> int32 \<Rightarrow> nat \<Rightarrow> bool" where
  "within l addr k \<longleftrightarrow> covers l addr \<and> sint addr + int k \<le> sint (boundary_to l)"

lemma set_bytes_result:
  assumes "line_shape n l" and "covers l addr \<or> data = []"
    and "data \<noteq> [] \<longrightarrow> sint addr + int (length data) \<le> sint (boundary_to l)"
  shows "\<exists>l'. set_bytes l addr data = Inr l' \<and> line_shape n l' \<and>
    boundary_from l' = boundary_from l \<and> boundary_to l' = boundary_to l \<and>
    (\<forall>x. covers l x \<longrightarrow> Some (line_byte l' x) = overlay addr data (\<lambda>x. Some (line_byte l x)) x)"
  using assms
proof (induction data arbitrary: l addr)
  case Nil
  then show ?case by (auto simp: overlay_def)
next
  case (Cons v vs)
  from Cons.prems have addr: "covers l addr" by simp
  note off = covers_offset [OF Cons.prems(1) addr]
  let ?i = "nat (sint addr - sint (boundary_from l))"
  let ?l = "l\<lparr>Data := (Data l)[?i := v]\<rparr>"
  have len: "length (Data l) = n" using Cons.prems(1) by (simp add: line_shape_def)
  have set: "Line_set l addr v = Inr ?l"
    using off len by (simp add: Line_set_def)
  have shape: "line_shape n ?l" using Cons.prems(1) by (simp add: line_shape_def)
  have next_addr: "sint (addr + 1) = sint addr + 1" if "vs \<noteq> []"
    using that Cons.prems(3) sint32_range [of "boundary_to l"] sint32_range [of addr]
      sint32_add_exact [of addr 1] by (cases vs) simp_all
  have "covers ?l (addr + 1) \<or> vs = []"
    using next_addr addr Cons.prems(3)
    by (cases vs) (simp_all add: covers_def word_sle_eq word_sless_alt)
  moreover have "vs \<noteq> [] \<longrightarrow> sint (addr + 1) + int (length vs) \<le> sint (boundary_to ?l)"
    using next_addr Cons.prems(3) by simp
  ultimately obtain l' where l': "set_bytes ?l (addr + 1) vs = Inr l'" "line_shape n l'"
    "boundary_from l' = boundary_from l" "boundary_to l' = boundary_to l"
    "\<forall>x. covers l x \<longrightarrow>
      Some (line_byte l' x) = overlay (addr + 1) vs (\<lambda>x. Some (line_byte ?l x)) x"
    using Cons.IH [OF shape] by (auto simp: covers_def)
  have "Some (line_byte l' x) = overlay addr (v # vs) (\<lambda>x. Some (line_byte l x)) x"
    if x: "covers l x" for x
  proof -
    note offx = covers_offset [OF Cons.prems(1) x]
    have first: "line_byte ?l x = (if sint x = sint addr then v else line_byte l x)"
      using off offx len by (auto simp: line_byte_def nth_list_update nat_eq_iff)
    show ?thesis
    proof (cases "vs = []")
      case True
      with l'(5) x first show ?thesis by (auto simp: overlay_def)
    next
      case False
      have "nat (sint x - (sint addr + 1)) = nat (sint x - sint addr) - 1" by arith
      with False l'(5) x first next_addr show ?thesis
        by (auto simp: overlay_def nth_Cons')
    qed
  qed
  with l' set show ?case by auto
qed

lemma write_loop_split:
  assumes "list_all (line_shape n) (xs @ l # ys)" and "\<forall>x \<in> set xs. \<not> covers x addr"
    and "covers l addr" and "set_bytes l addr data = Inr l'"
  shows "write_loop addr data (xs @ l # ys) = Inr (xs @ l' # ys)"
  using assms by (induction xs) (auto simp: Line_get_eq)

lemma disjoint_lines_replace:
  assumes "disjoint_lines (xs @ l # ys)"
    and "boundary_from l' = boundary_from l" and "boundary_to l' = boundary_to l"
  shows "disjoint_lines (xs @ l' # ys)"
  using assms by (simp add: disjoint_lines_def sorted_wrt_append disjoint_from_def)

text \<open>The lines that the store \<open>data\<close> at \<open>addr\<close> stays within.\<close>

definition cache_within :: "LRUCache \<Rightarrow> int32 \<Rightarrow> nat \<Rightarrow> bool" where
  "cache_within c addr k \<longleftrightarrow> list_ex (\<lambda>l. within l addr k) (lines c)"

lemma cache_within_cached:
  assumes "cache_within c addr k" and "sint addr \<le> sint x" and "sint x < sint addr + int k"
  shows "lines_value (lines c) x \<noteq> None"
  using assms by (auto simp: cache_within_def list_ex_iff within_def lines_value_None covers_def
      word_sle_eq word_sless_alt intro!: bexI)

lemma LRUCache_Write_result:
  assumes "cache_ok c" and "cache_within c addr (length data)"
  shows "\<exists>c'. LRUCache_Write c addr data = Inr c' \<and> cache_ok c' \<and> lineLength c' = lineLength c
    \<and> lines_value (lines c') = overlay addr data (lines_value (lines c))"
proof -
  from assms(2) obtain l where l: "l \<in> set (lines c)" "covers l addr"
    "sint addr + int (length data) \<le> sint (boundary_to l)"
    by (auto simp: cache_within_def list_ex_iff within_def)
  from l(1) obtain xs ys where ls: "lines c = xs @ l # ys"
    by (meson split_list)
  from assms(1) have disj: "disjoint_lines (xs @ l # ys)"
    and shapes: "list_all (line_shape (lineLength c)) (xs @ l # ys)"
    by (simp_all add: cache_ok_def cache_shape_def ls)
  then have "line_shape (lineLength c) l" by simp
  from set_bytes_result [OF this] l(2,3) obtain l' where
    l': "set_bytes l addr data = Inr l'" "line_shape (lineLength c) l'"
      "boundary_from l' = boundary_from l" "boundary_to l' = boundary_to l"
      "\<And>x. covers l x \<Longrightarrow> Some (line_byte l' x) = overlay addr data (\<lambda>x. Some (line_byte l x)) x"
    by blast
  have "\<forall>x \<in> set xs. \<not> covers x addr"
    using disj l(2) by (auto simp: disjoint_lines_def sorted_wrt_append dest: covers_disjoint)
  from write_loop_split [OF shapes this l(2) l'(1)]
  have written: "LRUCache_Write c addr data = Inr (c\<lparr>lines := xs @ l' # ys\<rparr>)"
    by (simp add: LRUCache_Write_def ls)
  have disj': "disjoint_lines (xs @ l' # ys)"
    using disjoint_lines_replace [OF disj l'(3,4)] .
  have same: "covers l' x = covers l x" for x
    using l'(3,4) by (simp add: covers_def)
  have in_line: "covers l x" if "sint addr \<le> sint x" "sint x < sint addr + int (length data)" for x
    using that l(2,3) by (simp add: covers_def word_sle_eq word_sless_alt)
  have "lines_value (xs @ l' # ys) x = overlay addr data (lines_value (xs @ l # ys)) x" for x
  proof (cases "covers l x")
    case True
    have "lines_value (xs @ l' # ys) x = Some (line_byte l' x)"
      using lines_value_Some [OF disj'] True same by auto
    moreover have "lines_value (xs @ l # ys) x = Some (line_byte l x)"
      using lines_value_Some [OF disj] True by auto
    ultimately show ?thesis
      using l'(5) [OF True] by (simp add: overlay_def split: if_splits)
  next
    case False
    then have "lines_value (zs @ l' # ys) x = lines_value (zs @ l # ys) x" for zs
      using same by (induction zs) auto
    with False in_line show ?thesis by (auto simp: overlay_def)
  qed
  then have "lines_value (xs @ l' # ys) = overlay addr data (lines_value (lines c))"
    by (auto simp: ls)
  moreover have "cache_ok (c\<lparr>lines := xs @ l' # ys\<rparr>)"
    using assms(1) disj' shapes l'(2,3)
    by (simp add: cache_ok_def cache_shape_def line_placed_def ls)
  ultimately show ?thesis
    using written by auto
qed

section \<open>PushLine\<close>

text \<open>Room for a line at \<open>addr\<close>: a free slot, and no overlap with the lines present.\<close>

definition new_line :: "LRUCache \<Rightarrow> int32 \<Rightarrow> int8 list \<Rightarrow> Line" where
  "new_line c addr data =
     \<lparr>boundary_from = addr, boundary_to = addr + of_nat (lineLength c), Data = data\<rparr>"

definition cache_room :: "LRUCache \<Rightarrow> int32 \<Rightarrow> bool" where
  "cache_room c addr \<longleftrightarrow> length (lines c) < numberOfLines c \<and> 0 \<le> sint addr
     \<and> sint addr + int (lineLength c) < 2 ^ 31
     \<and> list_all (disjoint_from (new_line c addr [])) (lines c)"

lemma PushLine_room:
  "length (lines c) < numberOfLines c \<Longrightarrow>
    LRUCache_PushLine c addr data = Inr ([], c\<lparr>lines := new_line c addr data # lines c\<rparr>)"
  by (simp add: LRUCache_PushLine_def new_line_def Let_def)

lemma PushLine_full:
  assumes "length (lines c) = numberOfLines c" and "0 < numberOfLines c"
  shows "LRUCache_PushLine c addr data =
    Inr (Data (last (new_line c addr data # butlast (lines c))),
         c\<lparr>lines := new_line c addr data # butlast (lines c)\<rparr>)"
proof -
  let ?ls = "new_line c addr data # lines c"
  let ?kept = "new_line c addr data # butlast (lines c)"
  have kept: "take (numberOfLines c) ?ls = ?kept"
    using assms by (cases "numberOfLines c") (auto simp: butlast_conv_take)
  have "length ?kept = numberOfLines c"
    using assms by simp
  then have "?kept ! (numberOfLines c - 1) = last ?kept"
    using last_conv_nth [of ?kept] by simp
  then have "go_index ?kept (int (length ?kept) - 1) = Inr (last ?kept)"
    using assms by (simp add: nat_diff_distrib)
  moreover have "LRUCache_PushLine c addr data =
      rbind (go_index ?kept (int (length ?kept) - 1))
        (\<lambda>evicted. Inr (Data evicted, c\<lparr>lines := ?kept\<rparr>))"
    using assms(1) kept by (simp only: LRUCache_PushLine_def Let_def flip: new_line_def) simp
  ultimately show ?thesis by simp
qed

lemma cache_shape_PushLine:
  assumes "cache_shape c" and "length data = lineLength c"
  shows "\<exists>ev ls. LRUCache_PushLine c addr data = Inr (ev, c\<lparr>lines := ls\<rparr>)
    \<and> cache_shape (c\<lparr>lines := ls\<rparr>) \<and> set ls \<subseteq> insert (new_line c addr data) (set (lines c))
    \<and> ls \<noteq> []"
proof -
  have new: "line_shape (lineLength c) (new_line c addr data)"
    using assms by (simp add: line_shape_def new_line_def cache_shape_def)
  show ?thesis
  proof (cases "length (lines c) < numberOfLines c")
    case True
    with assms new show ?thesis
      using PushLine_room [OF True, of addr data]
      by - (rule exI [of _ "[]"], rule exI [of _ "new_line c addr data # lines c"],
        auto simp: cache_shape_def)
  next
    case False
    with assms(1) have full: "length (lines c) = numberOfLines c" "0 < numberOfLines c"
      by (auto simp: cache_shape_def)
    have "list_all (line_shape (lineLength c)) (butlast (lines c))"
      using assms(1) by (auto simp: cache_shape_def list_all_iff dest: in_set_butlastD)
    then show ?thesis
      using PushLine_full [OF full, of addr data] new full assms(1)
      by (intro exI [of _ "Data (last (new_line c addr data # butlast (lines c)))"]
            exI [of _ "new_line c addr data # butlast (lines c)"])
        (auto simp: cache_shape_def dest: in_set_butlastD)
  qed
qed

lemma cache_ok_touch: "cache_ok c \<Longrightarrow> cache_ok (c\<lparr>lines := touch addr (lines c)\<rparr>)"
  by (simp add: cache_ok_def cache_shape_touch disjoint_lines_touch list_all_iff)

lemma new_line_byte:
  assumes "length data = lineLength c" and "sint addr + int (lineLength c) < 2 ^ 31"
    and "lineLength c < 2 ^ 31"
  shows "covers (new_line c addr data) x \<longleftrightarrow>
      sint addr \<le> sint x \<and> sint x < sint addr + int (length data)"
    and "line_byte (new_line c addr data) x = data ! nat (sint x - sint addr)"
proof -
  have "sint (addr + of_nat (lineLength c)) = sint addr + int (lineLength c)"
    using assms(2,3) sint32_range [of addr]
    by (simp add: sint32_add_exact sint32_of_nat)
  then show "covers (new_line c addr data) x \<longleftrightarrow>
      sint addr \<le> sint x \<and> sint x < sint addr + int (length data)"
    using assms(1) by (simp add: covers_def new_line_def word_sle_eq word_sless_alt)
  show "line_byte (new_line c addr data) x = data ! nat (sint x - sint addr)"
    by (simp add: line_byte_def new_line_def)
qed

lemma LRUCache_PushLine_result:
  assumes "cache_ok c" and "cache_room c addr" and "length data = lineLength c"
  shows "\<exists>c'. LRUCache_PushLine c addr data = Inr ([], c') \<and> cache_ok c'
    \<and> lineLength c' = lineLength c
    \<and> lines_value (lines c') = overlay addr data (lines_value (lines c))"
proof -
  let ?l = "new_line c addr data" and ?c = "c\<lparr>lines := new_line c addr data # lines c\<rparr>"
  from assms(2) have room: "length (lines c) < numberOfLines c" "0 \<le> sint addr"
    "sint addr + int (lineLength c) < 2 ^ 31" "list_all (disjoint_from ?l) (lines c)"
    by (simp_all add: cache_room_def new_line_def disjoint_from_def [abs_def])
  from assms(1) have small: "lineLength c < 2 ^ 31"
    by (simp add: cache_ok_def cache_shape_def)
  have "line_shape (lineLength c) ?l"
    using assms(3) small by (simp add: line_shape_def new_line_def)
  then have "cache_ok ?c"
    using assms(1) room
    by (simp add: cache_ok_def cache_shape_def disjoint_lines_def list_all_iff new_line_def
        line_placed_def)
  moreover have "lines_value (lines ?c) = overlay addr data (lines_value (lines c))"
    using new_line_byte [OF assms(3) room(3) small] by (auto simp: overlay_def)
  ultimately show ?thesis
    using PushLine_room [OF room(1), of addr data] by auto
qed

section \<open>The contract of a byte cache\<close>

text \<open>
  A run of lookups, as \<open>getFromL1I\<close> and \<open>getFromL1D\<close> of the memory management unit make them: it
  stops at the first miss.
\<close>

fun get_each :: "('c \<Rightarrow> int32 \<Rightarrow> (int8 option \<times> 'c) result) \<Rightarrow> int32 list \<Rightarrow> 'c \<Rightarrow>
    (int8 list option \<times> 'c) result" where
  "get_each get [] c = Inr (Some [], c)"
| "get_each get (a # as) c = rbind (get c a) (\<lambda>(r, c'). case r of
       None \<Rightarrow> Inr (None, c')
     | Some v \<Rightarrow> rbind (get_each get as c') (\<lambda>(vs, c''). Inr (map_option ((#) v) vs, c'')))"

text \<open>
  \<open>view\<close> is the byte that the cache holds for an address. A lookup returns it and does not change
  it; a write inside a line and a push into free room overlay it.
\<close>

locale byte_cache =
  fixes view :: "'c \<Rightarrow> int32 \<Rightarrow> int8 option"
    and len :: "'c \<Rightarrow> nat"
    and inside :: "'c \<Rightarrow> int32 \<Rightarrow> nat \<Rightarrow> bool"
    and room :: "'c \<Rightarrow> int32 \<Rightarrow> bool"
    and get :: "'c \<Rightarrow> int32 \<Rightarrow> (int8 option \<times> 'c) result"
    and put :: "'c \<Rightarrow> int32 \<Rightarrow> int8 list \<Rightarrow> 'c result"
    and push :: "'c \<Rightarrow> int32 \<Rightarrow> int8 list \<Rightarrow> (int8 list \<times> 'c) result"
    and invar :: "'c \<Rightarrow> bool"
  assumes get_law: "invar c \<Longrightarrow>
      \<exists>c'. get c a = Inr (view c a, c') \<and> invar c' \<and> len c' = len c \<and> view c' = view c
        \<and> inside c' = inside c \<and> room c' = room c"
    and put_law: "invar c \<Longrightarrow> inside c a (length d) \<Longrightarrow>
      \<exists>c'. put c a d = Inr c' \<and> invar c' \<and> len c' = len c \<and> view c' = overlay a d (view c)"
    and push_law: "invar c \<Longrightarrow> room c a \<Longrightarrow> length d = len c \<Longrightarrow>
      \<exists>c'. push c a d = Inr ([], c') \<and> invar c' \<and> len c' = len c \<and> view c' = overlay a d (view c)"
begin

lemma get_each_law:
  "invar c \<Longrightarrow>
    \<exists>c'. get_each get as c = Inr (those (map (view c) as), c') \<and> invar c' \<and> len c' = len c
      \<and> view c' = view c \<and> inside c' = inside c \<and> room c' = room c"
proof (induction as arbitrary: c)
  case Nil
  then show ?case by simp
next
  case (Cons a as)
  from get_law [OF Cons.prems, of a] obtain c1
    where c1: "get c a = Inr (view c a, c1)" "invar c1" "len c1 = len c" "view c1 = view c"
      "inside c1 = inside c" "room c1 = room c"
    by blast
  from Cons.IH [OF c1(2)] c1 show ?case
    by (cases "view c a") auto
qed

lemma put_then_get:
  assumes "invar c" and "inside c a (length d)" and "i < length d"
    and "sint x = sint a + int i"
  shows "\<exists>c' c''. put c a d = Inr c' \<and> get c' x = Inr (Some (d ! i), c'')"
proof -
  from put_law [OF assms(1,2)] obtain c'
    where c': "put c a d = Inr c'" "invar c'" "view c' = overlay a d (view c)"
    by blast
  then have "view c' x = Some (d ! i)"
    using assms(3,4) by (simp add: overlay_def)
  with get_law [OF c'(2), of x] c'(1) show ?thesis by auto
qed

end

interpretation lru: byte_cache "\<lambda>c. lines_value (lines c)" lineLength cache_within cache_room
    LRUCache_Get LRUCache_Write LRUCache_PushLine cache_ok
proof
  fix c a
  assume "cache_ok c"
  then show "\<exists>c'. LRUCache_Get c a = Inr (lines_value (lines c) a, c') \<and> cache_ok c' \<and>
      lineLength c' = lineLength c \<and> lines_value (lines c') = lines_value (lines c) \<and>
      cache_within c' = cache_within c \<and> cache_room c' = cache_room c"
    using LRUCache_Get_eq [of c a] cache_ok_touch [of c a] lines_value_touch [of "lines c" a]
    by (simp add: cache_ok_def cache_within_def [abs_def] cache_room_def [abs_def]
        new_line_def list_ex_iff list_all_iff)
qed (simp_all add: LRUCache_Write_result LRUCache_PushLine_result)

section \<open>Replacement\<close>

text \<open>A line that was just used survives every sequence of fewer pushes than there are lines.\<close>

fun push_all :: "(int32 \<times> int8 list) list \<Rightarrow> LRUCache \<Rightarrow> LRUCache result" where
  "push_all [] c = Inr c"
| "push_all (p # ps) c = rbind (LRUCache_PushLine c (fst p) (snd p)) (\<lambda>(_, c'). push_all ps c')"

lemma PushLine_lines:
  assumes "LRUCache_PushLine c addr data = Inr (ev, c')"
  shows "lines c' = take (numberOfLines c) (new_line c addr data # lines c)
      \<and> numberOfLines c' = numberOfLines c
    \<or> length (lines c) < numberOfLines c \<and> lines c' = new_line c addr data # lines c
      \<and> numberOfLines c' = numberOfLines c"
  using assms by (auto simp: LRUCache_PushLine_def new_line_def Let_def split: if_splits)

lemma push_all_keeps:
  "push_all ps c = Inr c' \<Longrightarrow> lines c = xs @ l # ys \<Longrightarrow>
    length xs + length ps < numberOfLines c \<Longrightarrow> l \<in> set (lines c')"
proof (induction ps arbitrary: c xs ys)
  case Nil
  then show ?case by auto
next
  case (Cons p ps)
  then obtain ev c1 where c1: "LRUCache_PushLine c (fst p) (snd p) = Inr (ev, c1)"
    "push_all ps c1 = Inr c'"
    by auto
  obtain zs where "lines c1 = (new_line c (fst p) (snd p) # xs) @ l # zs"
    using PushLine_lines [OF c1(1)] Cons.prems(2,3) by (auto simp: take_Cons')
  moreover have "numberOfLines c1 = numberOfLines c"
    using PushLine_lines [OF c1(1)] by auto
  ultimately show ?case
    using Cons.IH [OF c1(2)] Cons.prems(3) by (metis add_Suc length_Cons list.size(4) add_Suc_right)
qed

end
