(* ===== verification/Mmu.thy ===== *)
theory Mmu
  imports App Cache
begin

text \<open>
  The memory management unit (\<open>mmu.go\<close>, the same code in \<open>src/proc/mvp3\<close>, \<open>mvp4\<close>, \<open>mvp5\<close>, \<open>mvp6-0\<close>
  and \<open>mvp6-1\<close>): an instruction cache, a write-back data cache, and the memory of the context,
  which the functions take and return. \<open>coherent\<close> relates the memory and the data cache to the
  memory that the program should see.
\<close>

section \<open>State\<close>

definition l1ICacheLineSize :: nat where "l1ICacheLineSize = 64"
definition liICacheSize :: nat where "liICacheSize = 1024"
definition l1DCacheLineSize :: nat where "l1DCacheLineSize = 64"
definition liDCacheSize :: nat where "liDCacheSize = 1024"

lemmas cache_sizes [simp] =
  l1ICacheLineSize_def liICacheSize_def l1DCacheLineSize_def liDCacheSize_def

record memoryManagementUnit =
  l1i :: LRUCache
  l1d :: LRUCache

definition newMemoryManagementUnit :: "memoryManagementUnit result" where
  "newMemoryManagementUnit =
     rbind (NewLRUCache l1ICacheLineSize liICacheSize) (\<lambda>i.
     rbind (NewLRUCache l1DCacheLineSize liDCacheSize) (\<lambda>d.
     Inr \<lparr>l1i = i, l1d = d\<rparr>))"

section \<open>Operations\<close>

definition getFromL1I ::
    "memoryManagementUnit \<Rightarrow> int32 list \<Rightarrow> (int8 list option \<times> memoryManagementUnit) result" where
  "getFromL1I u addrs =
     rbind (get_each LRUCache_Get addrs (l1i u)) (\<lambda>(r, c). Inr (r, u\<lparr>l1i := c\<rparr>))"

definition pushLineToL1I ::
    "memoryManagementUnit \<Rightarrow> int32 \<Rightarrow> int8 list \<Rightarrow> memoryManagementUnit result" where
  "pushLineToL1I u addr line =
     rbind (LRUCache_PushLine (l1i u) addr line) (\<lambda>(_, c). Inr (u\<lparr>l1i := c\<rparr>))"

definition getFromL1D ::
    "memoryManagementUnit \<Rightarrow> int32 list \<Rightarrow> (int8 list option \<times> memoryManagementUnit) result" where
  "getFromL1D u addrs =
     rbind (get_each LRUCache_Get addrs (l1d u)) (\<lambda>(r, c). Inr (r, u\<lparr>l1d := c\<rparr>))"

definition doesExecutionMemoryChangesExistsInL1D ::
    "memoryManagementUnit \<Rightarrow> Execution \<Rightarrow> (bool \<times> memoryManagementUnit) result" where
  "doesExecutionMemoryChangesExistsInL1D u exe =
     rbind (getFromL1D u (map fst (MemoryChanges exe))) (\<lambda>(r, u'). Inr (r \<noteq> None, u'))"

definition writeToL1D ::
    "memoryManagementUnit \<Rightarrow> int32 \<Rightarrow> int8 list \<Rightarrow> memoryManagementUnit result" where
  "writeToL1D u addr data =
     rbind (LRUCache_Write (l1d u) addr data) (\<lambda>c. Inr (u\<lparr>l1d := c\<rparr>))"

text \<open>The changes are sorted by address; \<open>changes[0]\<close> panics when there is none.\<close>

definition writeExecutionMemoryChangesToL1D ::
    "memoryManagementUnit \<Rightarrow> Execution \<Rightarrow> memoryManagementUnit result" where
  "writeExecutionMemoryChangesToL1D u exe =
     (let changes = sort_key (\<lambda>kv. sint (fst kv)) (MemoryChanges exe);
          data = map snd changes
      in rbind (go_index changes 0) (\<lambda>c. writeToL1D u (fst c) data))"

fun getFromMemory :: "int8 list \<Rightarrow> int32 list \<Rightarrow> int8 list result" where
  "getFromMemory mem [] = Inr []"
| "getFromMemory mem (addr # addrs) =
     rbind (go_index mem (sint addr)) (\<lambda>v.
     rbind (getFromMemory mem addrs) (\<lambda>vs. Inr (v # vs)))"

text \<open>The loop of \<open>fetchCacheLine\<close> over the offsets: a line that ends after the memory is padded.\<close>

fun fetch_loop :: "int8 list \<Rightarrow> int32 \<Rightarrow> nat list \<Rightarrow> int8 list result" where
  "fetch_loop mem addr [] = Inr []"
| "fetch_loop mem addr (i # is) =
     rbind (if int (length mem) \<le> sint addr + int i then Inr 0
            else go_index mem (sint addr + int i)) (\<lambda>v.
     rbind (fetch_loop mem addr is) (\<lambda>vs. Inr (v # vs)))"

definition fetchCacheLine :: "int8 list \<Rightarrow> int32 \<Rightarrow> int8 list result" where
  "fetchCacheLine mem addr = fetch_loop mem addr [0..<l1DCacheLineSize]"

text \<open>The loop of \<open>writeToMemory\<close> with its index \<open>i\<close>: it returns at the end of the memory.\<close>

fun write_from :: "int8 list \<Rightarrow> int32 \<Rightarrow> nat \<Rightarrow> int8 list \<Rightarrow> int8 list result" where
  "write_from mem addr i [] = Inr mem"
| "write_from mem addr i (v # vs) =
     (if int (length mem) \<le> sint addr + int i then Inr mem
      else rbind (go_store mem (sint (addr + of_nat i)) v) (\<lambda>mem'.
           write_from mem' addr (Suc i) vs))"

definition writeToMemory :: "int8 list \<Rightarrow> int32 \<Rightarrow> int8 list \<Rightarrow> int8 list result" where
  "writeToMemory mem addr data = write_from mem addr 0 data"

text \<open>When \<open>PushLine\<close> reports an evicted line, the new line (not the evicted one) is written.\<close>

definition pushLineToL1D :: "memoryManagementUnit \<Rightarrow> int8 list \<Rightarrow> int32 \<Rightarrow> int8 list \<Rightarrow>
    (memoryManagementUnit \<times> int8 list) result" where
  "pushLineToL1D u mem addr line =
     rbind (LRUCache_PushLine (l1d u) addr line) (\<lambda>(evicted, c).
       if length evicted = 0 then Inr (u\<lparr>l1d := c\<rparr>, mem)
       else rbind (writeToMemory mem addr line) (\<lambda>mem'. Inr (u\<lparr>l1d := c\<rparr>, mem')))"

text \<open>\<open>flush\<close> writes each line back as many times as a line has bytes.\<close>

fun write_times :: "nat \<Rightarrow> Line \<Rightarrow> int8 list \<Rightarrow> int8 list result" where
  "write_times 0 l mem = Inr mem"
| "write_times (Suc n) l mem =
     rbind (writeToMemory mem (boundary_from l) (Data l)) (write_times n l)"

fun flush_loop :: "int \<Rightarrow> Line list \<Rightarrow> int \<Rightarrow> int8 list \<Rightarrow> (int \<times> int8 list) result" where
  "flush_loop cyclesMemoryAccess [] additional mem = Inr (additional, mem)"
| "flush_loop cyclesMemoryAccess (l # ls) additional mem =
     rbind (write_times l1DCacheLineSize l mem)
       (flush_loop cyclesMemoryAccess ls (additional + cyclesMemoryAccess))"

definition mmu_flush :: "int \<Rightarrow> memoryManagementUnit \<Rightarrow> int8 list \<Rightarrow> (int \<times> int8 list) result" where
  "mmu_flush cyclesMemoryAccess u mem =
     flush_loop cyclesMemoryAccess (LRUCache_Lines (l1d u)) 0 mem"

section \<open>Reading and writing the memory\<close>

lemma getFromMemory_eq:
  "getFromMemory mem addrs = Inr vs \<longleftrightarrow>
     (\<forall>a \<in> set addrs. 0 \<le> sint a \<and> sint a < int (length mem)) \<and>
     vs = map (\<lambda>a. mem ! nat (sint a)) addrs"
  by (induction addrs arbitrary: vs) auto

lemma fetch_loop_eq:
  "0 \<le> sint addr \<Longrightarrow> fetch_loop mem addr is =
    Inr (map (\<lambda>i. if nat (sint addr) + i < length mem then mem ! (nat (sint addr) + i) else 0) is)"
  by (induction "is") (auto simp: go_index_def nat_add_distrib)

lemma fetchCacheLine_eq:
  "0 \<le> sint addr \<Longrightarrow> fetchCacheLine mem addr =
    Inr (map (\<lambda>i. if nat (sint addr) + i < length mem then mem ! (nat (sint addr) + i) else 0)
      [0..<64])"
  by (simp add: fetchCacheLine_def fetch_loop_eq)

text \<open>The bytes of a memory after \<open>data\<close> was written at \<open>a\<close>, clipped at its end.\<close>

definition patched :: "int8 list \<Rightarrow> nat \<Rightarrow> int8 list \<Rightarrow> int8 list" where
  "patched mem a data =
     map (\<lambda>x. if a \<le> x \<and> x < a + length data then data ! (x - a) else mem ! x) [0..<length mem]"

lemma length_patched [simp]: "length (patched mem a data) = length mem"
  by (simp add: patched_def)

lemma nth_patched [simp]:
  "x < length mem \<Longrightarrow> patched mem a data ! x =
    (if a \<le> x \<and> x < a + length data then data ! (x - a) else mem ! x)"
  by (simp add: patched_def)

lemma patched_Nil [simp]: "patched mem a [] = mem"
  by (rule nth_equalityI) auto

lemma patched_Cons:
  "a < length mem \<Longrightarrow> patched mem a (v # vs) = patched (mem[a := v]) (Suc a) vs"
  by (rule nth_equalityI) (auto simp: nth_list_update nth_Cons' Suc_diff_le)

lemma patched_beyond [simp]: "length mem \<le> a \<Longrightarrow> patched mem a data = mem"
  by (rule nth_equalityI) auto

lemma patched_patched [simp]: "patched (patched mem a data) a data = patched mem a data"
  by (rule nth_equalityI) auto

lemma write_from_eq:
  assumes "0 \<le> sint addr" and "length mem < 2 ^ 31"
  shows "write_from mem addr i data = Inr (patched mem (nat (sint addr) + i) data)"
  using assms(2)
proof (induction data arbitrary: mem i)
  case Nil
  then show ?case by simp
next
  case (Cons v vs)
  show ?case
  proof (cases "int (length mem) \<le> sint addr + int i")
    case True
    then have "length mem \<le> nat (sint addr) + i" by simp
    with True show ?thesis by simp
  next
    case False
    then have fits: "nat (sint addr) + i < length mem"
      using assms(1) by simp
    have "sint (addr + of_nat i) = sint addr + int i"
      using False assms(1) Cons.prems by (simp add: sint32_add_exact sint32_of_nat)
    moreover from this have "nat (sint (addr + of_nat i)) = nat (sint addr) + i"
      using assms(1) by simp
    ultimately show ?thesis
      using False fits Cons.IH [of "mem[nat (sint addr) + i := v]" "Suc i"] Cons.prems assms(1)
      by (simp add: patched_Cons go_store_def)
  qed
qed

lemma writeToMemory_eq:
  "0 \<le> sint addr \<Longrightarrow> length mem < 2 ^ 31 \<Longrightarrow>
    writeToMemory mem addr data = Inr (patched mem (nat (sint addr)) data)"
  by (simp add: writeToMemory_def write_from_eq)

lemma write_times_eq:
  assumes "0 \<le> sint (boundary_from l)" and "length mem < 2 ^ 31"
  shows "write_times (Suc n) l mem = Inr (patched mem (nat (sint (boundary_from l))) (Data l))"
  using assms(2)
  by (induction n arbitrary: mem) (simp_all add: writeToMemory_eq assms(1))

section \<open>The memory that the program sees\<close>

definition view :: "memoryManagementUnit \<Rightarrow> int32 \<Rightarrow> int8 option" where
  "view u = lines_value (lines (l1d u))"

text \<open>The abstraction: a cached byte if there is one, else the byte of the memory.\<close>

definition seen :: "memoryManagementUnit \<Rightarrow> int8 list \<Rightarrow> int8 list" where
  "seen u mem =
     map (\<lambda>x. case view u (of_nat x) of None \<Rightarrow> mem ! x | Some v \<Rightarrow> v) [0..<length mem]"

definition mmu_ok :: "memoryManagementUnit \<Rightarrow> int8 list \<Rightarrow> bool" where
  "mmu_ok u mem \<longleftrightarrow> cache_shape (l1i u) \<and> lineLength (l1i u) = 64
     \<and> cache_ok (l1d u) \<and> lineLength (l1d u) = 64 \<and> length mem < 2 ^ 31"

lemma length_seen [simp]: "length (seen u mem) = length mem"
  by (simp add: seen_def)

lemma nth_seen: "x < length mem \<Longrightarrow>
    seen u mem ! x = (case view u (of_nat x) of None \<Rightarrow> mem ! x | Some v \<Rightarrow> v)"
  by (simp add: seen_def split: option.split)

lemma of_nat_sint: "0 \<le> sint a \<Longrightarrow> of_nat (nat (sint (a :: int32))) = a"
proof -
  assume "0 \<le> sint a"
  then have "of_nat (nat (sint a)) = (of_int (sint a) :: int32)"
    by (simp add: of_nat_nat)
  then show ?thesis by simp
qed

text \<open>The address of a memory cell, as an index and as a word.\<close>

lemma nth_seen_word:
  assumes "0 \<le> sint a" and "sint a < int (length mem)"
  shows "seen u mem ! nat (sint a)
    = (case view u a of None \<Rightarrow> mem ! nat (sint a) | Some v \<Rightarrow> v)"
  using assms of_nat_sint [OF assms(1)] by (simp add: nth_seen)

lemma newMemoryManagementUnit_ok:
  assumes "length mem < 2 ^ 31"
  shows "\<exists>u. newMemoryManagementUnit = Inr u \<and> mmu_ok u mem \<and> seen u mem = mem"
proof -
  have "seen u mem = mem" if "lines (l1d u) = []" for u
    by (rule nth_equalityI) (simp_all add: seen_def view_def that)
  with assms show ?thesis
    by (auto simp: newMemoryManagementUnit_def NewLRUCache_def mmu_ok_def cache_ok_def
        cache_shape_def disjoint_lines_def)
qed

lemma seen_cong:
  "view u' = view u \<Longrightarrow> seen u' mem = seen u mem"
  by (simp add: seen_def)

subsection \<open>Instruction fetches\<close>

text \<open>Only the instruction cache changes, and its lookups never panic.\<close>

lemma getFromL1I_single:
  assumes "mmu_ok u mem"
  shows "\<exists>r u'. getFromL1I u [pc] = Inr (r, u') \<and> mmu_ok u' mem \<and> l1d u' = l1d u"
proof -
  have shape: "cache_shape (l1i u)" using assms by (simp add: mmu_ok_def)
  show ?thesis
    using assms cache_shape_touch [OF shape, of pc]
    by (cases "lines_value (lines (l1i u)) pc")
      (auto simp: getFromL1I_def LRUCache_Get_eq [OF shape] mmu_ok_def)
qed

lemma pushLineToL1I_ok:
  assumes "mmu_ok u mem"
  shows "\<exists>u'. pushLineToL1I u pc (replicate l1ICacheLineSize 0) = Inr u' \<and> mmu_ok u' mem
    \<and> l1d u' = l1d u"
proof -
  have "cache_shape (l1i u)" and "length (replicate l1ICacheLineSize 0) = lineLength (l1i u)"
    using assms by (simp_all add: mmu_ok_def)
  from cache_shape_PushLine [OF this, of pc] assms show ?thesis
    by (auto simp: pushLineToL1I_def mmu_ok_def)
qed

subsection \<open>Loads\<close>

lemma getFromL1D_result:
  assumes "mmu_ok u mem"
  shows "\<exists>u'. getFromL1D u addrs = Inr (those (map (view u) addrs), u') \<and> mmu_ok u' mem
    \<and> view u' = view u \<and> l1i u' = l1i u \<and> cache_within (l1d u') = cache_within (l1d u)
    \<and> cache_room (l1d u') = cache_room (l1d u)"
proof -
  from assms have "cache_ok (l1d u)" by (simp add: mmu_ok_def)
  from lru.get_each_law [OF this, of addrs] assms show ?thesis
    by (auto simp: getFromL1D_def mmu_ok_def view_def)
qed

text \<open>A hit returns what the program sees.\<close>

lemma those_Some: "those (map f xs) = Some ys \<longleftrightarrow> (\<forall>x \<in> set xs. f x \<noteq> None) \<and> ys = map (the \<circ> f) xs"
  by (induction xs arbitrary: ys) (auto split: option.splits)

lemma those_view:
  assumes "those (map (view u) addrs) = Some vs"
    and "\<forall>a \<in> set addrs. 0 \<le> sint a \<and> sint a < int (length mem)"
  shows "vs = map (\<lambda>a. seen u mem ! nat (sint a)) addrs"
  using assms by (auto simp: those_Some nth_seen_word)

text \<open>A miss with room for the line: fetching and pushing it leaves the seen memory unchanged, and
  the addresses of the line are cached.\<close>

lemma fetch_push:
  assumes "mmu_ok u mem" and "cache_room (l1d u) a" 
  shows "\<exists>line u'. fetchCacheLine mem a = Inr line \<and> pushLineToL1D u mem a line = Inr (u', mem)
    \<and> mmu_ok u' mem \<and> seen u' mem = seen u mem \<and> l1i u' = l1i u
    \<and> (\<forall>x. sint a \<le> sint x \<and> sint x < sint a + 64 \<longrightarrow> view u' x \<noteq> None)"
proof -
  have a: "0 \<le> sint a" and d: "cache_ok (l1d u)" "lineLength (l1d u) = 64"
    using assms by (simp_all add: cache_room_def mmu_ok_def)
  let ?line = "map (\<lambda>i. if nat (sint a) + i < length mem then mem ! (nat (sint a) + i) else 0)
      [0..<64]"
  have len: "length ?line = lineLength (l1d u)" by (simp add: d(2))
  from lru.push_law [OF d(1) assms(2) len] obtain c where
    c: "LRUCache_PushLine (l1d u) a ?line = Inr ([], c)" "cache_ok c" "lineLength c = 64"
      "lines_value (lines c) = overlay a ?line (view u)"
    by (auto simp: d(2) view_def)
  let ?u = "u\<lparr>l1d := c\<rparr>"
  have view: "view ?u = overlay a ?line (view u)"
    by (simp add: view_def c(4))
  have "list_all (disjoint_from (new_line (l1d u) a [])) (lines (l1d u))"
    using assms(2) by (simp add: cache_room_def)
  then have fresh: "view u x = None" if "sint a \<le> sint x" "sint x < sint a + 64" for x
  proof -
    have "covers (new_line (l1d u) a []) x"
      using that assms(2) d(2) new_line_byte(1) [of "replicate 64 0" "l1d u" a x]
      by (simp add: cache_room_def new_line_def covers_def)
    with \<open>list_all _ _\<close> show ?thesis
      by (auto simp: view_def lines_value_None list_all_iff dest: covers_disjoint)
  qed
  have "seen ?u mem = seen u mem"
  proof (rule nth_equalityI)
    fix x
    assume "x < length (seen ?u mem)"
    then have x: "x < length mem" by simp
    moreover from this assms(1) have "sint (of_nat x :: int32) = int x"
      by (simp add: mmu_ok_def sint32_of_nat)
    ultimately show "seen ?u mem ! x = seen u mem ! x"
      using a fresh [of "of_nat x"] by (auto simp: nth_seen view overlay_def nat_diff_distrib')
  qed simp
  moreover have "mmu_ok ?u mem"
    using assms(1) c(2,3) by (simp add: mmu_ok_def)
  ultimately show ?thesis
    using fetchCacheLine_eq [OF a] c(1) view
    by (auto simp: pushLineToL1D_def overlay_def)
qed

subsection \<open>Stores\<close>

text \<open>The addresses of a store, as \<open>run_memory_changes\<close> gives them: \<open>n\<close> consecutive ones.\<close>

definition consecutive :: "int32 \<Rightarrow> nat \<Rightarrow> int32 list" where
  "consecutive a n = map (\<lambda>k. a + of_nat k) [0..<n]"

lemma length_consecutive [simp]: "length (consecutive a n) = n"
  by (simp add: consecutive_def)

lemma consecutive_0 [simp]: "consecutive a 0 = []"
  by (simp add: consecutive_def)

lemma consecutive_Suc: "consecutive a (Suc n) = a # consecutive (a + 1) n"
  by (simp add: consecutive_def upt_conv_Cons map_Suc_upt [symmetric] o_def add.assoc
      del: upt_Suc map_Suc_upt)

text \<open>No wrap-around among addresses that are memory indices.\<close>

lemma consecutive_sint:
  assumes "\<forall>x \<in> set (consecutive a n). 0 \<le> sint x" and "k < n"
  shows "sint (a + of_nat k) = sint a + int k"
  using assms(2)
proof (induction k)
  case 0
  then show ?case by simp
next
  case (Suc k)
  then have k: "sint (a + of_nat k) = sint a + int k" by simp
  have "0 \<le> sint (a + of_nat (Suc k))"
    using assms(1) Suc.prems by (auto simp: consecutive_def simp del: of_nat_Suc)
  then have "0 \<le> sint (a + of_nat k + 1)"
    by (simp add: algebra_simps)
  then show ?case
    using k sint32_range [of "a + of_nat k"] sint32_add_over [of "a + of_nat k" 1]
      sint32_add_exact [of "a + of_nat k" 1]
    by (cases "sint (a + of_nat k) = 2 ^ 31 - 1") (simp_all add: algebra_simps)
qed

lemma store_all_patched:
  assumes "map fst kvs = consecutive a n" and "store_all kvs mem = Inr mem'"
    and "length mem < 2 ^ 31"
  shows "mem' = patched mem (nat (sint a)) (map snd kvs)"
  using assms
proof (induction n arbitrary: kvs a mem)
  case 0
  then show ?case by simp
next
  case (Suc n)
  then obtain v rest where kvs: "kvs = (a, v) # rest" "map fst rest = consecutive (a + 1) n"
    by (auto simp: consecutive_Suc map_eq_Cons_conv)
  with Suc.prems have a: "0 \<le> sint a" "sint a < int (length mem)"
    and rest: "store_all rest (mem[nat (sint a) := v]) = Inr mem'"
    by (auto simp: store_all_Cons)
  then have "sint (a + 1) = sint a + 1"
    using Suc.prems(3) by (simp add: sint32_add_exact)
  then have "nat (sint (a + 1)) = Suc (nat (sint a))"
    using a by simp
  with Suc.IH [OF kvs(2) rest] Suc.prems(3) show ?case
    using a by (simp add: kvs(1) patched_Cons)
qed

lemma sort_key_consecutive:
  assumes "map fst kvs = consecutive a n" and "\<forall>k \<in> set (map fst kvs). 0 \<le> sint k"
  shows "sort_key (\<lambda>kv. sint (fst kv)) kvs = kvs"
proof (rule sort_key_id_if_sorted)
  have "map (\<lambda>kv. sint (fst kv)) kvs = map sint (map fst kvs)"
    by simp
  also have "\<dots> = map (\<lambda>k. sint (a + of_nat k)) [0..<n]"
    unfolding assms(1) by (simp add: consecutive_def)
  also have "\<dots> = map (\<lambda>k. sint a + int k) [0..<n]"
    using consecutive_sint [of a n] assms by simp
  finally show "sorted (map (\<lambda>kv. sint (fst kv)) kvs)"
    by (simp add: sorted_iff_nth_mono)
qed

lemma seen_overlay:
  assumes "view u' = overlay a data (view u)" and "0 \<le> sint a" and "length mem < 2 ^ 31"
  shows "seen u' mem = patched (seen u mem) (nat (sint a)) data"
proof (rule nth_equalityI)
  fix x
  assume "x < length (seen u' mem)"
  then have x: "x < length mem" by simp
  with assms(3) have "sint (of_nat x :: int32) = int x"
    by (simp add: sint32_of_nat)
  then show "seen u' mem ! x = patched (seen u mem) (nat (sint a)) data ! x"
    using x assms(1,2) by (auto simp: nth_seen overlay_def nat_diff_distrib' nat_less_iff nat_le_iff)
qed simp

lemma store_hit:
  assumes "mmu_ok u mem" and "map fst (MemoryChanges exe) = consecutive a (Suc n)"
    and "store_all (MemoryChanges exe) (seen u mem) = Inr after"
    and "cache_within (l1d u) a (Suc n)"
  shows "\<exists>u'. writeExecutionMemoryChangesToL1D u exe = Inr u' \<and> mmu_ok u' mem
    \<and> seen u' mem = after \<and> l1i u' = l1i u \<and> (\<forall>x. (view u' x = None) = (view u x = None))"
proof -
  let ?kvs = "MemoryChanges exe"
  have mem: "length mem < 2 ^ 31" and d: "cache_ok (l1d u)"
    using assms(1) by (simp_all add: mmu_ok_def)
  have nonneg: "\<forall>k \<in> set (map fst ?kvs). 0 \<le> sint k"
    using assms(3) store_all_in_range [of ?kvs "seen u mem"] by auto
  note sorted = sort_key_consecutive [OF assms(2) nonneg]
  obtain v rest where kvs: "?kvs = (a, v) # rest"
    using assms(2) by (auto simp: consecutive_Suc map_eq_Cons_conv)
  have len: "length (map snd ?kvs) = Suc n"
    using assms(2) by (metis length_consecutive length_map)
  from lru.put_law [OF d, of a "map snd ?kvs"] assms(4) len obtain c where
    c: "LRUCache_Write (l1d u) a (map snd ?kvs) = Inr c" "cache_ok c"
      "lineLength c = lineLength (l1d u)"
      "lines_value (lines c) = overlay a (map snd ?kvs) (view u)"
    by (auto simp: view_def)
  have "seen (u\<lparr>l1d := c\<rparr>) mem = patched (seen u mem) (nat (sint a)) (map snd ?kvs)"
    using c(4) mem nonneg by (intro seen_overlay) (simp_all add: view_def kvs)
  also have "\<dots> = after"
    using store_all_patched [OF assms(2,3)] mem by simp
  finally have "seen (u\<lparr>l1d := c\<rparr>) mem = after" .
  moreover have "(view (u\<lparr>l1d := c\<rparr>) x = None) = (view u x = None)" for x
    using c(4) cache_within_cached [OF assms(4), of x] len
    by (auto simp: view_def overlay_def)
  moreover have "writeExecutionMemoryChangesToL1D u exe = Inr (u\<lparr>l1d := c\<rparr>)"
    unfolding writeExecutionMemoryChangesToL1D_def sorted Let_def
    using c(1) by (simp add: kvs writeToL1D_def)
  ultimately show ?thesis
    using c(2,3) assms(1) by (auto simp: mmu_ok_def)
qed

lemma store_miss:
  assumes "mmu_ok u mem" and "map fst kvs = consecutive a n"
    and "store_all kvs (seen u mem) = Inr after" and "\<forall>x \<in> set (map fst kvs). view u x = None"
  shows "\<exists>mem'. store_all kvs mem = Inr mem' \<and> mmu_ok u mem' \<and> seen u mem' = after"
proof -
  have mem: "length mem < 2 ^ 31"
    using assms(1) by (simp add: mmu_ok_def)
  have range: "\<forall>k \<in> fst ` set kvs. 0 \<le> sint k \<and> sint k < int (length mem)"
    using assms(3) store_all_in_range [of kvs "seen u mem"] by auto
  then obtain mem' where mem': "store_all kvs mem = Inr mem'"
    using store_all_in_range [of kvs mem] by auto
  have patch: "mem' = patched mem (nat (sint a)) (map snd kvs)"
    "after = patched (seen u mem) (nat (sint a)) (map snd kvs)"
    using store_all_patched [OF assms(2) mem' mem] store_all_patched [OF assms(2,3)] mem by simp_all
  have fresh: "view u (of_nat x) = None"
    if x: "nat (sint a) \<le> x" "x < nat (sint a) + length kvs" for x
  proof -
    obtain k where k: "x = nat (sint a) + k" "k < n"
      using x assms(2) by (metis le_add_diff_inverse length_consecutive length_map nat_add_left_cancel_less)
    then have mem_k: "a + of_nat k \<in> set (map fst kvs)" and "a \<in> set (map fst kvs)"
      using assms(2) by (auto simp: consecutive_def intro!: rev_image_eqI [of 0])
    then have "of_nat x = a + of_nat k"
      using range k(1) of_nat_sint [of a] by auto
    with bspec [OF assms(4) mem_k] show ?thesis by simp
  qed
  have "seen u mem' = after"
    unfolding patch by (rule nth_equalityI) (auto simp: nth_seen fresh split: option.split)
  with mem' assms(1) length_store_all [OF mem'] show ?thesis
    by (auto simp: mmu_ok_def)
qed

subsection \<open>Flush\<close>

lemma flush_loop_eq:
  assumes "disjoint_lines ls" and "list_all (line_shape 64) ls"
    and "list_all (line_placed 64) ls" and "length mem < 2 ^ 31"
  shows "flush_loop cyc ls k mem = Inr (k + cyc * int (length ls),
    map (\<lambda>x. case lines_value ls (of_nat x) of None \<Rightarrow> mem ! x | Some v \<Rightarrow> v) [0..<length mem])"
  using assms
proof (induction ls arbitrary: k mem)
  case Nil
  then show ?case by (simp add: map_nth)
next
  case (Cons l ls)
  let ?mem = "patched mem (nat (sint (boundary_from l))) (Data l)"
  from Cons.prems have l: "line_shape 64 l" "0 \<le> sint (boundary_from l)"
      "sint (boundary_from l) + 64 < 2 ^ 31"
    and ls: "disjoint_lines ls" "\<forall>l' \<in> set ls. disjoint_from l l'"
    by (simp_all add: disjoint_lines_def line_placed_def)
  have first: "write_times l1DCacheLineSize l mem = Inr ?mem"
    using write_times_eq [OF l(2) Cons.prems(4), of 63] by simp
  have cell: "(case lines_value ls (of_nat x) of None \<Rightarrow> ?mem ! x | Some v \<Rightarrow> v)
      = (case lines_value (l # ls) (of_nat x) of None \<Rightarrow> mem ! x | Some v \<Rightarrow> v)"
    if "x < length mem" for x
  proof -
    have x: "sint (of_nat x :: int32) = int x"
      using that Cons.prems(4) by (simp add: sint32_of_nat)
    show ?thesis
    proof (cases "covers l (of_nat x)")
      case True
      then have "lines_value ls (of_nat x) = None"
        using ls(2) by (auto simp: lines_value_None dest: covers_disjoint)
      with True that x l(2) covers_offset [OF l(1) True] l(1) show ?thesis
        by (auto simp: line_byte_def line_shape_def nat_diff_distrib' nat_le_iff nat_less_iff)
    next
      case False
      have "sint (boundary_from l + 64) = sint (boundary_from l) + 64"
        using l(2,3) by (simp add: sint32_add_exact)
      with False l(1) x have "sint (boundary_from l) + 64 \<le> int x \<or> int x < sint (boundary_from l)"
        by (auto simp: covers_def line_shape_def word_sle_eq word_sless_alt)
      with False that l show ?thesis
        by (auto simp: line_shape_def split: option.split)
    qed
  qed
  show ?case
    using Cons.IH [OF ls(1), of ?mem "k + cyc"] Cons.prems first
    by (simp add: algebra_simps cell cong: map_cong)
qed

lemma mmu_flush_result:
  assumes "mmu_ok u mem"
  shows "mmu_flush cyc u mem = Inr (cyc * int (length (lines (l1d u))), seen u mem)"
proof -
  have "flush_loop cyc (lines (l1d u)) 0 mem = Inr (0 + cyc * int (length (lines (l1d u))),
      map (\<lambda>x. case lines_value (lines (l1d u)) (of_nat x) of None \<Rightarrow> mem ! x | Some v \<Rightarrow> v)
        [0..<length mem])"
    using assms by (intro flush_loop_eq) (auto simp: mmu_ok_def cache_ok_def cache_shape_def)
  then show ?thesis
    by (simp add: mmu_flush_def LRUCache_Lines_def seen_def view_def)
qed

text \<open>Whether a store hits does not depend on the order of its map of changes.\<close>

lemma changes_exist:
  assumes "mmu_ok u mem"
  shows "\<exists>u'. doesExecutionMemoryChangesExistsInL1D u exe =
      Inr (\<forall>x \<in> set (map fst (MemoryChanges exe)). view u x \<noteq> None, u')
    \<and> mmu_ok u' mem \<and> view u' = view u \<and> l1i u' = l1i u
    \<and> cache_within (l1d u') = cache_within (l1d u)"
proof -
  from getFromL1D_result [OF assms, of "map fst (MemoryChanges exe)"] obtain u' where
    u': "getFromL1D u (map fst (MemoryChanges exe)) =
        Inr (those (map (view u) (map fst (MemoryChanges exe))), u')"
      "mmu_ok u' mem" "view u' = view u" "l1i u' = l1i u"
      "cache_within (l1d u') = cache_within (l1d u)"
    by blast
  have "(those (map (view u) as) \<noteq> None) = (\<forall>x \<in> set as. view u x \<noteq> None)" for as
    by (induction as) (auto split: option.split)
  from this [of "map fst (MemoryChanges exe)"] u' show ?thesis
    unfolding doesExecutionMemoryChangesExistsInL1D_def by simp
qed

end
