(* ===== verification/Machine.thy ===== *)
theory Machine
  imports Footprint Mmu
begin

text \<open>
  The architecture that the virtual processors implement: \<open>arch_step\<close> executes one instruction on a
  program counter and a context, with memory accessed directly and no cost. What happens when the
  program counter leaves the program differs between the processors and is the parameter \<open>finish\<close>.
  The locales \<open>lockstep\<close>, \<open>guarded_lockstep\<close> and \<open>loop_invariant\<close> are the ways in which the
  processors are compared with it; they are interpreted in the theories of the processors.
\<close>

section \<open>The architecture\<close>

definition next_pc :: "Execution \<Rightarrow> int32 \<Rightarrow> int32" where
  "next_pc exe pc = (if PcChange exe then NextPc exe else pc + 4)"

definition write_back :: "Context \<Rightarrow> Execution \<Rightarrow> Context result" where
  "write_back ctx exe =
     (if RegisterChange exe then Inr (WriteRegister ctx exe)
      else if MemoryChange exe then WriteMemory ctx exe
      else Inr ctx)"

definition arch_execute :: "app \<Rightarrow> int32 \<Rightarrow> Context \<Rightarrow> (Context \<times> Execution) result" where
  "arch_execute app pc ctx =
     rbind (instruction_at app pc) (\<lambda>i.
     rbind (getFromMemory (Memory ctx) (MemoryRead (runner i noForward) ctx)) (\<lambda>memory.
     Run (runner i noForward) ctx (Labels app) pc memory))"

type_synonym arch = "int32 \<times> Context"

definition arch_step ::
    "(Context \<Rightarrow> (arch, Context) outcome) \<Rightarrow> app \<Rightarrow> arch \<Rightarrow> (arch, Context) outcome result" where
  "arch_step finish app s =
     (case s of (pc, ctx) \<Rightarrow>
        if pc_in_app app pc
        then rbind (arch_execute app pc ctx) (\<lambda>(ctx, exe).
             if Return exe then Inr (Done ctx)
             else rbind (write_back ctx exe) (\<lambda>ctx. Inr (Continue (next_pc exe pc, ctx))))
        else Inr (finish ctx))"

text \<open>MVP-1 and MVP-2: a program that ends with a return address starts again.\<close>

definition finish_return :: "Context \<Rightarrow> (arch, Context) outcome" where
  "finish_return ctx =
     (if map_get (Registers ctx) Ra \<noteq> 0
      then Continue (0, ctx\<lparr>Registers := (Registers ctx)(Ra \<mapsto> 0)\<rparr>)
      else Done ctx)"

lemma write_back_fields:
  assumes "write_back ctx exe = Inr ctx'"
  shows "length (Memory ctx') = length (Memory ctx)" and "Debug ctx' = Debug ctx"
    and "PendingReadRegisters ctx' = PendingReadRegisters ctx"
    and "PendingWriteRegisters ctx' = PendingWriteRegisters ctx"
  using assms by (auto simp: write_back_def WriteRegister_def split: if_splits)

section \<open>Comparing loops\<close>

text \<open>
  Two loops in lockstep: the relation, indexed by the number of steps made, is kept by a step, and
  failures are the same.
\<close>

locale lockstep =
  fixes step1 :: "'s \<Rightarrow> ('s, 'r) outcome result"
    and step2 :: "'t \<Rightarrow> ('t, 'q) outcome result"
    and sim :: "nat \<Rightarrow> 's \<Rightarrow> 't \<Rightarrow> bool"
    and res :: "nat \<Rightarrow> 'r \<Rightarrow> 'q \<Rightarrow> bool"
  assumes step_law: "sim k s t \<Longrightarrow>
      rel_sum (=) (rel_outcome (sim (Suc k)) (res (Suc k))) (step1 s) (step2 t)"
begin

lemma runs_agree:
  "sim k s t \<Longrightarrow> rel_option (rel_sum (=) (\<lambda>r q. \<exists>j. j \<le> k + n \<and> res j r q))
    (run_loop step1 n s) (run_loop step2 n t)"
proof (induction n arbitrary: k s t)
  case 0
  then show ?case by simp
next
  case (Suc n)
  from step_law [OF Suc.prems] show ?case
  proof (cases rule: rel_sum.cases)
    case (1 e e')
    then show ?thesis by simp
  next
    case (2 x y)
    from 2(3) show ?thesis
    proof (cases rule: outcome.rel_cases)
      case (Continue s' t')
      from Suc.IH [OF Continue(3)] show ?thesis
        using 2(1,2) Continue(1,2) by simp
    next
      case (Done r q)
      then show ?thesis
        using 2(1,2) by (auto intro: exI [of _ "Suc k"])
    qed
  qed
qed

end

text \<open>A condition checked on every state of a run.\<close>

fun along :: "('s \<Rightarrow> bool) \<Rightarrow> ('s \<Rightarrow> ('s, 'r) outcome result) \<Rightarrow> nat \<Rightarrow> 's \<Rightarrow> bool" where
  "along good step 0 s = True"
| "along good step (Suc n) s =
     (good s \<and> (case step s of
        Inr (Continue s') \<Rightarrow> along good step n s'
      | _ \<Rightarrow> True))"

text \<open>The condition holds up to the end of the run, which comes within \<open>n\<close> steps: what a longer bound
  adds is nothing.\<close>

fun along_ends :: "('s \<Rightarrow> bool) \<Rightarrow> ('s \<Rightarrow> ('s, 'r) outcome result) \<Rightarrow> nat \<Rightarrow> 's \<Rightarrow> bool" where
  "along_ends good step 0 s = False"
| "along_ends good step (Suc n) s =
     (good s \<and> (case step s of
        Inr (Continue s') \<Rightarrow> along_ends good step n s'
      | _ \<Rightarrow> True))"

lemma along_ends: "along_ends good step n s \<Longrightarrow> n \<le> k \<Longrightarrow> along good step k s"
proof (induction n arbitrary: s k)
  case (Suc n)
  then obtain j where "k = Suc j" "n \<le> j" by (cases k) auto
  with Suc show ?case by (auto split: sum.splits outcome.splits)
qed simp

text \<open>A loop that follows another as long as that one succeeds and the guard holds.\<close>

locale guarded_lockstep =
  fixes step1 :: "'s \<Rightarrow> ('s, 'r) outcome result"
    and step2 :: "'t \<Rightarrow> ('t, 'q) outcome result"
    and good :: "'s \<Rightarrow> bool"
    and sim :: "'s \<Rightarrow> 't \<Rightarrow> bool"
    and res :: "'r \<Rightarrow> 'q \<Rightarrow> bool"
  assumes follows: "sim s t \<Longrightarrow> good s \<Longrightarrow> step2 t = Inr out \<Longrightarrow>
      \<exists>out'. step1 s = Inr out' \<and> rel_outcome sim res out' out"
begin

lemma run_follows:
  "sim s t \<Longrightarrow> along good step1 n s \<Longrightarrow> run_loop step2 n t = Some (Inr q) \<Longrightarrow>
    \<exists>r. run_loop step1 n s = Some (Inr r) \<and> res r q"
proof (induction n arbitrary: s t)
  case 0
  then show ?case by simp
next
  case (Suc n)
  from Suc.prems(3) obtain out where out: "step2 t = Inr out"
    by (auto split: sum.splits)
  from follows [OF Suc.prems(1) _ out] Suc.prems(2) obtain out' where
    out': "step1 s = Inr out'" "rel_outcome sim res out' out"
    by auto
  from out'(2) show ?case
  proof (cases rule: outcome.rel_cases)
    case (Continue s' t')
    with Suc out out'(1) show ?thesis by simp
  next
    case (Done r q')
    with Suc.prems(3) out out'(1) show ?thesis by simp
  qed
qed

end

text \<open>An invariant of a loop.\<close>

locale loop_invariant =
  fixes step :: "'s \<Rightarrow> ('s, 'r) outcome result"
    and I :: "'s \<Rightarrow> bool"
    and Q :: "'r \<Rightarrow> bool"
  assumes continue_law: "I s \<Longrightarrow> step s = Inr (Continue s') \<Longrightarrow> I s'"
    and done_law: "I s \<Longrightarrow> step s = Inr (Done r) \<Longrightarrow> Q r"
begin

lemma run_result: "I s \<Longrightarrow> run_loop step n s = Some (Inr r) \<Longrightarrow> Q r"
  by (induction n arbitrary: s)
    (auto split: sum.splits outcome.splits dest: continue_law done_law)

end

text \<open>A loop that never leaves a set of states in which every step continues.\<close>

lemma run_forever:
  assumes "\<And>s. I s \<Longrightarrow> \<exists>s'. step s = Inr (Continue s') \<and> I s'" and "I s"
  shows "run_loop step n s = None"
  using assms(2)
proof (induction n arbitrary: s)
  case 0
  then show ?case by simp
next
  case (Suc n)
  with assms(1) [OF Suc.prems] show ?case by auto
qed

section \<open>An invariant of the architecture\<close>

text \<open>Register \<open>Zero\<close> reads 0, and the memory keeps its size.\<close>

definition context_ok :: "nat \<Rightarrow> Context \<Rightarrow> bool" where
  "context_ok n ctx \<longleftrightarrow> map_get (Registers ctx) Zero = 0 \<and> length (Memory ctx) = n"

lemma context_ok_New: "context_ok n (NewContext debug n)"
  by (simp add: context_ok_def NewContext_def)

lemma context_ok_Run:
  assumes "Run (runner i f) ctx labels pc memory = Inr (ctx', exe)" and "context_ok n ctx"
  shows "context_ok n ctx'"
  using assms(2) run_context [OF assms(1)] by (simp add: context_ok_def)

lemma context_ok_write_back:
  assumes "Run (runner i f) ctx labels pc memory = Inr (ctx', exe)" and "context_ok n ctx'"
    and "write_back ctx' exe = Inr ctx''"
  shows "context_ok n ctx''"
  using assms(2,3) run_register(2) [OF assms(1)]
  by (auto simp: context_ok_def write_back_def WriteRegister_def split: if_splits)

lemma context_ok_arch_execute:
  assumes "arch_execute app pc ctx = Inr (ctx', exe)" and "context_ok n ctx"
  shows "context_ok n ctx'" and "write_back ctx' exe = Inr ctx'' \<Longrightarrow> context_ok n ctx''"
  using assms by (auto simp: arch_execute_def intro: context_ok_Run context_ok_write_back)

interpretation arch_ok: loop_invariant "arch_step finish_return app" "\<lambda>s. context_ok n (snd s)"
    "context_ok n" for app n
proof
  fix s s' :: arch
  assume "context_ok n (snd s)" and "arch_step finish_return app s = Inr (Continue s')"
  then show "context_ok n (snd s')"
    by (auto simp: arch_step_def finish_return_def context_ok_def [of n "_\<lparr>Registers := _\<rparr>"]
        split: prod.splits if_splits dest: context_ok_arch_execute) (auto simp: context_ok_def)
next
  fix s :: arch and r
  assume "context_ok n (snd s)" and "arch_step finish_return app s = Inr (Done r)"
  then show "context_ok n r"
    by (auto simp: arch_step_def finish_return_def split: prod.splits if_splits
        dest: context_ok_arch_execute)
qed

section \<open>A program that never ends\<close>

text \<open>
  \<open>jal\<close> writes register \<open>Ra\<close> whatever its destination register is, and a processor with
  \<open>finish_return\<close> starts again when \<open>Ra\<close> is not zero at the end: a forward jump over nothing is an
  endless loop.
\<close>

definition jump_to_end :: app where
  "jump_to_end = \<lparr>Instructions = [I_nop, I_jal ''end'' Zero], Labels = [''end'' \<mapsto> 8]\<rparr>"

definition jump_states :: "arch \<Rightarrow> bool" where
  "jump_states s \<longleftrightarrow> fst s = 0 \<or> fst s = 4 \<or> fst s = 8 \<and> map_get (Registers (snd s)) Ra = 4"

lemma jump_to_end_loops:
  assumes "jump_states s"
  shows "\<exists>s'. arch_step finish_return jump_to_end s = Inr (Continue s') \<and> jump_states s'"
proof -
  obtain pc ctx where s: "s = (pc, ctx)" by force
  consider "pc = 0" | "pc = 4" | "pc = 8" "map_get (Registers ctx) Ra = 4"
    using assms by (auto simp: s jump_states_def)
  then show ?thesis
    by cases (simp_all add: s arch_step_def arch_execute_def jump_to_end_def pc_in_app_def
        instruction_at_def quot32_def op_defs write_back_def WriteRegister_def next_pc_def
        finish_return_def jump_states_def Let_def word_sless_alt)
qed

lemma jump_to_end_forever:
  "run_loop (arch_step finish_return jump_to_end) n (0, ctx) = None"
proof (rule run_forever [where I = jump_states])
  show "jump_states (0, ctx)" by (simp add: jump_states_def)
qed (rule jump_to_end_loops)

end
