(* ===== verification/Runner.thy ===== *)
theory Runner
  imports Machine
begin

text \<open>
  \<open>src/risc/runner.go\<close>: the interpreter that runs an application without a processor. It never
  reads the memory (\<open>Run\<close> gets \<open>nil\<close>), and it ignores \<open>Return\<close>.
\<close>

record Runner =
  Ctx :: Context
  App :: app

definition NewRunner :: "app \<Rightarrow> nat \<Rightarrow> Runner" where
  "NewRunner app memoryBytes = \<lparr>Ctx = NewContext False memoryBytes, App = app\<rparr>"

text \<open>One iteration of the loop of \<open>Run\<close>.\<close>

definition runner_step :: "app \<Rightarrow> int32 \<times> Context \<Rightarrow> (int32 \<times> Context, Context) outcome result" where
  "runner_step app s =
     (case s of (pc, ctx) \<Rightarrow>
        if pc_in_app app pc
        then rbind (instruction_at app pc) (\<lambda>i.
             rbind (Run (runner i noForward) ctx (Labels app) pc []) (\<lambda>(ctx, exe).
             rbind (if RegisterChange exe then Inr (WriteRegister ctx exe)
                    else if MemoryChange exe then WriteMemory ctx exe
                    else Inr ctx) (\<lambda>ctx.
             Inr (Continue (if PcChange exe then NextPc exe else pc + 4, ctx)))))
        else Inr (Done ctx))"

definition Runner_Run :: "nat \<Rightarrow> Runner \<Rightarrow> Context result option" where
  "Runner_Run fuel r = run_loop (runner_step (App r)) fuel (0, Ctx r)"

section \<open>The runner follows the architecture\<close>

text \<open>Programs for which the runner is an interpreter: no loads and no \<open>ret\<close>.\<close>

definition runner_program :: "app \<Rightarrow> bool" where
  "runner_program app \<longleftrightarrow>
     list_all (\<lambda>i. \<not> IsMemoryRead (instructionType i) \<and> instructionType i \<noteq> Ret)
       (Instructions app)"

lemma instruction_at_mem: "instruction_at app pc = Inr i \<Longrightarrow> i \<in> set (Instructions app)"
  by (auto simp: instruction_at_def)

lemma runner_step_arch:
  assumes "runner_program app"
  shows "runner_step app (pc, ctx) = arch_step Done app (pc, ctx)"
proof (cases "instruction_at app pc")
  case (Inl e)
  then show ?thesis
    by (simp add: runner_step_def arch_step_def arch_execute_def)
next
  case (Inr i)
  with assms have i: "\<not> IsMemoryRead (instructionType i)" "instructionType i \<noteq> Ret"
    by (auto simp: runner_program_def list_all_iff dest: instruction_at_mem)
  then have reads: "MemoryRead (runner i noForward) ctx = []"
    using memory_read_class [of i noForward ctx] by simp
  show ?thesis
  proof (cases "Run (runner i noForward) ctx (Labels app) pc []")
    case (Inl e)
    with Inr reads show ?thesis
      by (simp add: runner_step_def arch_step_def arch_execute_def)
  next
    case run: (Inr r)
    obtain ctx' exe where r: "r = (ctx', exe)" by force
    have "\<not> Return exe"
      using run_class(2) [of i noForward ctx "Labels app" pc "[]" ctx' exe] run r i(2) by simp
    with Inr reads run r show ?thesis
      by (simp add: runner_step_def arch_step_def arch_execute_def write_back_def next_pc_def)
  qed
qed

lemma runner_loads_panic:
  assumes "IsMemoryRead (instructionType i)"
  shows "Run (runner i noForward) ctx labels pc [] = Inl (Panic IndexOutOfRange)"
  using assms by (cases i) (auto simp: run_defs instruction_class_defs go_index_def)

end
