(* ===== verification/Mvp1.thy ===== *)
theory Mvp1
  imports Machine
begin

text \<open>
  MVP-1 (\<open>src/proc/mvp1/cpu.go\<close>): no cache and no pipeline. Cycle counters are Go's 64-bit \<open>int\<close>,
  modelled as unbounded integers. The label \<open>loop\<close> stands before \<open>var pc int32\<close>, so that
  \<open>goto loop\<close> starts again at address 0, whatever the return address was.
\<close>

section \<open>The processor\<close>

definition mvp1_cyclesMemoryAccess :: int where "mvp1_cyclesMemoryAccess = 50"
definition mvp1_cyclesRegisterAccess :: int where "mvp1_cyclesRegisterAccess = 1"
definition mvp1_cyclesDecode :: int where "mvp1_cyclesDecode = 1"

lemmas mvp1_costs [simp] =
  mvp1_cyclesMemoryAccess_def mvp1_cyclesRegisterAccess_def mvp1_cyclesDecode_def

record mvp1 =
  mvp1_ctx :: Context
  mvp1_cycle :: int

definition mvp1_NewCPU :: "bool \<Rightarrow> nat \<Rightarrow> mvp1" where
  "mvp1_NewCPU debug memoryBytes = \<lparr>mvp1_ctx = NewContext debug memoryBytes, mvp1_cycle = 0\<rparr>"

definition mvp1_spend :: "int \<Rightarrow> mvp1 \<Rightarrow> mvp1" where
  "mvp1_spend k m = m\<lparr>mvp1_cycle := mvp1_cycle m + k\<rparr>"

definition mvp1_fetchInstruction :: "mvp1 \<Rightarrow> int32 \<Rightarrow> int32 \<times> mvp1" where
  "mvp1_fetchInstruction m pc = (pc, mvp1_spend mvp1_cyclesMemoryAccess m)"

definition mvp1_decode :: "mvp1 \<Rightarrow> app \<Rightarrow> int32 \<Rightarrow> (instr \<times> mvp1) result" where
  "mvp1_decode m app pc =
     rbind (instruction_at app pc) (\<lambda>r. Inr (r, mvp1_spend mvp1_cyclesDecode m))"

definition mvp1_execute :: "mvp1 \<Rightarrow> app \<Rightarrow> instr \<Rightarrow> int32 \<Rightarrow>
    (Execution \<times> InstructionType \<times> mvp1) result" where
  "mvp1_execute m app i pc =
     (let r = runner i noForward; addrs = MemoryRead r (mvp1_ctx m) in
      rbind (if length addrs \<noteq> 0
             then rbind (getFromMemory (Memory (mvp1_ctx m)) addrs) (\<lambda>memory.
                  Inr (memory, mvp1_spend mvp1_cyclesMemoryAccess m))
             else Inr ([], m)) (\<lambda>(memory, m).
      rbind (Run r (mvp1_ctx m) (Labels app) pc memory) (\<lambda>(ctx, exe).
      Inr (exe, InstructionTypeOf r,
        mvp1_spend (Cycles (InstructionTypeOf r)) (m\<lparr>mvp1_ctx := ctx\<rparr>)))))"

text \<open>The end of the loop body: the architectural write.\<close>

definition mvp1_write :: "mvp1 \<Rightarrow> Execution \<Rightarrow> mvp1 result" where
  "mvp1_write m exe =
     (if RegisterChange exe
      then Inr (mvp1_spend mvp1_cyclesRegisterAccess (m\<lparr>mvp1_ctx := WriteRegister (mvp1_ctx m) exe\<rparr>))
      else if MemoryChange exe
      then rbind (WriteMemory (mvp1_ctx m) exe) (\<lambda>ctx.
           Inr (mvp1_spend mvp1_cyclesMemoryAccess (m\<lparr>mvp1_ctx := ctx\<rparr>)))
      else Inr m)"

definition mvp1_step :: "app \<Rightarrow> int32 \<times> mvp1 \<Rightarrow> (int32 \<times> mvp1, mvp1) outcome result" where
  "mvp1_step app s =
     (case s of (pc, m) \<Rightarrow>
        if pc_in_app app pc
        then (let (nextPc, m) = mvp1_fetchInstruction m pc in
              rbind (mvp1_decode m app nextPc) (\<lambda>(i, m).
              rbind (mvp1_execute m app i nextPc) (\<lambda>(exe, ins, m).
              if Return exe then Inr (Done m)
              else rbind (mvp1_write m exe) (\<lambda>m. Inr (Continue (next_pc exe pc, m))))))
        else if map_get (Registers (mvp1_ctx m)) Ra \<noteq> 0
        then Inr (Continue (0, m\<lparr>mvp1_ctx := (mvp1_ctx m)
               \<lparr>Registers := (Registers (mvp1_ctx m))(Ra \<mapsto> 0)\<rparr>\<rparr>))
        else Inr (Done m))"

text \<open>\<open>Run\<close> returns the cycle counter; the context is the processor's.\<close>

definition mvp1_Run :: "nat \<Rightarrow> mvp1 \<Rightarrow> app \<Rightarrow> mvp1 result option" where
  "mvp1_Run fuel m app = run_loop (mvp1_step app) fuel (0, m)"

section \<open>MVP-1 follows the architecture\<close>

lemma mvp1_spend_simps [simp]:
  "mvp1_ctx (mvp1_spend k m) = mvp1_ctx m"
  "mvp1_cycle (mvp1_spend k m) = mvp1_cycle m + k"
  by (simp_all add: mvp1_spend_def)

lemma mvp1_write_result:
  "rel_sum (=) (\<lambda>m' ctx. mvp1_ctx m' = ctx
      \<and> mvp1_cycle m' = mvp1_cycle m + (if RegisterChange exe then 1 else if MemoryChange exe then 50 else 0))
    (mvp1_write m exe) (write_back (mvp1_ctx m) exe)"
  by (cases "WriteMemory (mvp1_ctx m) exe") (simp_all add: mvp1_write_def write_back_def)

text \<open>The whole body but for the write: the same context and execution, at a known cost.\<close>

definition mvp1_front_cost :: "instr \<Rightarrow> int" where
  "mvp1_front_cost i =
     50 + 1 + (if IsMemoryRead (instructionType i) then 50 else 0) + Cycles (instructionType i)"

definition mvp1_front :: "app \<Rightarrow> int32 \<Rightarrow> mvp1 \<Rightarrow> (Execution \<times> mvp1) result" where
  "mvp1_front app pc m =
     rbind (mvp1_decode (snd (mvp1_fetchInstruction m pc)) app pc) (\<lambda>(i, m).
     rbind (mvp1_execute m app i pc) (\<lambda>(exe, ins, m). Inr (exe, m)))"

lemma mvp1_step_front:
  "pc_in_app app pc \<Longrightarrow> mvp1_step app (pc, m) =
    rbind (mvp1_front app pc m) (\<lambda>(exe, m).
      if Return exe then Inr (Done m)
      else rbind (mvp1_write m exe) (\<lambda>m. Inr (Continue (next_pc exe pc, m))))"
  by (auto simp: mvp1_step_def mvp1_front_def mvp1_fetchInstruction_def split: prod.splits
      intro!: rbind_cong)

lemma mvp1_front_result:
  "rel_sum (=) (\<lambda>(exe, m') (ctx, exe'). exe = exe' \<and> mvp1_ctx m' = ctx \<and>
      (\<exists>i. instruction_at app pc = Inr i \<and>
        (\<exists>ctx' memory. Run (runner i noForward) ctx' (Labels app) pc memory = Inr (ctx, exe)) \<and>
        mvp1_cycle m' = mvp1_cycle m + mvp1_front_cost i))
    (mvp1_front app pc m) (arch_execute app pc (mvp1_ctx m))"
proof (cases "instruction_at app pc")
  case (Inl e)
  then show ?thesis
    by (simp add: mvp1_front_def mvp1_decode_def mvp1_fetchInstruction_def arch_execute_def)
next
  case (Inr i)
  let ?addrs = "MemoryRead (runner i noForward) (mvp1_ctx m)"
  show ?thesis
  proof (cases "getFromMemory (Memory (mvp1_ctx m)) ?addrs")
    case (Inl e)
    then have "?addrs \<noteq> []" by auto
    with Inl Inr show ?thesis
      by (simp add: mvp1_front_def mvp1_decode_def mvp1_fetchInstruction_def arch_execute_def
          mvp1_execute_def Let_def)
  next
    case memory: (Inr memory)
    show ?thesis
    proof (cases "Run (runner i noForward) (mvp1_ctx m) (Labels app) pc memory")
      case (Inl e)
      with memory Inr show ?thesis
        by (auto simp: mvp1_front_def mvp1_decode_def mvp1_fetchInstruction_def
            arch_execute_def mvp1_execute_def Let_def)
    next
      case run: (Inr r)
      then have "\<exists>ctx' memory. Run (runner i noForward) ctx' (Labels app) pc memory = Inr r"
        by blast
      with run show ?thesis
        using memory Inr memory_read_class [of i noForward "mvp1_ctx m"]
        by (cases r) (auto simp: mvp1_front_def mvp1_decode_def mvp1_fetchInstruction_def
            arch_execute_def mvp1_execute_def mvp1_front_cost_def Let_def)
    qed
  qed
qed

text \<open>
  The relation: same program counter and context, and at most 152 cycles for each step since the
  counter was \<open>c\<close> (a load: fetch 50, decode 1, memory 50, execution 50, register 1).
\<close>

definition mvp1_sim :: "int \<Rightarrow> nat \<Rightarrow> int32 \<times> mvp1 \<Rightarrow> arch \<Rightarrow> bool" where
  "mvp1_sim c k s t \<longleftrightarrow> fst s = fst t \<and> mvp1_ctx (snd s) = snd t
     \<and> c \<le> mvp1_cycle (snd s) \<and> mvp1_cycle (snd s) \<le> c + 152 * int k"

definition mvp1_res :: "int \<Rightarrow> nat \<Rightarrow> mvp1 \<Rightarrow> Context \<Rightarrow> bool" where
  "mvp1_res c k m ctx \<longleftrightarrow> mvp1_ctx m = ctx \<and> c \<le> mvp1_cycle m \<and> mvp1_cycle m \<le> c + 152 * int k"

lemma mvp1_front_cost_ge: "52 \<le> mvp1_front_cost i"
  using Cycles_positive [of "instructionType i"] by (simp add: mvp1_front_cost_def)

lemma mvp1_step_cost:
  assumes "Run (runner i f) ctx' labels pc memory = Inr (ctx, exe)"
  shows "mvp1_front_cost i + (if RegisterChange exe then 1 else if MemoryChange exe then 50 else 0)
    \<le> 152"
  using assms Cycles_le [of "instructionType i"] run_class(1,3) [OF assms]
  by (auto simp: mvp1_front_cost_def instruction_class_defs)

lemma mvp1_lockstep:
  assumes "mvp1_sim c k s t"
  shows "rel_sum (=) (rel_outcome (mvp1_sim c (Suc k)) (mvp1_res c (Suc k)))
    (mvp1_step app s) (arch_step finish_return app t)"
proof -
  obtain pc m where s: "s = (pc, m)" by force
  with assms have t: "t = (pc, mvp1_ctx m)"
    and cost: "c \<le> mvp1_cycle m" "mvp1_cycle m \<le> c + 152 * int k"
    by (auto simp: mvp1_sim_def prod_eq_iff)
  show ?thesis
  proof (cases "pc_in_app app pc")
    case False
    with cost show ?thesis
      by (simp add: s t mvp1_step_def arch_step_def finish_return_def mvp1_sim_def mvp1_res_def)
  next
    case True
    have "rel_sum (=) (rel_outcome (mvp1_sim c (Suc k)) (mvp1_res c (Suc k)))
        (rbind (mvp1_front app pc m) (\<lambda>(exe, m). if Return exe then Inr (Done m)
          else rbind (mvp1_write m exe) (\<lambda>m. Inr (Continue (next_pc exe pc, m)))))
        (rbind (arch_execute app pc (mvp1_ctx m)) (\<lambda>(ctx, exe). if Return exe then Inr (Done ctx)
          else rbind (write_back ctx exe) (\<lambda>ctx. Inr (Continue (next_pc exe pc, ctx)))))"
      apply (rule rel_rbind [OF mvp1_front_result], clarsimp, intro conjI impI)
      subgoal for exe m1 i
        using cost mvp1_front_cost_ge [of i]
        by (auto dest!: mvp1_step_cost simp: mvp1_res_def split: if_splits)
      subgoal for exe m1 i
        apply (rule rel_rbind [OF mvp1_write_result])
        using cost mvp1_front_cost_ge [of i]
        by (auto dest!: mvp1_step_cost simp: mvp1_sim_def split: if_splits)
      done
    with True show ?thesis
      by (simp add: s t mvp1_step_front arch_step_def)
  qed
qed

interpretation mvp1_arch: lockstep "mvp1_step app" "arch_step finish_return app" "mvp1_sim c"
    "mvp1_res c" for app c
  by unfold_locales (rule mvp1_lockstep)

text \<open>A run of MVP-1 against the architecture.\<close>

lemma mvp1_run_arch:
  "rel_option (rel_sum (=) (\<lambda>m ctx. mvp1_ctx m = ctx
      \<and> mvp1_cycle cpu \<le> mvp1_cycle m \<and> mvp1_cycle m \<le> mvp1_cycle cpu + 152 * int n))
    (mvp1_Run n cpu app) (run_loop (arch_step finish_return app) n (0, mvp1_ctx cpu))"
proof -
  have "mvp1_sim (mvp1_cycle cpu) 0 (0, cpu) (0, mvp1_ctx cpu)"
    by (simp add: mvp1_sim_def)
  from mvp1_arch.runs_agree [OF this, of n app] show ?thesis
    unfolding mvp1_Run_def
    by (rule option.rel_mono_strong, elim rel_sum.cases)
      (force simp: mvp1_res_def intro: order_trans)+
qed

text \<open>The facts that evaluate a run on a concrete program.\<close>

lemmas machine_eval =
  pc_in_app_def instruction_at_def quot32_def word_sless_alt run_defs NewContext_def
  WriteRegister_def registerRead_def noForward_def next_pc_def go_index_def eval_nat_numeral

lemmas mvp1_eval =
  mvp1_Run_def mvp1_NewCPU_def mvp1_step_def mvp1_fetchInstruction_def mvp1_decode_def
  mvp1_execute_def mvp1_write_def mvp1_spend_def machine_eval

end
