(* ===== verification/Mvp2.thy ===== *)
theory Mvp2
  imports Mvp1
begin

text \<open>
  MVP-2 (\<open>src/proc/mvp2/cpu.go\<close>): MVP-1 with a one-line instruction cache, kept as the range of
  its addresses. The range is closed: a line of 64 bytes covers 17 instructions.
\<close>

section \<open>The processor\<close>

definition mvp2_cyclesL1Access :: int where "mvp2_cyclesL1Access = 1"
definition mvp2_cyclesMemoryAccess :: int where "mvp2_cyclesMemoryAccess = 50 + mvp2_cyclesL1Access"
definition mvp2_cyclesRegisterAccess :: int where "mvp2_cyclesRegisterAccess = 1"
definition mvp2_cyclesDecode :: int where "mvp2_cyclesDecode = 1"
definition mvp2_l1iSize :: int32 where "mvp2_l1iSize = 64"

lemmas mvp2_costs [simp] =
  mvp2_cyclesL1Access_def mvp2_l1iSize_def mvp2_cyclesMemoryAccess_def
  mvp2_cyclesRegisterAccess_def mvp2_cyclesDecode_def

record mvp2 =
  mvp2_ctx :: Context
  mvp2_cycle :: int
  li1From :: int32
  li1To :: int32

definition mvp2_NewCPU :: "bool \<Rightarrow> nat \<Rightarrow> mvp2" where
  "mvp2_NewCPU debug memoryBytes = \<lparr>mvp2_ctx = NewContext debug memoryBytes, mvp2_cycle = 0,
     li1From = -1, li1To = -1\<rparr>"

definition mvp2_spend :: "int \<Rightarrow> mvp2 \<Rightarrow> mvp2" where
  "mvp2_spend k m = m\<lparr>mvp2_cycle := mvp2_cycle m + k\<rparr>"

definition isPresentInL1i :: "mvp2 \<Rightarrow> int32 \<Rightarrow> bool" where
  "isPresentInL1i m pc = (li1From m <=s pc \<and> pc <=s li1To m)"

definition fetchL1i :: "mvp2 \<Rightarrow> int32 \<Rightarrow> mvp2" where
  "fetchL1i m pc =
     (mvp2_spend mvp2_cyclesMemoryAccess m)\<lparr>li1From := pc, li1To := pc + mvp2_l1iSize\<rparr>"

definition mvp2_fetchInstruction :: "mvp2 \<Rightarrow> int32 \<Rightarrow> int32 \<times> mvp2" where
  "mvp2_fetchInstruction m pc =
     (pc, if isPresentInL1i m pc then mvp2_spend mvp2_cyclesL1Access m else fetchL1i m pc)"

definition mvp2_decode :: "mvp2 \<Rightarrow> app \<Rightarrow> int32 \<Rightarrow> (instr \<times> mvp2) result" where
  "mvp2_decode m app pc =
     rbind (instruction_at app pc) (\<lambda>r. Inr (r, mvp2_spend mvp2_cyclesDecode m))"

definition mvp2_execute :: "mvp2 \<Rightarrow> app \<Rightarrow> instr \<Rightarrow> int32 \<Rightarrow>
    (Execution \<times> InstructionType \<times> mvp2) result" where
  "mvp2_execute m app i pc =
     (let r = runner i noForward; addrs = MemoryRead r (mvp2_ctx m) in
      rbind (if length addrs \<noteq> 0
             then rbind (getFromMemory (Memory (mvp2_ctx m)) addrs) (\<lambda>memory.
                  Inr (memory, mvp2_spend mvp2_cyclesMemoryAccess m))
             else Inr ([], m)) (\<lambda>(memory, m).
      rbind (Run r (mvp2_ctx m) (Labels app) pc memory) (\<lambda>(ctx, exe).
      Inr (exe, InstructionTypeOf r,
        mvp2_spend (Cycles (InstructionTypeOf r)) (m\<lparr>mvp2_ctx := ctx\<rparr>)))))"

text \<open>The end of the loop body: the architectural write.\<close>

definition mvp2_write :: "mvp2 \<Rightarrow> Execution \<Rightarrow> mvp2 result" where
  "mvp2_write m exe =
     (if RegisterChange exe
      then Inr (mvp2_spend mvp2_cyclesRegisterAccess (m\<lparr>mvp2_ctx := WriteRegister (mvp2_ctx m) exe\<rparr>))
      else if MemoryChange exe
      then rbind (WriteMemory (mvp2_ctx m) exe) (\<lambda>ctx.
           Inr (mvp2_spend mvp2_cyclesMemoryAccess (m\<lparr>mvp2_ctx := ctx\<rparr>)))
      else Inr m)"

definition mvp2_step :: "app \<Rightarrow> int32 \<times> mvp2 \<Rightarrow> (int32 \<times> mvp2, mvp2) outcome result" where
  "mvp2_step app s =
     (case s of (pc, m) \<Rightarrow>
        if pc_in_app app pc
        then (let (nextPc, m) = mvp2_fetchInstruction m pc in
              rbind (mvp2_decode m app nextPc) (\<lambda>(i, m).
              rbind (mvp2_execute m app i pc) (\<lambda>(exe, ins, m).
              if Return exe then Inr (Done m)
              else rbind (mvp2_write m exe) (\<lambda>m. Inr (Continue (next_pc exe pc, m))))))
        else if map_get (Registers (mvp2_ctx m)) Ra \<noteq> 0
        then Inr (Continue (0, m\<lparr>mvp2_ctx := (mvp2_ctx m)
               \<lparr>Registers := (Registers (mvp2_ctx m))(Ra \<mapsto> 0)\<rparr>\<rparr>))
        else Inr (Done m))"

text \<open>\<open>Run\<close> returns the cycle counter; the context is the processor's.\<close>

definition mvp2_Run :: "nat \<Rightarrow> mvp2 \<Rightarrow> app \<Rightarrow> mvp2 result option" where
  "mvp2_Run fuel m app = run_loop (mvp2_step app) fuel (0, m)"

section \<open>MVP-2 follows MVP-1\<close>

lemma mvp2_spend_simps [simp]:
  "mvp2_ctx (mvp2_spend k m) = mvp2_ctx m"
  "mvp2_cycle (mvp2_spend k m) = mvp2_cycle m + k"
  "li1From (mvp2_spend k m) = li1From m"
  "li1To (mvp2_spend k m) = li1To m"
  by (simp_all add: mvp2_spend_def)

lemma mvp2_fetch_result:
  "fst (mvp2_fetchInstruction m pc) = pc"
  "mvp2_ctx (snd (mvp2_fetchInstruction m pc)) = mvp2_ctx m"
  "mvp2_cycle (snd (mvp2_fetchInstruction m pc)) =
     mvp2_cycle m + (if isPresentInL1i m pc then 1 else 51)"
  by (simp_all add: mvp2_fetchInstruction_def fetchL1i_def)

text \<open>
  The relation: the same program counter and context; for each step the difference of the counters
  changes by at least \<open>-49\<close> (an instruction fetch that hits) and at most 2 (a fetch and a memory
  access that pay for the cache).
\<close>

definition cost_diff :: "int \<Rightarrow> nat \<Rightarrow> mvp2 \<Rightarrow> mvp1 \<Rightarrow> bool" where
  "cost_diff d k m2 m1 \<longleftrightarrow>
     d - 49 * int k \<le> mvp2_cycle m2 - mvp1_cycle m1 \<and> mvp2_cycle m2 - mvp1_cycle m1 \<le> d + 2 * int k"

definition mvp2_res :: "int \<Rightarrow> nat \<Rightarrow> mvp2 \<Rightarrow> mvp1 \<Rightarrow> bool" where
  "mvp2_res d k m2 m1 \<longleftrightarrow> mvp2_ctx m2 = mvp1_ctx m1 \<and> cost_diff d k m2 m1"

definition mvp2_sim :: "int \<Rightarrow> nat \<Rightarrow> int32 \<times> mvp2 \<Rightarrow> int32 \<times> mvp1 \<Rightarrow> bool" where
  "mvp2_sim d k s t \<longleftrightarrow> fst s = fst t \<and> mvp2_res d k (snd s) (snd t)"

text \<open>The stages one by one: the costs differ, the contexts do not.\<close>

lemma mvp2_decode_follows:
  assumes "mvp2_ctx m2 = mvp1_ctx m1"
  shows "rel_sum (=) (\<lambda>(i, m2') (j, m1'). i = j \<and> mvp2_ctx m2' = mvp1_ctx m1'
      \<and> mvp2_cycle m2' - mvp1_cycle m1' = mvp2_cycle m2 - mvp1_cycle m1)
    (mvp2_decode m2 app pc) (mvp1_decode m1 app pc)"
  using assms by (cases "instruction_at app pc") (simp_all add: mvp2_decode_def mvp1_decode_def)

lemma mvp2_execute_follows:
  assumes "mvp2_ctx m2 = mvp1_ctx m1"
  shows "rel_sum (=) (\<lambda>(exe, ins, m2') (exe', ins', m1'). exe = exe' \<and> ins = ins'
      \<and> mvp2_ctx m2' = mvp1_ctx m1'
      \<and> (MemoryChange exe \<longrightarrow> \<not> IsMemoryRead (instructionType i))
      \<and> mvp2_cycle m2' - mvp1_cycle m1' = mvp2_cycle m2 - mvp1_cycle m1
          + (if IsMemoryRead (instructionType i) then 1 else 0))
    (mvp2_execute m2 app i pc) (mvp1_execute m1 app i pc)"
proof -
  let ?addrs = "MemoryRead (runner i noForward) (mvp1_ctx m1)"
  have reads: "?addrs = [] \<longleftrightarrow> \<not> IsMemoryRead (instructionType i)"
    using memory_read_class [of i noForward] by auto
  have stores: "MemoryChange exe \<longrightarrow> \<not> IsMemoryRead (instructionType i)"
    if "Run (runner i noForward) ctx labels pc memory = Inr (ctx', exe)" for ctx labels memory ctx' exe
    using run_class(1) [OF that] by (auto simp: instruction_class_defs)
  show ?thesis
  proof (cases "getFromMemory (Memory (mvp1_ctx m1)) ?addrs")
    case (Inl e)
    then have "?addrs \<noteq> []" by auto
    with Inl assms show ?thesis
      by (simp add: mvp2_execute_def mvp1_execute_def Let_def)
  next
    case (Inr memory)
    then have "?addrs = [] \<Longrightarrow> memory = []" by simp
    with Inr assms reads stores show ?thesis
      by (cases "Run (runner i noForward) (mvp1_ctx m1) (Labels app) pc memory")
        (auto simp: mvp2_execute_def mvp1_execute_def Let_def)
  qed
qed

lemma mvp2_write_follows:
  assumes "mvp2_ctx m2 = mvp1_ctx m1"
  shows "rel_sum (=) (\<lambda>m2' m1'. mvp2_ctx m2' = mvp1_ctx m1'
      \<and> mvp2_cycle m2' - mvp1_cycle m1' = mvp2_cycle m2 - mvp1_cycle m1
          + (if \<not> RegisterChange exe \<and> MemoryChange exe then 1 else 0))
    (mvp2_write m2 exe) (mvp1_write m1 exe)"
  using assms
  by (cases "WriteMemory (mvp1_ctx m1) exe") (simp_all add: mvp2_write_def mvp1_write_def)

lemma mvp2_lockstep:
  assumes "mvp2_sim d k s t"
  shows "rel_sum (=) (rel_outcome (mvp2_sim d (Suc k)) (mvp2_res d (Suc k)))
    (mvp2_step app s) (mvp1_step app t)"
proof -
  obtain pc m2 m1 where s: "s = (pc, m2)" and t: "t = (pc, m1)"
    and ctx: "mvp2_ctx m2 = mvp1_ctx m1" and cost: "cost_diff d k m2 m1"
    using assms by (cases s; cases t) (auto simp: mvp2_sim_def mvp2_res_def)
  show ?thesis
  proof (cases "pc_in_app app pc")
    case False
    with ctx cost show ?thesis
      by (simp add: s t mvp2_step_def mvp1_step_def mvp2_sim_def mvp2_res_def cost_diff_def)
  next
    case True
    obtain f2 f1 where fetch: "mvp2_fetchInstruction m2 pc = (pc, f2)"
      "mvp1_fetchInstruction m1 pc = (pc, f1)"
      using mvp2_fetch_result(1) [of m2 pc] by (cases "mvp2_fetchInstruction m2 pc")
        (simp add: mvp1_fetchInstruction_def)
    then have f_ctx: "mvp2_ctx f2 = mvp1_ctx f1" and f_cost:
      "mvp2_cycle f2 - mvp1_cycle f1 \<in> {mvp2_cycle m2 - mvp1_cycle m1 - 49, mvp2_cycle m2 - mvp1_cycle m1 + 1}"
      using ctx mvp2_fetch_result(2,3) [of m2 pc] by (auto simp: mvp1_fetchInstruction_def)
    have "rel_sum (=) (rel_outcome (mvp2_sim d (Suc k)) (mvp2_res d (Suc k)))
        (rbind (mvp2_decode f2 app pc) (\<lambda>(i, m).
          rbind (mvp2_execute m app i pc) (\<lambda>(exe, ins, m).
          if Return exe then Inr (Done m)
          else rbind (mvp2_write m exe) (\<lambda>m. Inr (Continue (next_pc exe pc, m))))))
        (rbind (mvp1_decode f1 app pc) (\<lambda>(i, m).
          rbind (mvp1_execute m app i pc) (\<lambda>(exe, ins, m).
          if Return exe then Inr (Done m)
          else rbind (mvp1_write m exe) (\<lambda>m. Inr (Continue (next_pc exe pc, m))))))"
      apply (rule rel_rbind [OF mvp2_decode_follows [OF f_ctx]], clarsimp)
      apply (rule rel_rbind [OF mvp2_execute_follows], assumption, clarsimp, intro conjI impI)
      subgoal using cost f_cost by (auto simp: mvp2_res_def cost_diff_def split: if_splits)
      subgoal
        apply (rule rel_rbind [OF mvp2_write_follows], assumption)
        using cost f_cost
        by (auto simp: mvp2_sim_def mvp2_res_def cost_diff_def split: if_splits)
      done
    then show ?thesis
      using True by (simp add: s t mvp2_step_def mvp1_step_def fetch)
  qed
qed

interpretation mvp2_mvp1: lockstep "mvp2_step app" "mvp1_step app" "mvp2_sim d" "mvp2_res d" for app d
  by unfold_locales (rule mvp2_lockstep)

lemma mvp2_run_mvp1:
  assumes "mvp2_ctx m2 = mvp1_ctx m1"
  shows "rel_option (rel_sum (=) (\<lambda>n2 n1. mvp2_ctx n2 = mvp1_ctx n1
      \<and> - 49 * int n \<le> (mvp2_cycle n2 - mvp1_cycle n1) - (mvp2_cycle m2 - mvp1_cycle m1)
      \<and> (mvp2_cycle n2 - mvp1_cycle n1) - (mvp2_cycle m2 - mvp1_cycle m1) \<le> 2 * int n))
    (mvp2_Run n m2 app) (mvp1_Run n m1 app)"
proof -
  have "mvp2_sim (mvp2_cycle m2 - mvp1_cycle m1) 0 (0, m2) (0, m1)"
    using assms by (simp add: mvp2_sim_def mvp2_res_def cost_diff_def)
  from mvp2_mvp1.runs_agree [OF this, of n app] show ?thesis
    unfolding mvp2_Run_def mvp1_Run_def
    by (rule option.rel_mono_strong, elim rel_sum.cases)
      (force simp: mvp2_res_def cost_diff_def)+
qed

text \<open>After a fetch the line covers the 17 instructions from \<open>pc\<close> on: one more than 64 bytes hold.\<close>

lemma fetchL1i_covers:
  assumes "k \<le> 16" and "sint pc + 64 < 2 ^ 31"
  shows "isPresentInL1i (fetchL1i m pc) (pc + of_nat (4 * k))"
proof -
  have "sint (pc + of_nat (4 * k)) = sint pc + int (4 * k)"
    using assms sint32_range [of pc] sint32_of_nat [of "4 * k"]
    by (subst sint32_add_exact) (simp_all del: of_nat_mult)
  moreover have "sint (pc + 64) = sint pc + 64"
    using assms sint32_range [of pc] by (simp add: sint32_add_exact)
  ultimately show ?thesis
    using assms(1) by (simp add: isPresentInL1i_def fetchL1i_def word_sle_eq del: of_nat_mult)
qed

end
