(* ===== verification/DataCache.thy ===== *)
theory DataCache
  imports Mmu
begin

text \<open>
  Loads and stores through the data cache, as MVP-3 and the pipelines use it, under the discipline
  that avoids the flaws of the cache: a line is pushed into free room, and a store lies inside one
  line or touches none.
\<close>

section \<open>The discipline\<close>

text \<open>A load is disciplined if it hits or its line has room; a store, if it lies inside one line or
  touches none.\<close>

definition load_disciplined :: "memoryManagementUnit \<Rightarrow> int32 list \<Rightarrow> bool" where
  "load_disciplined u addrs \<longleftrightarrow>
     list_all (\<lambda>a. view u a \<noteq> None) addrs \<or> cache_room (l1d u) (hd addrs)"

definition store_disciplined :: "memoryManagementUnit \<Rightarrow> int32 list \<Rightarrow> bool" where
  "store_disciplined u addrs \<longleftrightarrow>
     list_all (\<lambda>a. view u a = None) addrs \<or> cache_within (l1d u) (hd addrs) (length addrs)"

lemma same_l1d:
  assumes "l1d u' = l1d u"
  shows "view u' = view u" and "seen u' mem = seen u mem"
    and "load_disciplined u' = load_disciplined u" and "store_disciplined u' = store_disciplined u"
  using assms by (simp_all add: view_def seen_def load_disciplined_def [abs_def]
      store_disciplined_def [abs_def])

section \<open>Loads\<close>

text \<open>What \<open>getFromL1D\<close> returns on a hit are the bytes that the program sees.\<close>

lemma load_hit:
  assumes "\<forall>x \<in> set addrs. view u x \<noteq> None" and "getFromMemory (seen u mem) addrs = Inr vs"
  shows "those (map (view u) addrs) = Some vs"
proof -
  have range: "\<forall>x \<in> set addrs. 0 \<le> sint x \<and> sint x < int (length mem)"
    and vs: "vs = map (\<lambda>x. seen u mem ! nat (sint x)) addrs"
    using assms(2) by (simp_all add: getFromMemory_eq)
  then have "\<forall>x \<in> set addrs. view u x = Some (seen u mem ! nat (sint x))"
    using assms(1) by (auto simp: nth_seen_word)
  then show ?thesis
    by (auto simp: those_Some vs)
qed

lemma load_miss_None:
  "\<not> (\<forall>x \<in> set addrs. view u x \<noteq> None) \<Longrightarrow> those (map (view u) addrs) = None"
  by (cases "those (map (view u) addrs)") (auto simp: those_Some)

text \<open>After a miss, the line is fetched and pushed and the bytes are read from the cache.\<close>

lemma load_miss:
  assumes "mmu_ok u mem" and "addrs = consecutive a n" and "n \<le> 64" and "cache_room (l1d u) a"
    and "getFromMemory (seen u mem) addrs = Inr vs"
  shows "\<exists>line u1 u2. fetchCacheLine mem a = Inr line \<and> pushLineToL1D u mem a line = Inr (u1, mem)
    \<and> getFromL1D u1 addrs = Inr (Some vs, u2) \<and> mmu_ok u2 mem \<and> seen u2 mem = seen u mem"
proof -
  from fetch_push [OF assms(1,4)] obtain line u1 where
    u1: "fetchCacheLine mem a = Inr line" "pushLineToL1D u mem a line = Inr (u1, mem)"
      "mmu_ok u1 mem" "seen u1 mem = seen u mem"
      "\<forall>x. sint a \<le> sint x \<and> sint x < sint a + 64 \<longrightarrow> view u1 x \<noteq> None"
    by blast
  have range: "\<forall>x \<in> set addrs. 0 \<le> sint x \<and> sint x < int (length mem)"
    using assms(5) by (simp add: getFromMemory_eq)
  have "\<forall>x \<in> set addrs. view u1 x \<noteq> None"
  proof
    fix x
    assume "x \<in> set addrs"
    then obtain k where k: "x = a + of_nat k" "k < n"
      by (auto simp: assms(2) consecutive_def)
    then have "sint x = sint a + int k"
      using consecutive_sint [of a n k] range assms(2) by simp
    with u1(5) k(2) assms(3) show "view u1 x \<noteq> None" by simp
  qed
  moreover have "getFromMemory (seen u1 mem) addrs = Inr vs"
    using assms(5) u1(4) by simp
  ultimately have "those (map (view u1) addrs) = Some vs"
    by (rule load_hit)
  with getFromL1D_result [OF u1(3), of addrs] obtain u2 where
    "getFromL1D u1 addrs = Inr (Some vs, u2)" "mmu_ok u2 mem" "view u2 = view u1"
    by auto
  with u1 seen_cong [of u2 u1 mem] show ?thesis
    by metis
qed

section \<open>Stores\<close>

text \<open>A disciplined store hits with all its bytes, and then the cache takes it, or with none.\<close>

lemma store_cases:
  assumes "mmu_ok u mem" and "map fst (MemoryChanges exe) = consecutive a (Suc n)"
    and "store_all (MemoryChanges exe) (seen u mem) = Inr mem'"
    and "store_disciplined u (map fst (MemoryChanges exe))"
  obtains (hit) u1 u2 where "doesExecutionMemoryChangesExistsInL1D u exe = Inr (True, u1)"
      and "\<forall>x \<in> set (map fst (MemoryChanges exe)). view u x \<noteq> None"
      and "writeExecutionMemoryChangesToL1D u1 exe = Inr u2" and "mmu_ok u2 mem" and "seen u2 mem = mem'"
      and "\<forall>x. (view u2 x = None) = (view u x = None)"
    | (miss) u1 where "doesExecutionMemoryChangesExistsInL1D u exe = Inr (False, u1)"
      and "\<forall>x \<in> set (map fst (MemoryChanges exe)). view u x = None"
      and "mmu_ok u1 mem" and "view u1 = view u"
proof -
  let ?kvs = "MemoryChanges exe"
  from changes_exist [OF assms(1), of exe] obtain u1 where
    u1: "doesExecutionMemoryChangesExistsInL1D u exe =
        Inr (\<forall>x \<in> set (map fst ?kvs). view u x \<noteq> None, u1)"
      "mmu_ok u1 mem" "view u1 = view u" "cache_within (l1d u1) = cache_within (l1d u)"
    by blast
  have first: "hd (map fst ?kvs) = a" "length (map fst ?kvs) = Suc n" "a \<in> set (map fst ?kvs)"
    unfolding assms(2) by (simp_all add: consecutive_Suc)
  have range: "\<forall>x \<in> set (map fst ?kvs). 0 \<le> sint x"
    using assms(3) store_all_in_range [of ?kvs "seen u mem"] by auto
  have inside: "view u x \<noteq> None"
    if "cache_within (l1d u) a (Suc n)" "x \<in> set (map fst ?kvs)" for x
  proof -
    from that(2) obtain k where k: "x = a + of_nat k" "k < Suc n"
      unfolding assms(2) by (auto simp: consecutive_def)
    then have "sint x = sint a + int k"
      using consecutive_sint [of a "Suc n" k] range unfolding assms(2) by simp
    with cache_within_cached [OF that(1), of x] k(2) show ?thesis
      by (simp add: view_def)
  qed
  show ?thesis
  proof (cases "\<forall>x \<in> set (map fst ?kvs). view u x \<noteq> None")
    case True
    then have "cache_within (l1d u1) a (Suc n)"
      using assms(4) first u1(4) by (auto simp: store_disciplined_def list_all_iff)
    moreover have "store_all ?kvs (seen u1 mem) = Inr mem'"
      using assms(3) seen_cong [OF u1(3)] by simp
    ultimately obtain u2 where
      u2: "writeExecutionMemoryChangesToL1D u1 exe = Inr u2" "mmu_ok u2 mem" "seen u2 mem = mem'"
        "\<forall>x. (view u2 x = None) = (view u1 x = None)"
      using store_hit [OF u1(2) assms(2)] by blast
    with hit True u1 show ?thesis by simp
  next
    case False
    then have "\<not> cache_within (l1d u) a (Suc n)"
      using inside by blast
    then have "\<forall>x \<in> set (map fst ?kvs). view u x = None"
      using assms(4) first(1,2) by (simp add: store_disciplined_def list_all_iff)
    with miss False u1 show ?thesis by simp
  qed
qed

end
