(* ===== verification/Mvp3.thy ===== *)
theory Mvp3
  imports Machine DataCache
begin

text \<open>
  MVP-3 (\<open>src/proc/mvp3/cpu.go\<close>): no pipeline, an instruction and a data cache behind the memory
  management unit of \<open>Mmu\<close>, written back at the end of the run. The processor follows the
  architecture as long as the run is \<open>disciplined\<close>: every data line is pushed into free room, and
  a store lies inside one line or touches none.
\<close>

section \<open>The processor\<close>

definition mvp3_cyclesL1Access :: int where "mvp3_cyclesL1Access = 1"
definition mvp3_cyclesMemoryAccess :: int where "mvp3_cyclesMemoryAccess = 50 + mvp3_cyclesL1Access"
definition mvp3_cyclesRegisterAccess :: int where "mvp3_cyclesRegisterAccess = 1"
definition mvp3_cyclesDecode :: int where "mvp3_cyclesDecode = 1"

record mvp3 =
  mvp3_ctx :: Context
  mvp3_cycle :: int
  mvp3_mmu :: memoryManagementUnit

definition mvp3_NewCPU :: "bool \<Rightarrow> nat \<Rightarrow> mvp3 result" where
  "mvp3_NewCPU debug memoryBytes =
     rbind newMemoryManagementUnit (\<lambda>u.
     Inr \<lparr>mvp3_ctx = NewContext debug memoryBytes, mvp3_cycle = 0, mvp3_mmu = u\<rparr>)"

definition mvp3_spend :: "int \<Rightarrow> mvp3 \<Rightarrow> mvp3" where
  "mvp3_spend k m = m\<lparr>mvp3_cycle := mvp3_cycle m + k\<rparr>"

definition mvp3_fetchInstruction :: "mvp3 \<Rightarrow> int32 \<Rightarrow> (int32 \<times> mvp3) result" where
  "mvp3_fetchInstruction m pc =
     rbind (getFromL1I (mvp3_mmu m) [pc]) (\<lambda>(r, u).
     rbind (if r \<noteq> None
            then Inr (mvp3_spend mvp3_cyclesL1Access (m\<lparr>mvp3_mmu := u\<rparr>))
            else rbind (pushLineToL1I u pc (replicate l1ICacheLineSize 0)) (\<lambda>u.
                 Inr (mvp3_spend mvp3_cyclesMemoryAccess (m\<lparr>mvp3_mmu := u\<rparr>)))) (\<lambda>m.
     Inr (pc, m)))"

definition mvp3_decode :: "mvp3 \<Rightarrow> app \<Rightarrow> int32 \<Rightarrow> (instr \<times> mvp3) result" where
  "mvp3_decode m app pc =
     rbind (instruction_at app pc) (\<lambda>r. Inr (r, mvp3_spend mvp3_cyclesDecode m))"

text \<open>The first half of \<open>execute\<close>: the bytes that the instruction reads.\<close>

definition mvp3_load :: "mvp3 \<Rightarrow> int32 list \<Rightarrow> (int8 list \<times> mvp3) result" where
  "mvp3_load m addrs =
     (if length addrs \<noteq> 0
      then rbind (getFromL1D (mvp3_mmu m) addrs) (\<lambda>(r, u). case r of
             Some mem \<Rightarrow> Inr (mem, mvp3_spend mvp3_cyclesL1Access (m\<lparr>mvp3_mmu := u\<rparr>))
           | None \<Rightarrow>
               rbind (fetchCacheLine (Memory (mvp3_ctx m)) (addrs ! 0)) (\<lambda>line.
               rbind (pushLineToL1D u (Memory (mvp3_ctx m)) (addrs ! 0) line) (\<lambda>(u, memory).
               rbind (getFromL1D u addrs) (\<lambda>(r, u). case r of
                 None \<Rightarrow> Inl (Panic CacheLineMissing)
               | Some mem \<Rightarrow>
                   Inr (mem, mvp3_spend (mvp3_cyclesL1Access + mvp3_cyclesMemoryAccess)
                     (m\<lparr>mvp3_mmu := u, mvp3_ctx := (mvp3_ctx m)\<lparr>Memory := memory\<rparr>\<rparr>))))))
      else Inr ([], m))"

definition mvp3_execute :: "mvp3 \<Rightarrow> app \<Rightarrow> instr \<Rightarrow> int32 \<Rightarrow>
    (Execution \<times> InstructionType \<times> mvp3) result" where
  "mvp3_execute m app i pc =
     (let r = runner i noForward in
      rbind (mvp3_load m (MemoryRead r (mvp3_ctx m))) (\<lambda>(memory, m).
      rbind (Run r (mvp3_ctx m) (Labels app) pc memory) (\<lambda>(ctx, exe).
      Inr (exe, InstructionTypeOf r,
        mvp3_spend (Cycles (InstructionTypeOf r)) (m\<lparr>mvp3_ctx := ctx\<rparr>)))))"

text \<open>The end of the loop body: a register, the data cache or the memory is written.\<close>

definition mvp3_write :: "mvp3 \<Rightarrow> Execution \<Rightarrow> mvp3 result" where
  "mvp3_write m exe =
     (if RegisterChange exe
      then Inr (mvp3_spend mvp3_cyclesRegisterAccess (m\<lparr>mvp3_ctx := WriteRegister (mvp3_ctx m) exe\<rparr>))
      else if MemoryChange exe
      then rbind (doesExecutionMemoryChangesExistsInL1D (mvp3_mmu m) exe) (\<lambda>(exists, u).
           if exists
           then rbind (writeExecutionMemoryChangesToL1D u exe) (\<lambda>u.
                Inr (mvp3_spend mvp3_cyclesL1Access (m\<lparr>mvp3_mmu := u\<rparr>)))
           else rbind (WriteMemory (mvp3_ctx m) exe) (\<lambda>ctx.
                Inr (mvp3_spend mvp3_cyclesMemoryAccess (m\<lparr>mvp3_mmu := u, mvp3_ctx := ctx\<rparr>))))
      else Inr m)"

text \<open>\<open>ret\<close> breaks out of the loop; the flush ends both ways.\<close>

definition mvp3_flush :: "mvp3 \<Rightarrow> mvp3 result" where
  "mvp3_flush m =
     rbind (mmu_flush mvp3_cyclesMemoryAccess (mvp3_mmu m) (Memory (mvp3_ctx m))) (\<lambda>(cycles, memory).
     Inr (mvp3_spend cycles (m\<lparr>mvp3_ctx := (mvp3_ctx m)\<lparr>Memory := memory\<rparr>\<rparr>)))"

definition mvp3_step :: "app \<Rightarrow> int32 \<times> mvp3 \<Rightarrow> (int32 \<times> mvp3, mvp3) outcome result" where
  "mvp3_step app s =
     (case s of (pc, m) \<Rightarrow>
        if pc_in_app app pc
        then rbind (mvp3_fetchInstruction m pc) (\<lambda>(nextPc, m).
             rbind (mvp3_decode m app nextPc) (\<lambda>(i, m).
             rbind (mvp3_execute m app i pc) (\<lambda>(exe, ins, m).
             if Return exe then rbind (mvp3_flush m) (\<lambda>m. Inr (Done m))
             else rbind (mvp3_write m exe) (\<lambda>m. Inr (Continue (next_pc exe pc, m))))))
        else rbind (mvp3_flush m) (\<lambda>m. Inr (Done m)))"

definition mvp3_Run :: "nat \<Rightarrow> mvp3 \<Rightarrow> app \<Rightarrow> mvp3 result option" where
  "mvp3_Run fuel m app = run_loop (mvp3_step app) fuel (0, m)"

section \<open>The abstraction\<close>

text \<open>The context that the program sees: cached bytes replace those of the memory.\<close>

definition mvp3_seen :: "mvp3 \<Rightarrow> Context" where
  "mvp3_seen m = (mvp3_ctx m)\<lparr>Memory := seen (mvp3_mmu m) (Memory (mvp3_ctx m))\<rparr>"

definition mvp3_ok :: "mvp3 \<Rightarrow> bool" where
  "mvp3_ok m \<longleftrightarrow> mmu_ok (mvp3_mmu m) (Memory (mvp3_ctx m))"

definition disciplined :: "app \<Rightarrow> int32 \<times> mvp3 \<Rightarrow> bool" where
  "disciplined app s =
     (case s of (pc, m) \<Rightarrow>
        (case instruction_at app pc of
           Inl _ \<Rightarrow> True
         | Inr i \<Rightarrow>
             load_disciplined (mvp3_mmu m) (MemoryRead (runner i noForward) (mvp3_ctx m)) \<and>
             (case Run (runner i noForward) (mvp3_ctx m) (Labels app) pc [] of
                Inl _ \<Rightarrow> True
              | Inr (_, exe) \<Rightarrow> store_disciplined (mvp3_mmu m) (map fst (MemoryChanges exe)))))"

section \<open>The stages\<close>

lemma mvp3_spend_simps [simp]:
  "mvp3_ctx (mvp3_spend k m) = mvp3_ctx m"
  "mvp3_mmu (mvp3_spend k m) = mvp3_mmu m"
  by (simp_all add: mvp3_spend_def)

lemma mvp3_fetch_result:
  assumes "mvp3_ok m"
  shows "\<exists>m'. mvp3_fetchInstruction m pc = Inr (pc, m') \<and> mvp3_ok m' \<and> mvp3_ctx m' = mvp3_ctx m
    \<and> l1d (mvp3_mmu m') = l1d (mvp3_mmu m)"
proof -
  from getFromL1I_single [of "mvp3_mmu m" "Memory (mvp3_ctx m)" pc] assms
  obtain r u where u: "getFromL1I (mvp3_mmu m) [pc] = Inr (r, u)"
    "mmu_ok u (Memory (mvp3_ctx m))" "l1d u = l1d (mvp3_mmu m)"
    by (auto simp: mvp3_ok_def)
  from pushLineToL1I_ok [OF u(2), of pc] u show ?thesis
    by (auto simp: mvp3_fetchInstruction_def mvp3_ok_def)
qed

text \<open>A disciplined load returns what the program sees and leaves that unchanged.\<close>

lemma mvp3_load_result:
  assumes "mvp3_ok m" and "addrs = consecutive a n" and "n \<le> 64"
    and "getFromMemory (Memory (mvp3_seen m)) addrs = Inr vs"
    and "load_disciplined (mvp3_mmu m) addrs"
  shows "\<exists>m'. mvp3_load m addrs = Inr (vs, m') \<and> mvp3_ok m' \<and> mvp3_ctx m' = mvp3_ctx m
    \<and> mvp3_seen m' = mvp3_seen m \<and> (addrs = [] \<longrightarrow> m' = m)"
proof (cases "addrs = []")
  case True
  with assms show ?thesis by (simp add: mvp3_load_def)
next
  case nonempty: False
  let ?mem = "Memory (mvp3_ctx m)"
  have ok: "mmu_ok (mvp3_mmu m) ?mem" using assms(1) by (simp add: mvp3_ok_def)
  have vs: "getFromMemory (seen (mvp3_mmu m) ?mem) addrs = Inr vs"
    using assms(4) by (simp add: mvp3_seen_def)
  from getFromL1D_result [OF ok, of addrs] obtain u where
    u: "getFromL1D (mvp3_mmu m) addrs = Inr (those (map (view (mvp3_mmu m)) addrs), u)"
      "mmu_ok u ?mem" "view u = view (mvp3_mmu m)"
      "cache_room (l1d u) = cache_room (l1d (mvp3_mmu m))"
    by blast
  have same: "seen u ?mem = seen (mvp3_mmu m) ?mem"
    using u(3) by (rule seen_cong)
  show ?thesis
  proof (cases "\<forall>x \<in> set addrs. view (mvp3_mmu m) x \<noteq> None")
    case True
    with load_hit [OF True vs] u(1,2) nonempty same show ?thesis
      by (simp add: mvp3_load_def mvp3_ok_def mvp3_seen_def)
  next
    case miss: False
    obtain n' where "n = Suc n'" using nonempty assms(2) by (cases n) auto
    then have first: "addrs ! 0 = a" "hd addrs = a"
      using assms(2) by (simp_all add: consecutive_Suc)
    have "cache_room (l1d u) a"
      using assms(5) miss u(4) first by (auto simp: load_disciplined_def list_all_iff)
    from load_miss [OF u(2) assms(2,3) this] vs same obtain line u1 u2 where
      "fetchCacheLine ?mem a = Inr line" "pushLineToL1D u ?mem a line = Inr (u1, ?mem)"
      "getFromL1D u1 addrs = Inr (Some vs, u2)" "mmu_ok u2 ?mem"
      "seen u2 ?mem = seen (mvp3_mmu m) ?mem"
      by auto
    with u(1) load_miss_None [OF miss] nonempty first show ?thesis
      by (simp add: mvp3_load_def mvp3_ok_def mvp3_seen_def)
  qed
qed

lemma mvp3_flush_result:
  assumes "mvp3_ok m"
  shows "\<exists>m'. mvp3_flush m = Inr m' \<and> mvp3_ctx m' = mvp3_seen m
    \<and> mvp3_cycle m' = mvp3_cycle m + 51 * int (length (lines (l1d (mvp3_mmu m))))"
  using mmu_flush_result [of "mvp3_mmu m" "Memory (mvp3_ctx m)" mvp3_cyclesMemoryAccess] assms
  by (simp add: mvp3_flush_def mvp3_ok_def mvp3_seen_def mvp3_spend_def mvp3_cyclesMemoryAccess_def
      mvp3_cyclesL1Access_def)

lemma mvp3_write_result:
  assumes "mvp3_ok m" and "write_back (mvp3_seen m) exe = Inr after"
    and "MemoryChange exe \<Longrightarrow> map fst (MemoryChanges exe) = consecutive a (Suc n)"
    and "MemoryChange exe \<Longrightarrow> store_disciplined (mvp3_mmu m) (map fst (MemoryChanges exe))"
  shows "\<exists>m'. mvp3_write m exe = Inr m' \<and> mvp3_ok m' \<and> mvp3_seen m' = after"
proof (cases "MemoryChange exe \<and> \<not> RegisterChange exe")
  case False
  with assms(1,2) show ?thesis
    by (auto simp: mvp3_write_def write_back_def mvp3_ok_def mvp3_seen_def WriteRegister_def
        split: if_splits)
next
  case True
  let ?mem = "Memory (mvp3_ctx m)" and ?kvs = "MemoryChanges exe"
  have ok: "mmu_ok (mvp3_mmu m) ?mem" using assms(1) by (simp add: mvp3_ok_def)
  note keys = assms(3) [OF conjunct1 [OF True]]
  have "WriteMemory (mvp3_seen m) exe = Inr after"
    using True assms(2) by (simp add: write_back_def)
  then obtain mem' where
    store: "store_all ?kvs (seen (mvp3_mmu m) ?mem) = Inr mem'"
      "after = (mvp3_ctx m)\<lparr>Memory := mem'\<rparr>"
    unfolding WriteMemory_def mvp3_seen_def by (simp only: rbind_eq_Inr) auto
  show ?thesis
  proof (rule store_cases [OF ok keys store(1) assms(4) [OF conjunct1 [OF True]]])
    fix u1 u2
    assume "doesExecutionMemoryChangesExistsInL1D (mvp3_mmu m) exe = Inr (True, u1)"
      and "writeExecutionMemoryChangesToL1D u1 exe = Inr u2" "mmu_ok u2 ?mem" "seen u2 ?mem = mem'"
    with True store(2) show ?thesis
      by (simp add: mvp3_write_def mvp3_ok_def mvp3_seen_def)
  next
    fix u1
    assume u1: "doesExecutionMemoryChangesExistsInL1D (mvp3_mmu m) exe = Inr (False, u1)"
      "\<forall>x \<in> set (map fst ?kvs). view (mvp3_mmu m) x = None" "mmu_ok u1 ?mem" "view u1 = view (mvp3_mmu m)"
    then have fresh: "\<forall>x \<in> set (map fst ?kvs). view u1 x = None" by simp
    have "store_all ?kvs (seen u1 ?mem) = Inr mem'"
      using store(1) seen_cong [OF u1(4)] by simp
    from store_miss [OF u1(3) keys this fresh] obtain mem'' where
      mem'': "store_all ?kvs ?mem = Inr mem''" "mmu_ok u1 mem''" "seen u1 mem'' = mem'"
      by blast
    have "WriteMemory (mvp3_ctx m) exe = Inr ((mvp3_ctx m)\<lparr>Memory := mem''\<rparr>)"
      by (simp add: WriteMemory_def mem''(1))
    then have "mvp3_write m exe = Inr (mvp3_spend mvp3_cyclesMemoryAccess
        (m\<lparr>mvp3_mmu := u1, mvp3_ctx := (mvp3_ctx m)\<lparr>Memory := mem''\<rparr>\<rparr>))"
      using True u1(1) by (simp add: mvp3_write_def)
    then show ?thesis
      using store(2) mem''(2,3) by (simp add: mvp3_ok_def mvp3_seen_def)
  qed
qed

section \<open>MVP-3 follows the architecture\<close>

text \<open>The front of a step: fetch, decode and execute.\<close>

lemma mvp3_front_result:
  assumes "mvp3_ok m" and "disciplined app (pc, m)"
    and "arch_execute app pc (mvp3_seen m) = Inr (after, exe)"
  shows "\<exists>m1 i m2 m3. mvp3_fetchInstruction m pc = Inr (pc, m1) \<and> mvp3_decode m1 app pc = Inr (i, m2)
    \<and> mvp3_execute m2 app i pc = Inr (exe, instructionType i, m3) \<and> mvp3_ok m3 \<and> mvp3_seen m3 = after
    \<and> (MemoryChange exe \<longrightarrow> store_disciplined (mvp3_mmu m3) (map fst (MemoryChanges exe)))
    \<and> (\<exists>ctx vs c. Run (runner i noForward) ctx (Labels app) pc vs = Inr (c, exe))"
proof -
  from assms(3) obtain i vs where i: "instruction_at app pc = Inr i"
    and vs: "getFromMemory (Memory (mvp3_seen m)) (MemoryRead (runner i noForward) (mvp3_ctx m)) = Inr vs"
    and seen_run: "Run (runner i noForward) (mvp3_seen m) (Labels app) pc vs = Inr (after, exe)"
    by (auto simp: arch_execute_def mvp3_seen_def read_other_memory)
  let ?addrs = "MemoryRead (runner i noForward) (mvp3_ctx m)"
  from seen_run obtain c where
    run: "Run (runner i noForward) (mvp3_ctx m) (Labels app) pc vs = Inr (c, exe)"
    and after: "after = c\<lparr>Memory := Memory (mvp3_seen m)\<rparr>"
    by (auto simp: mvp3_seen_def run_other_memory)
  from mvp3_fetch_result [OF assms(1), of pc] obtain m1 where
    m1: "mvp3_fetchInstruction m pc = Inr (pc, m1)" "mvp3_ok m1" "mvp3_ctx m1 = mvp3_ctx m"
      "l1d (mvp3_mmu m1) = l1d (mvp3_mmu m)"
    by blast
  let ?m2 = "mvp3_spend mvp3_cyclesDecode m1"
  have seen2: "mvp3_seen ?m2 = mvp3_seen m" and ok2: "mvp3_ok ?m2"
    using m1 same_l1d(2) [OF m1(4)] by (simp_all add: mvp3_seen_def mvp3_ok_def)
  from memory_read_addresses [of i noForward "mvp3_ctx m"] obtain a
    where a: "?addrs = consecutive a (length ?addrs)" "length ?addrs \<le> 64"
    unfolding consecutive_def by auto
  have "load_disciplined (mvp3_mmu ?m2) ?addrs"
    using assms(2) i same_l1d(3) [OF m1(4)] by (simp add: disciplined_def)
  from mvp3_load_result [OF ok2 a _ this] vs seen2 obtain m3 where
    m3: "mvp3_load ?m2 ?addrs = Inr (vs, m3)" "mvp3_ok m3" "mvp3_ctx m3 = mvp3_ctx m"
      "mvp3_seen m3 = mvp3_seen m" "?addrs = [] \<longrightarrow> m3 = ?m2"
    using m1(3) by auto
  let ?m4 = "mvp3_spend (Cycles (instructionType i)) (m3\<lparr>mvp3_ctx := c\<rparr>)"
  have exec: "mvp3_execute ?m2 app i pc = Inr (exe, instructionType i, ?m4)"
    using m3(1,3) run m1(3) by (simp add: mvp3_execute_def Let_def)
  have mem: "Memory c = Memory (mvp3_ctx m)"
    using run_context [OF run] by simp
  have "Memory (mvp3_seen m3) = Memory (mvp3_seen m)" using m3(4) by simp
  then have "mvp3_ok ?m4" and "mvp3_seen ?m4 = after"
    using m3(2,3) mem after by (simp_all add: mvp3_ok_def mvp3_seen_def)
  moreover have "store_disciplined (mvp3_mmu ?m4) (map fst (MemoryChanges exe))" if "MemoryChange exe"
  proof -
    have "\<not> IsMemoryRead (instructionType i)"
      using run_class(1) [OF run] that by (auto simp: instruction_class_defs)
    then have none: "?addrs = []" using memory_read_class [of i noForward "mvp3_ctx m"] by blast
    then have "vs = []" using vs by simp
    with assms(2) i run have "store_disciplined (mvp3_mmu m) (map fst (MemoryChanges exe))"
      by (simp add: disciplined_def)
    then show ?thesis
      using m3(5) none same_l1d(4) [OF m1(4)] by simp
  qed
  ultimately show ?thesis
    using m1(1) i exec run by (auto simp: mvp3_decode_def)
qed

definition mvp3_sim :: "int32 \<times> mvp3 \<Rightarrow> arch \<Rightarrow> bool" where
  "mvp3_sim s t \<longleftrightarrow> fst s = fst t \<and> mvp3_ok (snd s) \<and> mvp3_seen (snd s) = snd t"

lemma mvp3_follows:
  assumes "mvp3_sim s t" and "disciplined app s" and "arch_step Done app t = Inr out"
  shows "\<exists>out'. mvp3_step app s = Inr out' \<and>
    rel_outcome mvp3_sim (\<lambda>m ctx. mvp3_ctx m = ctx) out' out"
proof -
  obtain pc m where s: "s = (pc, m)" and t: "t = (pc, mvp3_seen m)" and ok: "mvp3_ok m"
    using assms(1) by (cases s; cases t) (auto simp: mvp3_sim_def)
  show ?thesis
  proof (cases "pc_in_app app pc")
    case False
    with assms(3) mvp3_flush_result [OF ok] show ?thesis
      by (auto simp: s t arch_step_def mvp3_step_def)
  next
    case True
    with assms(3) obtain after exe where arch: "arch_execute app pc (mvp3_seen m) = Inr (after, exe)"
      and out: "if Return exe then out = Done after
        else \<exists>ctx. write_back after exe = Inr ctx \<and> out = Continue (next_pc exe pc, ctx)"
      by (auto simp: s t arch_step_def split: if_splits)
    from mvp3_front_result [OF ok assms(2) [unfolded s] arch] obtain m1 i m2 m3 ctx vs c where
      front: "mvp3_fetchInstruction m pc = Inr (pc, m1)" "mvp3_decode m1 app pc = Inr (i, m2)"
        "mvp3_execute m2 app i pc = Inr (exe, instructionType i, m3)"
      and m3: "mvp3_ok m3" "mvp3_seen m3 = after"
        "MemoryChange exe \<Longrightarrow> store_disciplined (mvp3_mmu m3) (map fst (MemoryChanges exe))"
      and run: "Run (runner i noForward) ctx (Labels app) pc vs = Inr (c, exe)"
      by blast
    show ?thesis
    proof (cases "Return exe")
      case ret: True
      with True out front m3(2) mvp3_flush_result [OF m3(1)] show ?thesis
        by (auto simp: s mvp3_step_def)
    next
      case False
      with out obtain ctx' where wb: "write_back (mvp3_seen m3) exe = Inr ctx'"
        and out: "out = Continue (next_pc exe pc, ctx')"
        by (auto simp: m3(2))
      have "\<exists>a n. map fst (MemoryChanges exe) = consecutive a (Suc n)" if "MemoryChange exe"
      proof -
        from run_memory_changes [OF run that] obtain a where
          a: "map fst (MemoryChanges exe) = consecutive a (length (MemoryChanges exe))"
          and len: "length (MemoryChanges exe) \<in> {1, 2, 4}"
          unfolding consecutive_def by blast
        from len have "length (MemoryChanges exe) \<noteq> 0" by auto
        with a show ?thesis by (metis not0_implies_Suc)
      qed
      then obtain a n where "MemoryChange exe \<Longrightarrow> map fst (MemoryChanges exe) = consecutive a (Suc n)"
        by blast
      from mvp3_write_result [OF m3(1) wb this m3(3)] obtain m4 where
        "mvp3_write m3 exe = Inr m4" "mvp3_ok m4" "mvp3_seen m4 = ctx'"
        by blast
      with True False front out show ?thesis
        by (auto simp: s mvp3_step_def mvp3_sim_def)
    qed
  qed
qed

interpretation mvp3_arch: guarded_lockstep "mvp3_step app" "arch_step Done app" "disciplined app"
    mvp3_sim "\<lambda>m ctx. mvp3_ctx m = ctx" for app
  by unfold_locales (rule mvp3_follows)

lemma mvp3_NewCPU_ok:
  assumes "n < 2 ^ 31"
  shows "\<exists>m. mvp3_NewCPU debug n = Inr m \<and> mvp3_ok m \<and> mvp3_seen m = NewContext debug n"
  using newMemoryManagementUnit_ok [of "Memory (NewContext debug n)"] assms
  by (auto simp: mvp3_NewCPU_def NewContext_def mvp3_ok_def mvp3_seen_def)

end
