(* ===== verification/Stuttering.thy ===== *)
theory Stuttering
  imports Machine
begin

text \<open>
  The comparison of a pipelined processor with the architecture. A step of the processor is one
  cycle; most cycles complete no instruction. The locale \<open>stuttering\<close> is a simulation in which such
  cycles decrease a measure, so that a bounded number of cycles is spent on each instruction and the
  processor returns whenever the architecture does.
\<close>

locale stuttering =
  fixes step1 :: "'s \<Rightarrow> ('s, 'r) outcome result"
    and step2 :: "'t \<Rightarrow> ('t, 'q) outcome result"
    and good :: "'s \<Rightarrow> bool"
    and sim :: "'s \<Rightarrow> 't \<Rightarrow> bool"
    and res :: "'r \<Rightarrow> 'q \<Rightarrow> bool"
    and waiting :: "'s \<Rightarrow> nat"
    and bound :: nat
  assumes bounded: "sim s t \<Longrightarrow> waiting s < bound"
    and follows: "sim s t \<Longrightarrow> good s \<Longrightarrow> step2 t = Inr out \<Longrightarrow>
      (\<exists>s'. step1 s = Inr (Continue s') \<and> sim s' t \<and> waiting s' < waiting s)
      \<or> (\<exists>out'. step1 s = Inr out' \<and> rel_outcome sim res out' out)
      \<or> (\<exists>r t'. step1 s = Inr (Done r) \<and> out = Continue t'
          \<and> (\<forall>out'. step2 t' = Inr out' \<longrightarrow> (\<exists>q. out' = Done q \<and> res r q)))"
begin

lemma run_follows_from:
  "sim s t \<Longrightarrow> along good step1 j s \<Longrightarrow> run_loop step2 (Suc n) t = Some (Inr q) \<Longrightarrow>
    n * bound + waiting s < j \<Longrightarrow> \<exists>r. run_loop step1 j s = Some (Inr r) \<and> res r q"
proof (induction j arbitrary: s t n)
  case 0
  then show ?case by simp
next
  case (Suc j)
  from Suc.prems(3) obtain out where out: "step2 t = Inr out"
    by (auto split: sum.splits)
  from Suc.prems(2) have "good s" by simp
  from follows [OF Suc.prems(1) this out] show ?case
  proof (elim disjE exE conjE)
    fix s'
    assume s': "step1 s = Inr (Continue s')" "sim s' t" "waiting s' < waiting s"
    with Suc.IH [OF s'(2) _ Suc.prems(3)] Suc.prems(2,4) show ?thesis by simp
  next
    fix out'
    assume out': "step1 s = Inr out'" and "rel_outcome sim res out' out"
    from this(2) show ?thesis
    proof (cases rule: outcome.rel_cases)
      case (Continue s' t')
      then have rest: "run_loop step2 n t' = Some (Inr q)"
        using Suc.prems(3) out by simp
      then obtain k where k: "n = Suc k" by (cases n) auto
      have "k * bound + waiting s' < j"
        using Suc.prems(4) bounded [OF Continue(3)] by (simp add: k)
      with Suc.IH [OF Continue(3) _ rest [unfolded k]] Suc.prems(2) out' Continue(1)
      show ?thesis by simp
    next
      case (Done r q')
      with Suc.prems(3) out out' show ?thesis by simp
    qed
  next
    fix r t'
    assume step: "step1 s = Inr (Done r)" and t': "out = Continue t'"
      and last: "\<forall>out'. step2 t' = Inr out' \<longrightarrow> (\<exists>q. out' = Done q \<and> res r q)"
    from Suc.prems(3) out t' have rest: "run_loop step2 n t' = Some (Inr q)" by simp
    then obtain k out' where "n = Suc k" and out': "step2 t' = Inr out'"
      by (cases n) (auto split: sum.splits)
    moreover from last out' obtain q' where "out' = Done q'" and "res r q'" by blast
    ultimately show ?thesis
      using rest step by simp
  qed
qed

text \<open>When the architecture returns after at most \<open>n\<close> instructions, the processor returns after at
  most \<open>n * bound\<close> cycles.\<close>

lemma run_follows:
  assumes "sim s t" and "along good step1 (n * bound) s"
    and "run_loop step2 n t = Some (Inr q)"
  shows "\<exists>r. run_loop step1 (n * bound) s = Some (Inr r) \<and> res r q"
proof (cases n)
  case 0
  with assms(3) show ?thesis by simp
next
  case (Suc k)
  have "k * bound + waiting s < n * bound"
    using bounded [OF assms(1)] by (simp add: Suc)
  with run_follows_from [OF assms(1,2) assms(3) [unfolded Suc]] show ?thesis by blast
qed

end

end
