(* ===== verification/Pipeline.thy ===== *)
theory Pipeline
  imports Stuttering Hazards Bus
begin

text \<open>
  The parts that MVP-4 and MVP-5 share: their execute unit (\<open>eu.go\<close>), write unit (\<open>wu.go\<close>) and main
  loop (\<open>cpu.go\<close>) are the same code but for the branch unit. The stages in front of the execute unit
  (fetch unit, decode bus, decode unit, execute bus, branch unit) are a state \<open>'f\<close> with the
  operations of the record \<open>front_end\<close>; \<open>Mvp4\<close> and \<open>Mvp5\<close> define them from their sources.

  One pass of the loop of \<open>Run\<close> is \<open>pipeline_step\<close>. The inner loop that drains the write unit before a
  flush is made of steps in the mode \<open>Flushing\<close>.
\<close>

section \<open>Data on the buses\<close>

record InstructionRunnerPc =
  rp_Runner :: instr
  rp_Pc :: int32

record ExecutionContext =
  ec_Pc :: int32
  ec_Execution :: Execution
  ec_InstructionType :: InstructionType
  ec_WriteRegisters :: "RegisterType list"
  ec_ReadRegisters :: "RegisterType list"

definition cyclesMemoryAccess :: int where "cyclesMemoryAccess = 50"
definition cyclesL1Access :: int where "cyclesL1Access = 1"

section \<open>The units\<close>

text \<open>\<open>eu_memory\<close> and \<open>eu_runner\<close> are \<open>None\<close> where the source has \<open>nil\<close> and the empty struct.\<close>

record executeUnit =
  eu_processing :: bool
  eu_pendingMemoryRead :: bool
  eu_addrs :: "int32 list"
  eu_memory :: "int8 list option"
  eu_remainingCycles :: int
  eu_runner :: "InstructionRunnerPc option"

definition newExecuteUnit :: executeUnit where
  "newExecuteUnit = \<lparr>eu_processing = False, eu_pendingMemoryRead = False, eu_addrs = [],
     eu_memory = None, eu_remainingCycles = 0, eu_runner = None\<rparr>"

record writeUnit =
  wu_pendingMemoryWrite :: bool
  wu_cycles :: int

definition newWriteUnit :: writeUnit where
  "newWriteUnit = \<lparr>wu_pendingMemoryWrite = False, wu_cycles = 0\<rparr>"

record 'f pipeline =
  pl_ctx :: Context
  pl_front :: 'f
  pl_executeUnit :: executeUnit
  pl_writeBus :: "ExecutionContext SimpleBus"
  pl_writeUnit :: writeUnit
  pl_mmu :: memoryManagementUnit
  pl_cycle :: int

text \<open>
  The front of a pipeline: one cycle of the fetch and decode units, \<open>Get\<close> on the execute bus, the
  three operations of the branch unit (\<open>assert\<close>, the notification of a resolved jump,
  \<open>shouldFlushPipeline\<close>), the flush, and whether all of it is empty. The flush of the execute unit
  differs too.
\<close>

record 'f front_end =
  fe_cycle :: "app \<Rightarrow> 'f \<Rightarrow> memoryManagementUnit \<Rightarrow> ('f \<times> memoryManagementUnit) result"
  fe_get :: "'f \<Rightarrow> InstructionRunnerPc option \<times> 'f"
  fe_assert :: "InstructionRunnerPc \<Rightarrow> 'f \<Rightarrow> 'f"
  fe_resolved :: "InstructionRunnerPc \<Rightarrow> Execution \<Rightarrow> 'f \<Rightarrow> 'f result"
  fe_shouldFlush :: "int32 \<Rightarrow> 'f \<Rightarrow> bool \<times> 'f"
  fe_flush :: "int32 \<Rightarrow> 'f \<Rightarrow> 'f"
  fe_isEmpty :: "'f \<Rightarrow> bool"
  fe_flushExecuteUnit :: "executeUnit \<Rightarrow> executeUnit"

section \<open>The execute unit\<close>

text \<open>The results of \<open>cycle\<close>: nothing, a flush to an address, or the return of the program.\<close>

datatype eu_signal = Proceed | FlushTo int32 | Returned

definition on_eu :: "(executeUnit \<Rightarrow> executeUnit) \<Rightarrow> 'f pipeline \<Rightarrow> 'f pipeline" where
  "on_eu g m = m\<lparr>pl_executeUnit := g (pl_executeUnit m)\<rparr>"

definition eu_wait :: "int \<Rightarrow> 'f pipeline \<Rightarrow> 'f pipeline" where
  "eu_wait k = on_eu (\<lambda>eu. eu\<lparr>eu_remainingCycles := k\<rparr>)"

text \<open>\<open>eu_prepare\<close> is the part of \<open>cycle\<close> before the calls of \<open>run\<close>: \<open>None\<close> where \<open>cycle\<close> returns,
  \<open>Some\<close> bytes where it goes on to \<open>run\<close> with them. First the pending read, then the rest.\<close>

definition eu_read :: "'f pipeline \<Rightarrow> (int8 list option \<times> 'f pipeline) result" where
  "eu_read m =
     (let m = eu_wait (eu_remainingCycles (pl_executeUnit m) - 1) m in
      if eu_remainingCycles (pl_executeUnit m) \<noteq> 0 then Inr (None, m)
      else let m = on_eu (\<lambda>eu. eu\<lparr>eu_pendingMemoryRead := False\<rparr>) m;
               addrs = eu_addrs (pl_executeUnit m);
               mem = Memory (pl_ctx m)
      in rbind (case eu_memory (pl_executeUnit m) of
             Some memory \<Rightarrow> Inr (memory, m)
           | None \<Rightarrow>
               rbind (go_index addrs 0) (\<lambda>addr.
               rbind (fetchCacheLine mem addr) (\<lambda>line.
               rbind (pushLineToL1D (pl_mmu m) mem addr line) (\<lambda>(u, mem).
               rbind (getFromL1D u addrs) (\<lambda>(r, u). case r of
                 None \<Rightarrow> Inl (Panic CacheLineMissing)
               | Some memory \<Rightarrow>
                   Inr (memory, m\<lparr>pl_mmu := u, pl_ctx := (pl_ctx m)\<lparr>Memory := mem\<rparr>\<rparr>))))))
           (\<lambda>(memory, m). Inr (Some memory, on_eu (\<lambda>eu. eu\<lparr>eu_memory := None\<rparr>) m)))"

definition eu_take :: "'f front_end \<Rightarrow> 'f pipeline \<Rightarrow> bool \<times> 'f pipeline" where
  "eu_take fe m =
     (if eu_processing (pl_executeUnit m) then (True, m)
      else case fe_get fe (pl_front m) of
        (None, f) \<Rightarrow> (False, m\<lparr>pl_front := f\<rparr>)
      | (Some r, f) \<Rightarrow> (True, on_eu (\<lambda>eu. eu\<lparr>eu_runner := Some r,
            eu_remainingCycles := Cycles (instructionType (rp_Runner r)), eu_processing := True\<rparr>)
          (m\<lparr>pl_front := f\<rparr>)))"

definition eu_issue :: "'f front_end \<Rightarrow> 'f pipeline \<Rightarrow> (int8 list option \<times> 'f pipeline) result" where
  "eu_issue fe m =
     (let m = eu_wait (eu_remainingCycles (pl_executeUnit m) - 1) m in
      if eu_remainingCycles (pl_executeUnit m) \<noteq> 0 then Inr (None, m)
      else if \<not> SimpleBus_CanAdd (pl_writeBus m) then Inr (None, eu_wait 1 m)
      else case eu_runner (pl_executeUnit m) of
        None \<Rightarrow> Inl (Panic NilDereference)
      | Some r \<Rightarrow>
          let m = m\<lparr>pl_front := fe_assert fe r (pl_front m)\<rparr>;
              methods = runner (rp_Runner r) noForward
          in if IsWriteDataHazard (pl_ctx m) (ReadRegisters methods) then Inr (None, eu_wait 1 m)
          else let addrs = MemoryRead methods (pl_ctx m)
          in if length addrs \<noteq> 0
             then rbind (getFromL1D (pl_mmu m) addrs) (\<lambda>(r, u).
               let m = m\<lparr>pl_mmu := u\<rparr> in case r of
                 Some memory \<Rightarrow> Inr (None, on_eu (\<lambda>eu. eu\<lparr>eu_memory := Some memory,
                   eu_pendingMemoryRead := True, eu_remainingCycles := cyclesL1Access\<rparr>) m)
               | None \<Rightarrow> Inr (None, on_eu (\<lambda>eu. eu\<lparr>eu_addrs := addrs,
                   eu_pendingMemoryRead := True, eu_remainingCycles := cyclesMemoryAccess\<rparr>) m))
             else Inr (Some [], m))"

definition eu_prepare :: "'f front_end \<Rightarrow> 'f pipeline \<Rightarrow> (int8 list option \<times> 'f pipeline) result" where
  "eu_prepare fe m =
     (if eu_pendingMemoryRead (pl_executeUnit m) then eu_read m
      else case eu_take fe m of (got, m) \<Rightarrow> if got then eu_issue fe m else Inr (None, m))"

text \<open>\<open>run\<close>, with the deferred reset of \<open>eu.runner\<close>.\<close>

definition execution_context :: "InstructionRunnerPc \<Rightarrow> Execution \<Rightarrow> ExecutionContext" where
  "execution_context r exe =
     \<lparr>ec_Pc = 0, ec_Execution = exe, ec_InstructionType = instructionType (rp_Runner r),
      ec_WriteRegisters = WriteRegisters (runner (rp_Runner r) noForward), ec_ReadRegisters = []\<rparr>"

definition eu_finish :: "'f front_end \<Rightarrow> InstructionRunnerPc \<Rightarrow> Execution \<Rightarrow> 'f pipeline \<Rightarrow>
    (eu_signal \<times> 'f pipeline) result" where
  "eu_finish fe r exe m =
     (let m = m\<lparr>pl_writeBus := SimpleBus_Add (pl_writeBus m) (execution_context r exe),
                pl_ctx := AddPendingWriteRegisters (pl_ctx m)
                  (WriteRegisters (runner (rp_Runner r) noForward))\<rparr>
      in rbind (fe_resolved fe r exe (pl_front m)) (\<lambda>f.
         if PcChange exe
         then case fe_shouldFlush fe (NextPc exe) f of (flush, f) \<Rightarrow>
           Inr (if flush then FlushTo (NextPc exe) else Proceed, m\<lparr>pl_front := f\<rparr>)
         else Inr (Proceed, m\<lparr>pl_front := f\<rparr>)))"

definition eu_run :: "'f front_end \<Rightarrow> app \<Rightarrow> int8 list \<Rightarrow> 'f pipeline \<Rightarrow>
    (eu_signal \<times> 'f pipeline) result" where
  "eu_run fe app memory m =
     (case eu_runner (pl_executeUnit m) of
        None \<Rightarrow> Inl (Panic NilDereference)
      | Some r \<Rightarrow>
          rbind (Run (runner (rp_Runner r) noForward) (pl_ctx m) (Labels app) (rp_Pc r) memory) (\<lambda>(ctx, exe).
          let m = on_eu (\<lambda>eu. eu\<lparr>eu_runner := None\<rparr>) (m\<lparr>pl_ctx := ctx\<rparr>) in
          if Return exe then Inr (Returned, m)
          else let m = on_eu (\<lambda>eu. eu\<lparr>eu_processing := False\<rparr>) m in
          rbind (if MemoryChange exe then doesExecutionMemoryChangesExistsInL1D (pl_mmu m) exe
                 else Inr (False, pl_mmu m)) (\<lambda>(exists, u).
          let m = m\<lparr>pl_mmu := u\<rparr> in
          if exists
          then rbind (writeExecutionMemoryChangesToL1D u exe) (\<lambda>u. Inr (Proceed, m\<lparr>pl_mmu := u\<rparr>))
          else eu_finish fe r exe m)))"

definition eu_cycle :: "'f front_end \<Rightarrow> app \<Rightarrow> 'f pipeline \<Rightarrow> (eu_signal \<times> 'f pipeline) result" where
  "eu_cycle fe app m =
     rbind (eu_prepare fe m) (\<lambda>(go, m). case go of
       None \<Rightarrow> Inr (Proceed, m)
     | Some memory \<Rightarrow> eu_run fe app memory m)"

section \<open>The write unit\<close>

definition wu_write :: "ExecutionContext \<Rightarrow> 'f pipeline \<Rightarrow> 'f pipeline result" where
  "wu_write e m =
     (if RegisterChange (ec_Execution e)
      then Inr (m\<lparr>pl_ctx := DeletePendingWriteRegisters
        (WriteRegister (pl_ctx m) (ec_Execution e)) (ec_WriteRegisters e)\<rparr>)
      else if MemoryChange (ec_Execution e)
      then rbind (WriteMemory (pl_ctx m) (ec_Execution e)) (\<lambda>ctx.
           Inr (m\<lparr>pl_writeUnit := \<lparr>wu_pendingMemoryWrite = True, wu_cycles = cyclesMemoryAccess\<rparr>,
             pl_ctx := ctx\<rparr>))
      else Inr m)"

definition wu_cycle :: "'f pipeline \<Rightarrow> 'f pipeline result" where
  "wu_cycle m =
     (let wu = pl_writeUnit m in
      if wu_pendingMemoryWrite wu
      then let wu = wu\<lparr>wu_cycles := wu_cycles wu - 1\<rparr>
           in Inr (m\<lparr>pl_writeUnit :=
             (if wu_cycles wu = 0 then wu\<lparr>wu_pendingMemoryWrite := False\<rparr> else wu)\<rparr>)
      else case SimpleBus_Get (pl_writeBus m) of (execution, bus) \<Rightarrow>
        let m = m\<lparr>pl_writeBus := bus\<rparr> in
        case execution of None \<Rightarrow> Inr m | Some e \<Rightarrow> wu_write e m)"

definition wu_isEmpty :: "writeUnit \<Rightarrow> bool" where
  "wu_isEmpty wu = (\<not> wu_pendingMemoryWrite wu)"

section \<open>The main loop\<close>

datatype cpu_mode = Running | Flushing int32

definition pipeline_flush :: "'f front_end \<Rightarrow> int32 \<Rightarrow> 'f pipeline \<Rightarrow> 'f pipeline" where
  "pipeline_flush fe pc m =
     m\<lparr>pl_front := fe_flush fe pc (pl_front m),
       pl_executeUnit := fe_flushExecuteUnit fe (pl_executeUnit m),
       pl_writeBus := SimpleBus_Flush (pl_writeBus m),
       pl_ctx := Context_Flush (pl_ctx m)\<rparr>"

definition pipeline_isComplete :: "'f front_end \<Rightarrow> 'f pipeline \<Rightarrow> bool" where
  "pipeline_isComplete fe m \<longleftrightarrow>
     fe_isEmpty fe (pl_front m) \<and> \<not> eu_processing (pl_executeUnit m)
     \<and> wu_isEmpty (pl_writeUnit m) \<and> SimpleBus_IsEmpty (pl_writeBus m)"

text \<open>After the loop: the data cache is written back.\<close>

definition pipeline_end :: "'f pipeline \<Rightarrow> 'f pipeline result" where
  "pipeline_end m =
     rbind (mmu_flush cyclesMemoryAccess (pl_mmu m) (Memory (pl_ctx m))) (\<lambda>(cycles, memory).
     Inr (m\<lparr>pl_cycle := pl_cycle m + cycles, pl_ctx := (pl_ctx m)\<lparr>Memory := memory\<rparr>\<rparr>))"

definition pipeline_front :: "'f front_end \<Rightarrow> app \<Rightarrow> 'f pipeline \<Rightarrow> 'f pipeline result" where
  "pipeline_front fe app m =
     rbind (fe_cycle fe app (pl_front m) (pl_mmu m)) (\<lambda>(f, u).
     Inr (m\<lparr>pl_cycle := pl_cycle m + 1, pl_front := f, pl_mmu := u\<rparr>))"

definition pipeline_step :: "'f front_end \<Rightarrow> app \<Rightarrow> cpu_mode \<times> 'f pipeline \<Rightarrow>
    (cpu_mode \<times> 'f pipeline, 'f pipeline) outcome result" where
  "pipeline_step fe app s =
     (case s of (mode, m) \<Rightarrow> (case mode of
        Running \<Rightarrow>
          rbind (pipeline_front fe app m) (\<lambda>m.
          rbind (eu_cycle fe app m) (\<lambda>(signal, m).
          rbind (wu_cycle m) (\<lambda>m. case signal of
            Returned \<Rightarrow> rbind (pipeline_end m) (\<lambda>m. Inr (Done m))
          | FlushTo pc \<Rightarrow> Inr (Continue (Flushing pc, m))
          | Proceed \<Rightarrow>
              if pipeline_isComplete fe m then rbind (pipeline_end m) (\<lambda>m. Inr (Done m))
              else Inr (Continue (Running, m)))))
      | Flushing pc \<Rightarrow>
          if \<not> wu_isEmpty (pl_writeUnit m) \<or> \<not> SimpleBus_IsEmpty (pl_writeBus m)
          then rbind (wu_cycle (m\<lparr>pl_cycle := pl_cycle m + 1\<rparr>)) (\<lambda>m. Inr (Continue (Flushing pc, m)))
          else Inr (Continue (Running, pipeline_flush fe pc m))))"

end
