(* ===== verification/PipelineData.thy ===== *)
theory PipelineData
  imports Pipeline DataCache
begin

text \<open>
  The data side of the refinement of the pipelines: \<open>drains_to m C\<close> says that the registers and the
  memory of the pipeline become those of the architectural context \<open>C\<close> when the executions on the
  write bus are written back in order and cached bytes replace those of the memory. The write unit
  keeps the relation, and the execute unit moves it from one context to the next.
\<close>

section \<open>Executions on the write bus\<close>

definition in_writeBus :: "'f pipeline \<Rightarrow> ExecutionContext list" where
  "in_writeBus m = SimpleBus_contents (pl_writeBus m)"

text \<open>\<open>RegisterChange\<close> is tested before \<open>MemoryChange\<close>.\<close>

definition mem_changes :: "ExecutionContext \<Rightarrow> (int32 \<times> int8) list" where
  "mem_changes e =
     (if RegisterChange (ec_Execution e) then []
      else if MemoryChange (ec_Execution e) then MemoryChanges (ec_Execution e) else [])"

definition apply_register :: "ExecutionContext \<Rightarrow> (RegisterType \<Rightarrow> int32) \<Rightarrow> (RegisterType \<Rightarrow> int32)" where
  "apply_register e g =
     (if RegisterChange (ec_Execution e)
      then g(Register (ec_Execution e) := RegisterValue (ec_Execution e)) else g)"

definition pending_writes :: "ExecutionContext list \<Rightarrow> RegisterType list" where
  "pending_writes es = concat (map ec_WriteRegisters es)"

definition pending_stores :: "ExecutionContext list \<Rightarrow> (int32 \<times> int8) list" where
  "pending_stores es = concat (map mem_changes es)"

lemma pending_simps [simp]:
  "pending_writes [] = []" "pending_stores [] = []"
  "pending_writes (e # es) = ec_WriteRegisters e @ pending_writes es"
  "pending_stores (e # es) = mem_changes e @ pending_stores es"
  "pending_writes (es @ es') = pending_writes es @ pending_writes es'"
  "pending_stores (es @ es') = pending_stores es @ pending_stores es'"
  by (simp_all add: pending_writes_def pending_stores_def)

definition entry_ok :: "memoryManagementUnit \<Rightarrow> ExecutionContext \<Rightarrow> bool" where
  "entry_ok u e \<longleftrightarrow>
     ec_WriteRegisters e =
       (if RegisterChange (ec_Execution e) then [Register (ec_Execution e)] else [])
     \<and> (RegisterChange (ec_Execution e) \<longrightarrow> 0 \<le> sint (RegisterValue (ec_Execution e)))
     \<and> (\<forall>a \<in> set (map fst (mem_changes e)). view u a = None)
     \<and> (\<exists>a n. map fst (mem_changes e) = consecutive a n)"

lemma apply_register_other:
  "\<forall>e \<in> set es. entry_ok u e \<Longrightarrow> r \<notin> set (pending_writes es) \<Longrightarrow>
    fold apply_register es g r = g r"
  by (induction es arbitrary: g) (auto simp: apply_register_def entry_ok_def)

lemma apply_register_update:
  "\<forall>e \<in> set es. entry_ok u e \<Longrightarrow> r \<notin> set (pending_writes es) \<Longrightarrow>
    fold apply_register es (g(r := v)) = (fold apply_register es g)(r := v)"
proof (induction es arbitrary: g)
  case (Cons e es)
  then have "apply_register e (g(r := v)) = (apply_register e g)(r := v)"
    by (auto simp: apply_register_def entry_ok_def fun_upd_twist [of r])
  moreover have "fold apply_register es ((apply_register e g)(r := v))
      = (fold apply_register es (apply_register e g))(r := v)"
    using Cons.prems by (intro Cons.IH) simp_all
  ultimately show ?case by (simp only: fold_simps)
qed simp

lemma entry_ok_cong: "view u' = view u \<Longrightarrow> entry_ok u' e = entry_ok u e"
  by (simp add: entry_ok_def)

section \<open>The relation\<close>

definition wu_ok :: "writeUnit \<Rightarrow> bool" where
  "wu_ok wu \<longleftrightarrow> (wu_pendingMemoryWrite wu \<longrightarrow> 1 \<le> wu_cycles wu \<and> wu_cycles wu \<le> 50)"

definition drains_to :: "'f pipeline \<Rightarrow> Context \<Rightarrow> bool" where
  "drains_to m C \<longleftrightarrow>
     mmu_ok (pl_mmu m) (Memory (pl_ctx m)) \<and> wu_ok (pl_writeUnit m)
     \<and> (\<forall>e \<in> set (in_writeBus m). entry_ok (pl_mmu m) e)
     \<and> fold apply_register (in_writeBus m) (map_get (Registers (pl_ctx m))) = map_get (Registers C)
     \<and> store_all (pending_stores (in_writeBus m)) (seen (pl_mmu m) (Memory (pl_ctx m))) = Inr (Memory C)
     \<and> (\<forall>r. map_get (PendingWriteRegisters (pl_ctx m)) r =
          int (count_list (pending_writes (in_writeBus m)) r))"

text \<open>The work left for the write unit: its timer, and 51 cycles for an execution on the bus, one
  more for one that is not yet visible.\<close>

definition wu_work :: "'f pipeline \<Rightarrow> nat" where
  "wu_work m =
     (if wu_pendingMemoryWrite (pl_writeUnit m) then nat (wu_cycles (pl_writeUnit m)) else 0)
     + (if sb_current (pl_writeBus m) = None then 0 else 51)
     + (if sb_pending (pl_writeBus m) = None then 0 else 52)"

lemma wu_work_bound: "wu_ok (pl_writeUnit m) \<Longrightarrow> wu_work m \<le> 153"
  by (auto simp: wu_work_def wu_ok_def)

lemma wu_work_0: "wu_ok (pl_writeUnit m) \<Longrightarrow>
    wu_work m = 0 \<longleftrightarrow> wu_isEmpty (pl_writeUnit m) \<and> SimpleBus_IsEmpty (pl_writeBus m)"
  by (auto simp: wu_work_def wu_ok_def wu_isEmpty_def SimpleBus_IsEmpty_def)

section \<open>The write unit\<close>

lemma store_all_append:
  "store_all (kvs @ kvs') mem = rbind (store_all kvs mem) (store_all kvs')"
  by (cases "store_all kvs mem") (simp_all add: store_all_def)

lemma retire_register:
  assumes "0 \<le> sint v"
  shows "map_get (Registers (DeletePendingWriteRegisters (ctx\<lparr>Registers := (Registers ctx)(r \<mapsto> v)\<rparr>) [r]))
    = (map_get (Registers ctx))(r := v)"
proof
  fix q
  have "v <=s 0 \<Longrightarrow> v = 0"
    using assms by (simp add: word_sle_eq signed_word_eqI)
  then show "map_get (Registers (DeletePendingWriteRegisters (ctx\<lparr>Registers := (Registers ctx)(r \<mapsto> v)\<rparr>) [r])) q
      = ((map_get (Registers ctx))(r := v)) q"
    by (auto simp: DeletePendingWriteRegisters_registers)
qed

lemma retire_pending_count:
  "map_get (PendingWriteRegisters (DeletePendingWriteRegisters ctx [r])) q =
    map_get (PendingWriteRegisters ctx) q - (if q = r then 1 else 0)"
  "Memory (DeletePendingWriteRegisters ctx [r]) = Memory ctx"
  by (simp_all add: DeletePendingWriteRegisters_def deletePendingWrite_def Let_def)

lemma wu_write_drains:
  assumes "drains_to m C" and bus: "in_writeBus m = e # es"
    and m1: "m1 = m\<lparr>pl_writeBus := bus'\<rparr>" "SimpleBus_contents bus' = es"
  shows "\<exists>m'. wu_write e m1 = Inr m' \<and> drains_to m' C \<and> pl_front m' = pl_front m
    \<and> pl_executeUnit m' = pl_executeUnit m \<and> pl_mmu m' = pl_mmu m \<and> pl_writeBus m' = bus'"
proof -
  let ?exe = "ec_Execution e" and ?mem = "Memory (pl_ctx m)"
  note d = assms(1) [unfolded drains_to_def bus]
  have e: "entry_ok (pl_mmu m) e" and es: "\<forall>x \<in> set es. entry_ok (pl_mmu m) x"
    using d by simp_all
  consider (register) "RegisterChange ?exe" | (memory) "\<not> RegisterChange ?exe" "MemoryChange ?exe"
    | (none) "\<not> RegisterChange ?exe" "\<not> MemoryChange ?exe" by blast
  then show ?thesis
  proof cases
    case register
    let ?ctx = "DeletePendingWriteRegisters (WriteRegister (pl_ctx m) ?exe) (ec_WriteRegisters e)"
    have regs: "ec_WriteRegisters e = [Register ?exe]" "0 \<le> sint (RegisterValue ?exe)"
      "mem_changes e = []"
      using e register by (simp_all add: entry_ok_def mem_changes_def)
    have "map_get (Registers ?ctx) = apply_register e (map_get (Registers (pl_ctx m)))"
      unfolding regs(1) WriteRegister_def apply_register_def
      using retire_register [OF regs(2)] register by simp
    moreover have "map_get (PendingWriteRegisters ?ctx) r = int (count_list (pending_writes es) r)" for r
      using d unfolding regs(1) retire_pending_count by (simp add: WriteRegister_def regs(1))
    moreover have "Memory ?ctx = ?mem"
      unfolding regs(1) retire_pending_count by (simp add: WriteRegister_def)
    ultimately have "drains_to (m1\<lparr>pl_ctx := ?ctx\<rparr>) C"
      using d es m1(2) by (simp add: drains_to_def in_writeBus_def m1(1) regs(3))
    then show ?thesis
      using register by (simp add: wu_write_def m1(1))
  next
    case memory
    have mc: "mem_changes e = MemoryChanges ?exe" "ec_WriteRegisters e = []"
      using e memory by (simp_all add: mem_changes_def entry_ok_def)
    from d obtain after where after: "store_all (MemoryChanges ?exe) (seen (pl_mmu m) ?mem) = Inr after"
      "store_all (pending_stores es) after = Inr (Memory C)"
      by (auto simp: store_all_append mc)
    have fresh: "\<forall>x \<in> set (map fst (MemoryChanges ?exe)). view (pl_mmu m) x = None"
      and "\<exists>a n. map fst (MemoryChanges ?exe) = consecutive a n"
      using e unfolding entry_ok_def mc(1) by blast+
    then obtain a n where keys: "map fst (MemoryChanges ?exe) = consecutive a n" by blast
    from store_miss [OF _ keys after(1) fresh] d obtain mem' where
      mem': "store_all (MemoryChanges ?exe) ?mem = Inr mem'" "mmu_ok (pl_mmu m) mem'"
        "seen (pl_mmu m) mem' = after"
      by auto
    let ?m' = "m1\<lparr>pl_writeUnit := \<lparr>wu_pendingMemoryWrite = True, wu_cycles = cyclesMemoryAccess\<rparr>,
      pl_ctx := (pl_ctx m)\<lparr>Memory := mem'\<rparr>\<rparr>"
    have "wu_write e m1 = Inr ?m'"
      using memory mem'(1) by (simp add: wu_write_def WriteMemory_def m1(1))
    moreover have "drains_to ?m' C"
      using d es m1(2) mem'(2,3) after(2) memory
      by (simp add: drains_to_def in_writeBus_def m1(1) mc apply_register_def wu_ok_def
          cyclesMemoryAccess_def)
    ultimately show ?thesis
      by (simp add: m1(1))
  next
    case none
    then have "drains_to m1 C"
      using d es m1(2) e
      by (simp add: drains_to_def in_writeBus_def m1(1) apply_register_def mem_changes_def entry_ok_def)
    with none show ?thesis
      by (simp add: wu_write_def m1(1))
  qed
qed

lemma wu_write_work:
  assumes "wu_write e m = Inr m'" and "\<not> wu_pendingMemoryWrite (pl_writeUnit m)"
  shows "wu_work m' \<le> wu_work m + 50"
  using assms by (auto simp: wu_write_def wu_work_def cyclesMemoryAccess_def split: if_splits)

lemma wu_cycle_drains:
  assumes "drains_to m C"
  shows "\<exists>m'. wu_cycle m = Inr m' \<and> drains_to m' C \<and> pl_front m' = pl_front m
    \<and> pl_executeUnit m' = pl_executeUnit m \<and> pl_mmu m' = pl_mmu m
    \<and> wu_work m' \<le> wu_work m - 1
    \<and> set (in_writeBus m') \<subseteq> set (in_writeBus m)
    \<and> (sb_pending (pl_writeBus m) = None \<longrightarrow> sb_pending (pl_writeBus m') = None)"
proof (cases "wu_pendingMemoryWrite (pl_writeUnit m)")
  case True
  let ?wu = "pl_writeUnit m"
  let ?k = "wu_cycles ?wu - 1"
  have "1 \<le> wu_cycles ?wu" and "wu_cycles ?wu \<le> 50"
    using True assms by (auto simp: drains_to_def wu_ok_def)
  then show ?thesis
    using True assms
    by (auto simp: wu_cycle_def drains_to_def wu_ok_def wu_work_def in_writeBus_def Let_def)
next
  case idle: False
  let ?bus = "pl_writeBus m"
  let ?bus' = "?bus\<lparr>sb_current := sb_pending ?bus, sb_pending := None\<rparr>"
  let ?m1 = "m\<lparr>pl_writeBus := ?bus'\<rparr>"
  show ?thesis
  proof (cases "sb_current ?bus")
    case None
    then have "wu_cycle m = Inr ?m1"
      using idle by (simp add: wu_cycle_def SimpleBus_Get_def Let_def)
    moreover have "drains_to ?m1 C"
      using assms None by (simp add: drains_to_def in_writeBus_def SimpleBus_contents_def)
    ultimately show ?thesis
      using idle None by (auto simp: wu_work_def in_writeBus_def SimpleBus_contents_def)
  next
    case (Some e)
    have bus: "in_writeBus m = e # SimpleBus_contents ?bus'"
      using Some by (simp add: in_writeBus_def SimpleBus_contents_def split: option.split)
    from wu_write_drains [OF assms bus refl refl] obtain m' where
      m': "wu_write e ?m1 = Inr m'" "drains_to m' C" "pl_front m' = pl_front m"
        "pl_executeUnit m' = pl_executeUnit m" "pl_mmu m' = pl_mmu m" "pl_writeBus m' = ?bus'"
      by blast
    have "wu_cycle m = Inr m'"
      using idle Some m'(1) by (simp add: wu_cycle_def SimpleBus_Get_def Let_def)
    moreover have "wu_work ?m1 + 51 \<le> wu_work m"
      using idle Some by (simp add: wu_work_def)
    then have "wu_work m' \<le> wu_work m - 1"
      using wu_write_work [OF m'(1)] idle by simp
    moreover have "set (in_writeBus m') \<subseteq> set (in_writeBus m)"
      unfolding bus by (simp add: in_writeBus_def m'(6) subset_insertI)
    moreover have "sb_pending (pl_writeBus m') = None"
      by (simp add: m'(6))
    ultimately show ?thesis
      using m'(2-5) by blast
  qed
qed

section \<open>Executing an instruction\<close>

text \<open>The declared write registers of an instruction are the register that it changes.\<close>

lemma run_write_registers:
  assumes "Run (runner i f) ctx labels pc memory = Inr (ctx', exe)" and "instructionType i \<noteq> Lh"
  shows "WriteRegisters (runner i f) = (if RegisterChange exe then [Register exe] else [])"
  using assms by (cases i) (auto simp: run_defs IsRegisterChange_def split: option.splits if_splits)

text \<open>Stores to disjoint addresses commute.\<close>

lemma store_all_commute:
  assumes "\<forall>x \<in> set kvs. \<forall>y \<in> set kvs'. fst x \<noteq> fst y"
  shows "store_all (kvs @ kvs') mem = store_all (kvs' @ kvs) mem"
proof -
  have "store_change x \<circ> store_change y = store_change y \<circ> store_change x"
    if "x \<in> set kvs" "y \<in> set kvs'" for x y
  proof -
    have "fst x \<noteq> fst y" using assms that by blast
    from store_change_commute [OF this, of "snd x" "snd y"] show ?thesis
      by (simp add: fun_eq_iff)
  qed
  then have "fold store_change kvs' \<circ> fold store_change kvs = fold store_change kvs \<circ> fold store_change kvs'"
  proof (induction kvs)
    case (Cons x xs)
    have "fold store_change kvs' \<circ> store_change x = store_change x \<circ> fold store_change kvs'"
      by (rule fold_commute [symmetric]) (rule Cons.prems, simp_all)
    moreover have "fold store_change kvs' \<circ> fold store_change xs = fold store_change xs \<circ> fold store_change kvs'"
      by (rule Cons.IH) (rule Cons.prems, simp_all)
    ultimately show ?case
      by (simp add: fun_eq_iff)
  qed simp
  then show ?thesis
    by (simp add: store_all_def fun_eq_iff)
qed

lemma store_all_other:
  "store_all kvs mem = Inr mem' \<Longrightarrow> a \<notin> fst ` set kvs \<Longrightarrow> 0 \<le> sint a \<Longrightarrow>
    mem' ! nat (sint a) = mem ! nat (sint a)"
proof (induction kvs arbitrary: mem)
  case (Cons kv kvs)
  obtain k v where kv: "kv = (k, v)" by force
  with Cons.prems have k: "0 \<le> sint k" "store_all kvs (mem[nat (sint k) := v]) = Inr mem'"
    "a \<noteq> k" "a \<notin> fst ` set kvs"
    by (auto simp: store_all_Cons)
  then have "nat (sint a) \<noteq> nat (sint k)"
    using Cons.prems(3) by (metis eq_nat_nat_iff signed_word_eqI)
  with Cons.IH [OF k(2,4) Cons.prems(3)] show ?case by simp
qed simp

lemma uncached_stores:
  "\<forall>e \<in> set es. entry_ok u e \<Longrightarrow> x \<in> set (map fst (pending_stores es)) \<Longrightarrow> view u x = None"
  by (auto simp: entry_ok_def pending_stores_def)

text \<open>Bytes that are cached, and all bytes when no store is pending, are those of the architecture.\<close>

lemma drained_bytes:
  assumes "drains_to m C" and "getFromMemory (Memory C) addrs = Inr vs"
    and "\<forall>x \<in> set addrs. x \<notin> fst ` set (pending_stores (in_writeBus m))"
  shows "getFromMemory (seen (pl_mmu m) (Memory (pl_ctx m))) addrs = Inr vs"
proof -
  let ?mem = "seen (pl_mmu m) (Memory (pl_ctx m))"
  have st: "store_all (pending_stores (in_writeBus m)) ?mem = Inr (Memory C)"
    using assms(1) by (simp add: drains_to_def)
  have "length (Memory C) = length ?mem"
    using length_store_all [OF st] .
  moreover have "Memory C ! nat (sint a) = ?mem ! nat (sint a)" if "a \<in> set addrs" "0 \<le> sint a" for a
    using store_all_other [OF st _ that(2)] assms(3) that(1) by blast
  ultimately show ?thesis
    using assms(2) by (auto simp: getFromMemory_eq)
qed

text \<open>Registers without a pending write are those of the architecture; register \<open>Zero\<close> reads 0.\<close>

lemma drained_registers:
  assumes "drains_to m C" and "r = Zero \<or> r \<notin> set (pending_writes (in_writeBus m))"
  shows "registerRead (pl_ctx m) noForward r = registerRead C noForward r"
proof -
  have "map_get (Registers (pl_ctx m)) r = map_get (Registers C) r" if "r \<noteq> Zero"
    using assms that
      apply_register_other [of "in_writeBus m" "pl_mmu m" r "map_get (Registers (pl_ctx m))"]
    by (simp add: drains_to_def)
  then show ?thesis
    by (simp add: registerRead_def noForward_def)
qed

lemma pending_iff_in_writeBus:
  assumes "drains_to m C"
  shows "pending (PendingWriteRegisters (pl_ctx m)) r \<longleftrightarrow> r \<in> set (pending_writes (in_writeBus m))"
proof -
  have "pending (PendingWriteRegisters (pl_ctx m)) r \<longleftrightarrow> 0 < map_get (PendingWriteRegisters (pl_ctx m)) r"
    by (auto simp: pending_def map_get_def split: option.split)
  also have "\<dots> \<longleftrightarrow> 0 < count_list (pending_writes (in_writeBus m)) r"
    using assms by (simp add: drains_to_def)
  also have "\<dots> \<longleftrightarrow> r \<in> set (pending_writes (in_writeBus m))"
    using count_list_0_iff [of "pending_writes (in_writeBus m)" r] by auto
  finally show ?thesis .
qed

end
