(* ===== verification/PipelineExec.thy ===== *)
theory PipelineExec
  imports PipelineData
begin

text \<open>
  The execute unit in the refinement of the pipelines: what an execution does to the data
  (\<open>drains_to\<close>), the discipline under which a run is compared with the architecture, the contract of
  the front of a pipeline (locale \<open>front_laws\<close>) and, under it, the results of \<open>eu_prepare\<close> and
  \<open>eu_run\<close>.
\<close>

section \<open>Executions\<close>

lemma run_same:
  assumes "\<forall>r \<in> set (ReadRegisters (runner i f)). registerRead ctx f r = registerRead C f r"
    and "Run (runner i f) C labels pc memory = Inr (C1, exe)"
  shows "\<exists>c. Run (runner i f) ctx labels pc memory = Inr (c, exe)"
proof -
  have "rbind (Run (runner i f) ctx labels pc memory) (\<lambda>(_, exe). Inr exe) = Inr exe"
    unfolding run_reads [OF assms(1)] assms(2) by simp
  then show ?thesis by auto
qed

text \<open>\<open>jal\<close> writes \<open>Ra\<close> during its execution.\<close>

lemma run_drains:
  assumes "drains_to m C" and "Run (runner i f) (pl_ctx m) labels pc memory = Inr (c, exe)"
    and "Run (runner i f) C labels pc memory = Inr (C1, exe)"
    and "instructionType i = Jal \<Longrightarrow> Ra \<notin> set (pending_writes (in_writeBus m))"
  shows "drains_to (m\<lparr>pl_ctx := c\<rparr>) C1"
proof (cases "instructionType i = Jal")
  case False
  then show ?thesis
    using assms(1) run_context [OF assms(2)] run_context [OF assms(3)] by simp
next
  case True
  have upd: "map_get (g(Ra \<mapsto> pc)) = (map_get g)(Ra := pc)" for g :: "RegisterType \<rightharpoonup> int32"
    by (simp add: fun_eq_iff)
  have "fold apply_register (in_writeBus m) ((map_get (Registers (pl_ctx m)))(Ra := pc)) =
      (map_get (Registers C))(Ra := pc)"
    using assms(1,4) True apply_register_update [of "in_writeBus m" "pl_mmu m" Ra]
    by (simp add: drains_to_def)
  then show ?thesis
    using assms(1) True run_context [OF assms(2)] run_context [OF assms(3)]
    by (simp add: drains_to_def in_writeBus_def upd)
qed

lemma AddPending_count:
  "map_get (PendingWriteRegisters (AddPendingWriteRegisters ctx rs)) r =
    map_get (PendingWriteRegisters ctx) r + int (count_list rs r)"
  "Registers (AddPendingWriteRegisters ctx rs) = Registers ctx"
  "Memory (AddPendingWriteRegisters ctx rs) = Memory ctx"
  unfolding AddPendingWriteRegisters_def by (induction rs arbitrary: ctx) simp_all

lemma write_back_Inr:
  "write_back ctx exe = Inr ctx' \<longleftrightarrow>
    (if RegisterChange exe then ctx' = WriteRegister ctx exe
     else if MemoryChange exe
     then \<exists>mem. store_all (MemoryChanges exe) (Memory ctx) = Inr mem \<and> ctx' = ctx\<lparr>Memory := mem\<rparr>
     else ctx' = ctx)"
  unfolding write_back_def by (auto simp only: WriteMemory_Inr sum.inject split: if_splits)

text \<open>An execution that goes to the write bus.\<close>

lemma add_drains:
  assumes "drains_to m C" and "SimpleBus_CanAdd (pl_writeBus m)" and "entry_ok (pl_mmu m) e"
    and "write_back C (ec_Execution e) = Inr C2"
  shows "drains_to (m\<lparr>pl_writeBus := SimpleBus_Add (pl_writeBus m) e,
    pl_ctx := AddPendingWriteRegisters (pl_ctx m) (ec_WriteRegisters e)\<rparr>) C2"
proof -
  let ?m = "m\<lparr>pl_writeBus := SimpleBus_Add (pl_writeBus m) e,
    pl_ctx := AddPendingWriteRegisters (pl_ctx m) (ec_WriteRegisters e)\<rparr>"
  have bus: "in_writeBus ?m = in_writeBus m @ [e]"
    using assms(2) by (simp add: in_writeBus_def SimpleBus_contents_def SimpleBus_CanAdd_def
        SimpleBus_Add_def split: option.split)
  have "apply_register e (map_get (Registers C)) = map_get (Registers C2)"
    using assms(4) by (auto simp: apply_register_def write_back_Inr WriteRegister_def fun_eq_iff
        split: if_splits)
  moreover have "store_all (mem_changes e) (Memory C) = Inr (Memory C2)"
    using assms(4) by (auto simp: mem_changes_def write_back_Inr WriteRegister_def split: if_splits)
  ultimately show ?thesis
    using assms(1,3) unfolding drains_to_def bus
    by (simp add: AddPending_count store_all_append)
qed

text \<open>A store that the architecture performs is in range for the pipeline too.\<close>

lemma drained_stores:
  assumes "drains_to m C" and "store_all kvs (Memory C) = Inr mem"
  shows "\<exists>mem'. store_all kvs (seen (pl_mmu m) (Memory (pl_ctx m))) = Inr mem'"
proof -
  have "length (Memory C) = length (seen (pl_mmu m) (Memory (pl_ctx m)))"
    using assms(1) length_store_all unfolding drains_to_def by blast
  with assms(2) show ?thesis
    using store_all_in_range [of kvs "Memory C"]
      store_all_in_range [of kvs "seen (pl_mmu m) (Memory (pl_ctx m))"] by auto
qed

lemma store_keys:
  assumes "Run (runner i f) ctx labels pc memory = Inr (ctx', exe)" and "MemoryChange exe"
  shows "\<exists>a n. map fst (MemoryChanges exe) = consecutive a (Suc n)"
proof -
  from run_memory_changes [OF assms] obtain a where
    a: "map fst (MemoryChanges exe) = consecutive a (length (MemoryChanges exe))"
    and len: "length (MemoryChanges exe) \<in> {1, 2, 4}"
    unfolding consecutive_def by blast
  from len have "length (MemoryChanges exe) \<noteq> 0" by auto
  with a show ?thesis by (metis not0_implies_Suc)
qed

text \<open>A store whose bytes are all cached overtakes the pending ones, which are not.\<close>

lemma hit_drains:
  assumes "drains_to m C" and "write_back C exe = Inr C2"
    and "MemoryChange exe" and "\<not> RegisterChange exe"
    and "store_all (MemoryChanges exe) (seen (pl_mmu m) (Memory (pl_ctx m))) = Inr mem'"
    and "\<forall>x \<in> set (map fst (MemoryChanges exe)). view (pl_mmu m) x \<noteq> None"
    and "mmu_ok u (Memory (pl_ctx m))" and "seen u (Memory (pl_ctx m)) = mem'"
    and "\<forall>x. (view u x = None) = (view (pl_mmu m) x = None)"
  shows "drains_to (m\<lparr>pl_mmu := u\<rparr>) C2"
proof -
  let ?K = "MemoryChanges exe" and ?P = "pending_stores (in_writeBus m)"
  let ?seen = "seen (pl_mmu m) (Memory (pl_ctx m))"
  have d: "\<forall>e \<in> set (in_writeBus m). entry_ok (pl_mmu m) e" "store_all ?P ?seen = Inr (Memory C)"
    using assms(1) by (simp_all add: drains_to_def)
  have C2: "Registers C2 = Registers C" "store_all ?K (Memory C) = Inr (Memory C2)"
    using assms(2-4) by (auto simp: write_back_Inr)
  have "\<forall>x \<in> set ?P. \<forall>y \<in> set ?K. fst x \<noteq> fst y"
    using uncached_stores [OF d(1)] assms(6) by (metis imageI set_map)
  from store_all_commute [OF this, of ?seen] have "store_all ?P mem' = Inr (Memory C2)"
    using d(2) C2(2) assms(5) by (simp add: store_all_append)
  moreover have "\<forall>e \<in> set (in_writeBus m). entry_ok u e"
    using d(1) assms(9) by (simp add: entry_ok_def)
  ultimately show ?thesis
    using assms(1,7,8) C2(1) by (simp add: drains_to_def in_writeBus_def)
qed

section \<open>The discipline\<close>

text \<open>
  Programs without \<open>bltu\<close> (the branch units do not know it as a branch) and \<open>lh\<close> (it declares no
  write register). An execution is disciplined if a taken branch goes to an instruction, a written
  value is not negative (the write unit deletes negative registers), a store fits the data cache,
  \<open>jal\<close> finds no pending write of \<open>Ra\<close>, and \<open>ret\<close> finds the write unit able to finish in its cycle. A
  line is fetched only when no store is on the write bus, and into free room.
\<close>

definition supported :: "app \<Rightarrow> bool" where
  "supported app \<longleftrightarrow> length (Instructions app) < 2 ^ 29
     \<and> list_all (\<lambda>i. instructionType i \<noteq> Bltu \<and> instructionType i \<noteq> Lh) (Instructions app)"

definition code_address :: "app \<Rightarrow> int32 \<Rightarrow> bool" where
  "code_address app pc \<longleftrightarrow> 0 \<le> sint pc \<and> pc_in_app app pc"

definition return_drains :: "'f pipeline \<Rightarrow> bool" where
  "return_drains m \<longleftrightarrow> sb_pending (pl_writeBus m) = None
     \<and> (sb_current (pl_writeBus m) = None \<or> \<not> wu_pendingMemoryWrite (pl_writeUnit m))"

definition execution_disciplined :: "app \<Rightarrow> memoryManagementUnit \<Rightarrow> Execution \<Rightarrow> bool" where
  "execution_disciplined app u exe \<longleftrightarrow>
     (PcChange exe \<longrightarrow> code_address app (NextPc exe))
     \<and> (RegisterChange exe \<longrightarrow> 0 \<le> sint (RegisterValue exe))
     \<and> (MemoryChange exe \<longrightarrow> store_disciplined u (map fst (MemoryChanges exe)))"

definition run_disciplined :: "app \<Rightarrow> int8 list \<Rightarrow> 'f pipeline \<Rightarrow> bool" where
  "run_disciplined app memory m =
     (case eu_runner (pl_executeUnit m) of None \<Rightarrow> True | Some r \<Rightarrow>
        (instructionType (rp_Runner r) = Ret \<longrightarrow> return_drains m)
        \<and> (instructionType (rp_Runner r) = Jal \<longrightarrow> Ra \<notin> set (pending_writes (in_writeBus m)))
        \<and> (case Run (runner (rp_Runner r) noForward) (pl_ctx m) (Labels app) (rp_Pc r) memory of
             Inl _ \<Rightarrow> True
           | Inr (_, exe) \<Rightarrow> execution_disciplined app (pl_mmu m) exe))"

definition read_disciplined :: "'f pipeline \<Rightarrow> bool" where
  "read_disciplined m \<longleftrightarrow>
     (let eu = pl_executeUnit m in
      eu_pendingMemoryRead eu \<and> eu_memory eu = None \<and> eu_remainingCycles eu = 1 \<longrightarrow>
      pending_stores (in_writeBus m) = [] \<and> cache_room (l1d (pl_mmu m)) (hd (eu_addrs eu)))"

definition pipeline_disciplined :: "'f front_end \<Rightarrow> app \<Rightarrow> cpu_mode \<times> 'f pipeline \<Rightarrow> bool" where
  "pipeline_disciplined fe app s =
     (case s of (mode, m) \<Rightarrow> (case mode of
        Flushing pc \<Rightarrow> True
      | Running \<Rightarrow> (case pipeline_front fe app m of
          Inl _ \<Rightarrow> True
        | Inr m \<Rightarrow> read_disciplined m \<and> (case eu_prepare fe m of
            Inl _ \<Rightarrow> True
          | Inr (go, m) \<Rightarrow> (case go of None \<Rightarrow> True | Some memory \<Rightarrow> run_disciplined app memory m)))))"

section \<open>Ready to run\<close>

text \<open>The execute unit holds instruction \<open>i\<close> at \<open>pc\<close>, its operands are those of the architecture, and
  the write bus has room.\<close>

definition operands_ready :: "instr \<Rightarrow> 'f pipeline \<Rightarrow> bool" where
  "operands_ready i m \<longleftrightarrow> sb_pending (pl_writeBus m) = None
     \<and> (\<forall>r \<in> set (ReadRegisters (runner i noForward)).
          r = Zero \<or> r \<notin> set (pending_writes (in_writeBus m)))"

definition eu_holds :: "app \<Rightarrow> instr \<Rightarrow> int32 \<Rightarrow> 'f pipeline \<Rightarrow> bool" where
  "eu_holds app i pc m \<longleftrightarrow>
     eu_runner (pl_executeUnit m) = Some \<lparr>rp_Runner = i, rp_Pc = pc\<rparr>
     \<and> eu_processing (pl_executeUnit m) \<and> pc_in_app app pc \<and> instruction_at app pc = Inr i"

definition eu_idle :: "executeUnit \<Rightarrow> bool" where
  "eu_idle eu \<longleftrightarrow> \<not> eu_processing eu \<and> \<not> eu_pendingMemoryRead eu \<and> eu_memory eu = None"

lemma ready_operands:
  assumes "drains_to m C" and "operands_ready i m"
  shows "\<forall>r \<in> set (ReadRegisters (runner i noForward)).
      registerRead (pl_ctx m) noForward r = registerRead C noForward r"
    and "MemoryRead (runner i noForward) (pl_ctx m) = MemoryRead (runner i noForward) C"
proof -
  show reads: "\<forall>r \<in> set (ReadRegisters (runner i noForward)).
      registerRead (pl_ctx m) noForward r = registerRead C noForward r"
    using assms drained_registers by (auto simp: operands_ready_def)
  then show "MemoryRead (runner i noForward) (pl_ctx m) = MemoryRead (runner i noForward) C"
    by (rule memory_reads)
qed

text \<open>\<open>run\<close> up to the write bus: the registers, the memory and the data cache.\<close>

definition eu_start :: "InstructionRunnerPc \<Rightarrow> Context \<Rightarrow> 'f pipeline \<Rightarrow> 'f pipeline" where
  "eu_start r ctx m =
     on_eu (\<lambda>eu. eu\<lparr>eu_processing := False\<rparr>)
       (on_eu (\<lambda>eu. eu\<lparr>eu_runner := None\<rparr>) (m\<lparr>pl_ctx := ctx\<rparr>))"

lemma on_eu_simps [simp]:
  "pl_ctx (on_eu g m) = pl_ctx m" "pl_front (on_eu g m) = pl_front m"
  "pl_writeBus (on_eu g m) = pl_writeBus m" "pl_writeUnit (on_eu g m) = pl_writeUnit m"
  "pl_mmu (on_eu g m) = pl_mmu m" "in_writeBus (on_eu g m) = in_writeBus m"
  "pl_executeUnit (on_eu g m) = g (pl_executeUnit m)" "wu_work (on_eu g m) = wu_work m"
  "drains_to (on_eu g m) C = drains_to m C"
  by (simp_all add: on_eu_def in_writeBus_def wu_work_def drains_to_def)

lemma frame_simps [simp]:
  "drains_to (m\<lparr>pl_front := f\<rparr>) C = drains_to m C"
  "drains_to (m\<lparr>pl_cycle := k\<rparr>) C = drains_to m C"
  "in_writeBus (m\<lparr>pl_front := f\<rparr>) = in_writeBus m"
  "in_writeBus (m\<lparr>pl_cycle := k\<rparr>) = in_writeBus m"
  "in_writeBus (m\<lparr>pl_ctx := c\<rparr>) = in_writeBus m"
  "in_writeBus (m\<lparr>pl_mmu := u\<rparr>) = in_writeBus m"
  "wu_work (m\<lparr>pl_front := f\<rparr>) = wu_work m"
  "wu_work (m\<lparr>pl_cycle := k\<rparr>) = wu_work m"
  "wu_work (m\<lparr>pl_mmu := u\<rparr>) = wu_work m"
  "wu_work (m\<lparr>pl_ctx := c\<rparr>) = wu_work m"
  by (simp_all add: in_writeBus_def wu_work_def drains_to_def)

lemma mmu_drains:
  "drains_to m C \<Longrightarrow> mmu_ok u (Memory (pl_ctx m)) \<Longrightarrow> view u = view (pl_mmu m) \<Longrightarrow>
    drains_to (m\<lparr>pl_mmu := u\<rparr>) C"
  using seen_cong [of u "pl_mmu m"] entry_ok_cong [of u "pl_mmu m"]
  by (simp add: drains_to_def)

lemma eu_run_drains:
  assumes "drains_to m C" and "eu_holds app i pc m" and "operands_ready i m" and "supported app"
    and "arch_execute app pc C = Inr (C1, exe)"
    and "getFromMemory (Memory C) (MemoryRead (runner i noForward) C) = Inr memory"
    and "run_disciplined app memory m"
  shows "\<exists>ctx. Run (runner i noForward) (pl_ctx m) (Labels app) pc memory = Inr (ctx, exe)
    \<and> drains_to (m\<lparr>pl_ctx := ctx\<rparr>) C1 \<and> execution_disciplined app (pl_mmu m) exe
    \<and> (Return exe \<longrightarrow> return_drains m)"
proof -
  have runC: "Run (runner i noForward) C (Labels app) pc memory = Inr (C1, exe)"
    using assms(2,5,6) by (simp add: arch_execute_def eu_holds_def)
  from run_same [OF ready_operands(1) [OF assms(1,3)] runC] obtain ctx where
    run: "Run (runner i noForward) (pl_ctx m) (Labels app) pc memory = Inr (ctx, exe)" by blast
  have "instructionType i = Jal \<Longrightarrow> Ra \<notin> set (pending_writes (in_writeBus m))"
    and "execution_disciplined app (pl_mmu m) exe" and "instructionType i = Ret \<Longrightarrow> return_drains m"
    using assms(2,7) run by (auto simp: run_disciplined_def eu_holds_def)
  with run run_drains [OF assms(1) run runC] run_class(2) [OF run] show ?thesis
    by blast
qed

section \<open>The contract of the front\<close>

text \<open>
  \<open>fetching pc f\<close>: the next instruction that the front delivers is the one at \<open>pc\<close>; \<open>issued i pc f\<close>:
  it has delivered \<open>i\<close>, and \<open>asserted i pc f\<close> says that the branch unit was told. A resolved
  instruction leaves the front fetching the right address, or asks for a flush. \<open>distance\<close> bounds the
  cycles until the next delivery.
\<close>

locale front_laws =
  fixes fe :: "'f front_end"
    and app :: app
    and fetching :: "int32 \<Rightarrow> 'f \<Rightarrow> bool"
    and issued :: "instr \<Rightarrow> int32 \<Rightarrow> 'f \<Rightarrow> bool"
    and asserted :: "instr \<Rightarrow> int32 \<Rightarrow> 'f \<Rightarrow> bool"
    and flushable :: "'f \<Rightarrow> bool"
    and distance :: "'f \<Rightarrow> nat"
  assumes supported_law: "issued i pc f \<Longrightarrow> supported app"
    and fetching_law: "fetching pc f \<Longrightarrow> mmu_ok u mem \<Longrightarrow>
      \<exists>f' u'. fe_cycle fe app f u = Inr (f', u') \<and> mmu_ok u' mem \<and> l1d u' = l1d u
        \<and> (case fe_get fe f' of
             (None, f'') \<Rightarrow> fetching pc f'' \<and> distance f'' \<le> distance f
               \<and> (if pc_in_app app pc then distance f'' < distance f else fe_isEmpty fe f'')
           | (Some r, f'') \<Rightarrow> rp_Pc r = pc \<and> pc_in_app app pc
               \<and> instruction_at app pc = Inr (rp_Runner r) \<and> issued (rp_Runner r) pc f'')"
    and issued_law: "issued i pc f \<Longrightarrow> mmu_ok u mem \<Longrightarrow>
      \<exists>f' u'. fe_cycle fe app f u = Inr (f', u') \<and> mmu_ok u' mem \<and> l1d u' = l1d u \<and> issued i pc f'"
    and asserted_law: "asserted i pc f \<Longrightarrow> mmu_ok u mem \<Longrightarrow>
      \<exists>f' u'. fe_cycle fe app f u = Inr (f', u') \<and> mmu_ok u' mem \<and> l1d u' = l1d u \<and> asserted i pc f'"
    and assert_law: "issued i pc f \<Longrightarrow> asserted i pc (fe_assert fe \<lparr>rp_Runner = i, rp_Pc = pc\<rparr> f)"
    and asserted_issued: "asserted i pc f \<Longrightarrow> issued i pc f"
    and sequential_law: "asserted i pc f \<Longrightarrow> \<not> IsUnconditionalBranch (instructionType i) \<Longrightarrow>
      fetching (pc + 4) f"
    and resolved_law: "asserted i pc f \<Longrightarrow>
      Run (runner i noForward) ctx (Labels app) pc memory = Inr (ctx', exe) \<Longrightarrow>
      instructionType i \<noteq> Bltu \<Longrightarrow> (PcChange exe \<longrightarrow> code_address app (NextPc exe)) \<Longrightarrow>
      \<exists>f'. fe_resolved fe \<lparr>rp_Runner = i, rp_Pc = pc\<rparr> exe f = Inr f'
        \<and> (if PcChange exe
           then (case fe_shouldFlush fe (NextPc exe) f' of (flush, f'') \<Rightarrow>
             if flush then flushable f'' else fetching (NextPc exe) f'')
           else fetching (pc + 4) f')"
    and flush_law: "flushable f \<Longrightarrow> code_address app pc \<Longrightarrow> fetching pc (fe_flush fe pc f)"
    and not_empty: "fetching pc f \<Longrightarrow> pc_in_app app pc \<Longrightarrow> \<not> fe_isEmpty fe f"
    and distance_bound: "fetching pc f \<Longrightarrow> distance f \<le> 60"
    and flush_eu: "eu_idle eu \<Longrightarrow> eu_idle (fe_flushExecuteUnit fe eu)"
begin

text \<open>\<open>run\<close> of an instruction that is ready.\<close>

definition after_run :: "int32 \<Rightarrow> eu_signal \<Rightarrow> 'f pipeline \<Rightarrow> bool" where
  "after_run pc signal m \<longleftrightarrow> eu_idle (pl_executeUnit m) \<and>
     (case signal of
        Proceed \<Rightarrow> fetching pc (pl_front m)
      | FlushTo pc' \<Rightarrow> pc' = pc \<and> flushable (pl_front m) \<and> code_address app pc
      | Returned \<Rightarrow> False)"

lemma eu_run_result:
  assumes "drains_to m C" and "eu_holds app i pc m" and "operands_ready i m"
    and "asserted i pc (pl_front m)"
    and "\<not> eu_pendingMemoryRead (pl_executeUnit m)" and "eu_memory (pl_executeUnit m) = None"
    and "arch_execute app pc C = Inr (C1, exe)"
    and "getFromMemory (Memory C) (MemoryRead (runner i noForward) C) = Inr memory"
    and "run_disciplined app memory m"
    and "\<not> Return exe \<Longrightarrow> write_back C1 exe = Inr C2"
  shows "\<exists>signal m'. eu_run fe app memory m = Inr (signal, m') \<and>
    (if Return exe
     then signal = Returned \<and> drains_to m' C1 \<and> return_drains m'
     else drains_to m' C2 \<and> after_run (next_pc exe pc) signal m')"
proof -
  have supported_app: "supported app"
    using supported_law [OF asserted_issued [OF assms(4)]] .
  from eu_run_drains [OF assms(1-3) supported_app assms(7-9)] obtain ctx where
    run: "Run (runner i noForward) (pl_ctx m) (Labels app) pc memory = Inr (ctx, exe)"
    and d1: "drains_to (m\<lparr>pl_ctx := ctx\<rparr>) C1" and disc: "execution_disciplined app (pl_mmu m) exe"
    and ret: "Return exe \<longrightarrow> return_drains m"
    by blast
  have runner: "eu_runner (pl_executeUnit m) = Some \<lparr>rp_Runner = i, rp_Pc = pc\<rparr>"
    using assms(2) by (simp add: eu_holds_def)
  have kind: "instructionType i \<noteq> Bltu" "instructionType i \<noteq> Lh"
    using assms(2) supported_app by (auto simp: eu_holds_def supported_def instruction_at_def list_all_length)
  show ?thesis
  proof (cases "Return exe")
    case True
    with run d1 ret runner show ?thesis
      by (simp add: eu_run_def Let_def return_drains_def on_eu_def drains_to_def in_writeBus_def)
  next
    case no_ret: False
    let ?m1 = "eu_start \<lparr>rp_Runner = i, rp_Pc = pc\<rparr> ctx m"
    have m1: "drains_to ?m1 C1" "pl_front ?m1 = pl_front m" "pl_mmu ?m1 = pl_mmu m"
      "pl_writeBus ?m1 = pl_writeBus m" "eu_idle (pl_executeUnit ?m1)" "pl_ctx ?m1 = ctx"
      using d1 assms(5,6) by (simp_all add: eu_start_def eu_idle_def)
    have wb: "write_back C1 exe = Inr C2" using assms(10) no_ret .
    have finish: "\<exists>signal m'. eu_finish fe \<lparr>rp_Runner = i, rp_Pc = pc\<rparr> exe (?m1\<lparr>pl_mmu := u\<rparr>) = Inr (signal, m')
        \<and> drains_to m' C2 \<and> after_run (next_pc exe pc) signal m'"
      if u: "mmu_ok u (Memory ctx)" "view u = view (pl_mmu m)"
        and fresh: "MemoryChange exe \<Longrightarrow> \<forall>x \<in> set (map fst (MemoryChanges exe)). view (pl_mmu m) x = None"
      for u
    proof -
      let ?r = "\<lparr>rp_Runner = i, rp_Pc = pc\<rparr>"
      let ?e = "execution_context ?r exe"
      have "\<exists>a n. map fst (mem_changes ?e) = consecutive a n"
      proof (cases "MemoryChange exe \<and> \<not> RegisterChange exe")
        case True
        with store_keys [OF run] show ?thesis
          by (auto simp: mem_changes_def execution_context_def)
      next
        case False
        then have "map fst (mem_changes ?e) = consecutive 0 0"
          by (auto simp: mem_changes_def execution_context_def)
        then show ?thesis by blast
      qed
      then have entry: "entry_ok u ?e"
        using run_write_registers [OF run kind(2)] disc fresh
        by (auto simp: entry_ok_def execution_context_def execution_disciplined_def mem_changes_def u(2))
      have "drains_to (?m1\<lparr>pl_mmu := u\<rparr>) C1"
        using mmu_drains [OF m1(1)] u m1(3,6) by simp
      from add_drains [OF this _ , of ?e] entry wb assms(3) m1(4)
      have d2: "drains_to (?m1\<lparr>pl_mmu := u, pl_writeBus := SimpleBus_Add (pl_writeBus m) ?e,
          pl_ctx := AddPendingWriteRegisters ctx (WriteRegisters (runner i noForward))\<rparr>) C2"
        by (simp add: operands_ready_def SimpleBus_CanAdd_def execution_context_def m1(6))
      from resolved_law [OF assms(4) run kind(1)] disc obtain f' where
        f': "fe_resolved fe ?r exe (pl_front m) = Inr f'"
          "if PcChange exe then (case fe_shouldFlush fe (NextPc exe) f' of (flush, f'') \<Rightarrow>
             if flush then flushable f'' else fetching (NextPc exe) f'') else fetching (pc + 4) f'"
        by (auto simp: execution_disciplined_def)
      show ?thesis
      proof (cases "PcChange exe")
        case False
        with f' d2 m1(5) show ?thesis
          by (simp add: eu_finish_def m1(2,4,6) after_run_def next_pc_def)
      next
        case True
        obtain flush f'' where check: "fe_shouldFlush fe (NextPc exe) f' = (flush, f'')" by force
        with True f' d2 m1(5) disc show ?thesis
          by (cases flush)
            (simp_all add: eu_finish_def m1(2,4,6) after_run_def next_pc_def execution_disciplined_def)
      qed
    qed
    have ok: "mmu_ok (pl_mmu m) (Memory ctx)"
      using d1 by (simp add: drains_to_def)
    show ?thesis
    proof (cases "MemoryChange exe")
      case False
      have same: "?m1\<lparr>pl_mmu := pl_mmu m\<rparr> = ?m1"
        by (simp add: eu_start_def on_eu_def)
      from False run runner no_ret finish [OF ok refl, unfolded same] show ?thesis
        by (simp add: eu_run_def Let_def eu_start_def)
    next
      case mem: True
      then have kinds: "\<not> RegisterChange exe" "\<not> PcChange exe"
        using run_class(3) [OF run] by simp_all
      from store_keys [OF run mem] obtain a n where
        keys: "map fst (MemoryChanges exe) = consecutive a (Suc n)" by blast
      have "\<exists>mem'. store_all (MemoryChanges exe) (seen (pl_mmu m) (Memory ctx)) = Inr mem'"
        using drained_stores [OF m1(1)] wb mem kinds(1) m1(3,6) by (auto simp: write_back_Inr)
      then obtain mem' where mem': "store_all (MemoryChanges exe) (seen (pl_mmu m) (Memory ctx)) = Inr mem'"
        by blast
      have fits: "store_disciplined (pl_mmu m) (map fst (MemoryChanges exe))"
        using disc mem by (simp add: execution_disciplined_def)
      from ok keys mem' fits show ?thesis
      proof (cases rule: store_cases)
        case (hit u1 u2)
        have "drains_to (?m1\<lparr>pl_mmu := u2\<rparr>) C2"
          using hit_drains [OF m1(1) wb mem kinds(1)] mem' hit(2,4-6) m1(3,6) by simp
        moreover have "fetching (pc + 4) (pl_front m)"
          using sequential_law [OF assms(4)] run_class(5) [OF run] kinds(2) by blast
        ultimately show ?thesis
          using run runner no_ret mem kinds hit(1,3) m1(2,5)
          by (simp add: eu_run_def Let_def eu_start_def after_run_def next_pc_def)
      next
        case (miss u1)
        with finish [OF miss(3,4)] run runner no_ret mem show ?thesis
          by (simp add: eu_run_def Let_def eu_start_def)
      qed
    qed
  qed
qed

subsection \<open>Preparing an execution\<close>

definition eu_busy :: "instr \<Rightarrow> int32 \<Rightarrow> 'f pipeline \<Rightarrow> bool" where
  "eu_busy i pc m \<longleftrightarrow> eu_holds app i pc m \<and> \<not> eu_pendingMemoryRead (pl_executeUnit m)
     \<and> eu_memory (pl_executeUnit m) = None
     \<and> 1 \<le> eu_remainingCycles (pl_executeUnit m) \<and> eu_remainingCycles (pl_executeUnit m) \<le> 50
     \<and> issued i pc (pl_front m)"

definition eu_loading :: "instr \<Rightarrow> int32 \<Rightarrow> Context \<Rightarrow> 'f pipeline \<Rightarrow> bool" where
  "eu_loading i pc C m \<longleftrightarrow> eu_holds app i pc m \<and> eu_pendingMemoryRead (pl_executeUnit m)
     \<and> operands_ready i m
     \<and> 1 \<le> eu_remainingCycles (pl_executeUnit m) \<and> eu_remainingCycles (pl_executeUnit m) \<le> 50
     \<and> asserted i pc (pl_front m) \<and> MemoryRead (runner i noForward) C \<noteq> []
     \<and> (case eu_memory (pl_executeUnit m) of
          None \<Rightarrow> eu_addrs (pl_executeUnit m) = MemoryRead (runner i noForward) C
        | Some vs \<Rightarrow> getFromMemory (Memory C) (MemoryRead (runner i noForward) C) = Inr vs)"

definition eu_ready :: "instr \<Rightarrow> int32 \<Rightarrow> Context \<Rightarrow> int8 list \<Rightarrow> 'f pipeline \<Rightarrow> bool" where
  "eu_ready i pc C memory m \<longleftrightarrow> eu_holds app i pc m \<and> operands_ready i m
     \<and> \<not> eu_pendingMemoryRead (pl_executeUnit m) \<and> eu_memory (pl_executeUnit m) = None
     \<and> asserted i pc (pl_front m)
     \<and> getFromMemory (Memory C) (MemoryRead (runner i noForward) C) = Inr memory"

definition eu_sim :: "int32 \<Rightarrow> Context \<Rightarrow> 'f pipeline \<Rightarrow> bool" where
  "eu_sim pc C m \<longleftrightarrow> eu_idle (pl_executeUnit m) \<and> fetching pc (pl_front m)
     \<or> (\<exists>i. eu_busy i pc m) \<or> (\<exists>i. eu_loading i pc C m)"

text \<open>The cycles that the execute unit still needs, if the write unit does not hold it up.\<close>

definition eu_left :: "'f pipeline \<Rightarrow> nat" where
  "eu_left m =
     (let eu = pl_executeUnit m in
      if eu_pendingMemoryRead eu then nat (eu_remainingCycles eu)
      else if eu_processing eu then 52 + nat (eu_remainingCycles eu)
      else 110 + distance (pl_front m))"

definition same_writes :: "'f pipeline \<Rightarrow> 'f pipeline \<Rightarrow> bool" where
  "same_writes m' m \<longleftrightarrow> pl_writeBus m' = pl_writeBus m \<and> pl_writeUnit m' = pl_writeUnit m"

lemma same_writesD:
  "same_writes m' m \<Longrightarrow> wu_work m' = wu_work m" "same_writes m' m \<Longrightarrow> in_writeBus m' = in_writeBus m"
  by (simp_all add: same_writes_def wu_work_def in_writeBus_def)

text \<open>The result of \<open>eu_prepare\<close>: ready to run, or still waiting, with less to wait for unless the write
  unit has work.\<close>

definition prepared :: "int32 \<Rightarrow> Context \<Rightarrow> nat \<Rightarrow> int8 list option \<Rightarrow> 'f pipeline \<Rightarrow> bool" where
  "prepared pc C left go m \<longleftrightarrow>
     (case go of
        Some memory \<Rightarrow> \<exists>i. eu_ready i pc C memory m
      | None \<Rightarrow> eu_sim pc C m \<and> (eu_left m < left \<or> eu_left m \<le> left \<and> 0 < wu_work m))"

lemma eu_wait_simps [simp]:
  "pl_executeUnit (eu_wait k m) = (pl_executeUnit m)\<lparr>eu_remainingCycles := k\<rparr>"
  "pl_ctx (eu_wait k m) = pl_ctx m" "pl_front (eu_wait k m) = pl_front m"
  "pl_writeBus (eu_wait k m) = pl_writeBus m" "pl_writeUnit (eu_wait k m) = pl_writeUnit m"
  "pl_mmu (eu_wait k m) = pl_mmu m" "in_writeBus (eu_wait k m) = in_writeBus m"
  "wu_work (eu_wait k m) = wu_work m" "drains_to (eu_wait k m) C = drains_to m C"
  by (simp_all add: eu_wait_def)

lemma eu_read_result:
  assumes "drains_to m C" and "eu_loading i pc C m" and "read_disciplined m"
    and "getFromMemory (Memory C) (MemoryRead (runner i noForward) C) = Inr vs"
  shows "\<exists>go m'. eu_read m = Inr (go, m') \<and> drains_to m' C \<and> same_writes m' m
    \<and> prepared pc C (eu_left m) go m'"
proof (cases "eu_remainingCycles (pl_executeUnit m) = 1")
  case False
  let ?m = "eu_wait (eu_remainingCycles (pl_executeUnit m) - 1) m"
  have "eu_loading i pc C ?m"
    using assms(2) False
    by (simp add: eu_loading_def eu_holds_def operands_ready_def split: option.splits)
  moreover have "eu_left ?m < eu_left m"
    using assms(2) False by (simp add: eu_loading_def eu_left_def)
  ultimately show ?thesis
    using assms(1) False by (auto simp: eu_read_def prepared_def eu_sim_def same_writes_def)
next
  case last: True
  let ?eu = "pl_executeUnit m" and ?mem = "Memory (pl_ctx m)"
  have load: "eu_holds app i pc m" "operands_ready i m" "asserted i pc (pl_front m)"
    using assms(2) by (simp_all add: eu_loading_def)
  let ?done = "\<lambda>m. on_eu (\<lambda>eu. eu\<lparr>eu_memory := None\<rparr>)
    (on_eu (\<lambda>eu. eu\<lparr>eu_pendingMemoryRead := False\<rparr>) (eu_wait 0 m))"
  show ?thesis
  proof (cases "eu_memory ?eu")
    case (Some bytes)
    then have "bytes = vs"
      using assms(2,4) by (simp add: eu_loading_def)
    then have "eu_ready i pc C bytes (?done m)"
      using load assms(4) by (simp add: eu_ready_def eu_holds_def operands_ready_def)
    with Some last assms(1) show ?thesis
      by (auto simp: eu_read_def Let_def prepared_def same_writes_def)
  next
    case None
    then have addrs: "eu_addrs ?eu = MemoryRead (runner i noForward) C"
      and nonempty: "MemoryRead (runner i noForward) C \<noteq> []"
      using assms(2) by (simp_all add: eu_loading_def)
    let ?addrs = "MemoryRead (runner i noForward) C"
    from memory_read_addresses [of i noForward C] obtain a where
      a: "?addrs = consecutive a (length ?addrs)" "length ?addrs \<le> 4"
      unfolding consecutive_def by blast
    then have first: "?addrs ! 0 = a" "hd ?addrs = a"
      using nonempty by (metis Suc_pred consecutive_Suc length_greater_0_conv nth_Cons_0 list.sel(1))+
    have none: "pending_stores (in_writeBus m) = []" and room: "cache_room (l1d (pl_mmu m)) a"
      using assms(2,3) None last addrs first by (simp_all add: read_disciplined_def eu_loading_def)
    have bytes: "getFromMemory (seen (pl_mmu m) ?mem) ?addrs = Inr vs"
      using drained_bytes [OF assms(1,4)] none by simp
    have "mmu_ok (pl_mmu m) ?mem" using assms(1) by (simp add: drains_to_def)
    from load_miss [OF this a(1) _ room bytes] a(2) obtain line u1 u2 where
      u: "fetchCacheLine ?mem a = Inr line" "pushLineToL1D (pl_mmu m) ?mem a line = Inr (u1, ?mem)"
        "getFromL1D u1 ?addrs = Inr (Some vs, u2)" "mmu_ok u2 ?mem" "seen u2 ?mem = seen (pl_mmu m) ?mem"
      by auto
    let ?m = "?done m\<lparr>pl_mmu := u2\<rparr>"
    have "mem_changes e = []" if "e \<in> set (in_writeBus m)" for e
      using none that by (simp add: pending_stores_def)
    then have "\<forall>e \<in> set (in_writeBus m). entry_ok u2 e"
      using assms(1) by (auto simp: drains_to_def entry_ok_def)
    then have "drains_to ?m C"
      using assms(1) u(4,5) by (simp add: drains_to_def in_writeBus_def)
    moreover have "eu_ready i pc C vs ?m"
      using load assms(4) by (simp add: eu_ready_def eu_holds_def operands_ready_def in_writeBus_def)
    moreover have "eu_read m = Inr (Some vs, ?m)"
      using last None addrs first nonempty u(1-3)
      by (simp add: eu_read_def Let_def go_index_def on_eu_def eu_wait_def)
    ultimately show ?thesis
      by (auto simp: prepared_def same_writes_def)
  qed
qed

lemma in_writeBus_work: "in_writeBus m \<noteq> [] \<Longrightarrow> 0 < wu_work m"
  by (auto simp: in_writeBus_def SimpleBus_contents_def wu_work_def split: option.splits)

lemma eu_issue_result:
  assumes "drains_to m C" and "eu_busy i pc m"
    and "getFromMemory (Memory C) (MemoryRead (runner i noForward) C) = Inr vs"
    and "52 + nat (eu_remainingCycles (pl_executeUnit m)) \<le> left"
  shows "\<exists>go m'. eu_issue fe m = Inr (go, m') \<and> drains_to m' C \<and> same_writes m' m
    \<and> prepared pc C left go m'"
proof -
  let ?eu = "pl_executeUnit m"
  let ?r = "\<lparr>rp_Runner = i, rp_Pc = pc\<rparr>"
  have busy: "eu_holds app i pc m" "\<not> eu_pendingMemoryRead ?eu" "eu_memory ?eu = None"
    "1 \<le> eu_remainingCycles ?eu" "eu_remainingCycles ?eu \<le> 50" "issued i pc (pl_front m)"
    using assms(2) by (simp_all add: eu_busy_def)
  have wait: "eu_busy i pc (eu_wait k m)" if "1 \<le> k" "k \<le> 50" for k
    using busy that by (simp add: eu_busy_def eu_holds_def)
  have left: "eu_left (eu_wait k m') = 52 + nat k" if "eu_holds app i pc m'"
      "\<not> eu_pendingMemoryRead (pl_executeUnit m')" for k m'
    using that by (simp add: eu_left_def eu_holds_def)
  show ?thesis
  proof (cases "eu_remainingCycles ?eu = 1")
    case False
    have "prepared pc C left None (eu_wait (eu_remainingCycles ?eu - 1) m)"
      using wait [of "eu_remainingCycles ?eu - 1"] left [OF busy(1,2)] busy(4,5) False assms(4)
      by (auto simp: prepared_def eu_sim_def)
    then show ?thesis
      using False assms(1) by (auto simp: eu_issue_def Let_def same_writes_def)
  next
    case last: True
    have again: "eu_wait 1 (eu_wait 0 m) = eu_wait 1 m"
      by (simp add: eu_wait_def on_eu_def)
    show ?thesis
    proof (cases "SimpleBus_CanAdd (pl_writeBus m)")
      case False
      then have "0 < wu_work m"
        by (auto simp: SimpleBus_CanAdd_def wu_work_def)
      then have "prepared pc C left None (eu_wait 1 m)"
        using wait [of 1] left [OF busy(1,2)] assms(4) last by (auto simp: prepared_def eu_sim_def)
      with False last assms(1) busy(1) show ?thesis
        by (auto simp: eu_issue_def Let_def same_writes_def again)
    next
      case room: True
      let ?m = "(eu_wait 0 m)\<lparr>pl_front := fe_assert fe ?r (pl_front m)\<rparr>"
      let ?addrs = "MemoryRead (runner i noForward) C"
      have asserted: "asserted i pc (pl_front ?m)"
        using assert_law [OF busy(6)] by simp
      have holds: "eu_holds app i pc ?m" using busy(1) by (simp add: eu_holds_def)
      have issue: "eu_issue fe m =
        (if IsWriteDataHazard (pl_ctx m) (ReadRegisters (runner i noForward)) then Inr (None, eu_wait 1 ?m)
         else if MemoryRead (runner i noForward) (pl_ctx m) \<noteq> []
         then rbind (getFromL1D (pl_mmu m) (MemoryRead (runner i noForward) (pl_ctx m))) (\<lambda>(r, u). case r of
             Some memory \<Rightarrow> Inr (None, on_eu (\<lambda>eu. eu\<lparr>eu_memory := Some memory,
               eu_pendingMemoryRead := True, eu_remainingCycles := cyclesL1Access\<rparr>) (?m\<lparr>pl_mmu := u\<rparr>))
           | None \<Rightarrow> Inr (None, on_eu (\<lambda>eu. eu\<lparr>eu_addrs := MemoryRead (runner i noForward) (pl_ctx m),
               eu_pendingMemoryRead := True, eu_remainingCycles := cyclesMemoryAccess\<rparr>) (?m\<lparr>pl_mmu := u\<rparr>)))
         else Inr (Some [], ?m))"
        using last room busy(1) by (simp add: eu_issue_def Let_def eu_holds_def)
      show ?thesis
      proof (cases "IsWriteDataHazard (pl_ctx m) (ReadRegisters (runner i noForward))")
        case True
        then have "pending_writes (in_writeBus m) \<noteq> []"
          using pending_iff_in_writeBus [OF assms(1)] by (auto simp: IsWriteDataHazard_iff)
        then have "0 < wu_work m"
          by (intro in_writeBus_work) auto
        moreover have "eu_busy i pc (eu_wait 1 ?m)"
          using wait [of 1] asserted_issued [OF asserted] by (simp add: eu_busy_def eu_holds_def)
        moreover have "eu_left (eu_wait 1 ?m) = 53"
          using left [OF holds] busy(2) by simp
        ultimately have "prepared pc C left None (eu_wait 1 ?m)"
          using assms(4) last by (auto simp: prepared_def eu_sim_def)
        with True assms(1) show ?thesis
          by (auto simp: issue same_writes_def)
      next
        case False
        have ready: "operands_ready i m"
          using False room pending_iff_in_writeBus [OF assms(1)]
          by (auto simp: operands_ready_def IsWriteDataHazard_iff SimpleBus_CanAdd_def)
        note addrs = ready_operands(2) [OF assms(1) ready]
        have ready_m: "operands_ready i ?m" using ready by (simp add: operands_ready_def)
        show ?thesis
        proof (cases "?addrs = []")
          case True
          then have "eu_ready i pc C [] ?m"
            using holds ready_m busy(2,3) asserted by (simp add: eu_ready_def)
          with True False assms(1) show ?thesis
            by (auto simp: issue addrs prepared_def same_writes_def)
        next
          case nonempty: False
          have "mmu_ok (pl_mmu m) (Memory (pl_ctx m))" using assms(1) by (simp add: drains_to_def)
          from getFromL1D_result [OF this, of ?addrs] obtain u where
            u: "getFromL1D (pl_mmu m) ?addrs = Inr (those (map (view (pl_mmu m)) ?addrs), u)"
              "mmu_ok u (Memory (pl_ctx m))" "view u = view (pl_mmu m)"
            by blast
          have drains: "drains_to (?m\<lparr>pl_mmu := u\<rparr>) C"
            using mmu_drains [of ?m C u] assms(1) u(2,3) by simp
          let ?hit = "\<lambda>vs. on_eu (\<lambda>eu. eu\<lparr>eu_memory := Some vs, eu_pendingMemoryRead := True,
            eu_remainingCycles := cyclesL1Access\<rparr>) (?m\<lparr>pl_mmu := u\<rparr>)"
          let ?miss = "on_eu (\<lambda>eu. eu\<lparr>eu_addrs := ?addrs, eu_pendingMemoryRead := True,
            eu_remainingCycles := cyclesMemoryAccess\<rparr>) (?m\<lparr>pl_mmu := u\<rparr>)"
          note load = holds ready_m asserted nonempty
          show ?thesis
          proof (cases "\<forall>x \<in> set ?addrs. view (pl_mmu m) x \<noteq> None")
            case True
            have "\<forall>e \<in> set (in_writeBus m). entry_ok (pl_mmu m) e"
              using assms(1) by (simp add: drains_to_def)
            then have "\<forall>x \<in> set ?addrs. x \<notin> fst ` set (pending_stores (in_writeBus m))"
              using True uncached_stores by (metis set_map)
            from load_hit [OF True drained_bytes [OF assms(1,3) this]]
            have "eu_issue fe m = Inr (None, ?hit vs)"
              using False nonempty u(1) by (simp add: issue addrs)
            moreover have "eu_loading i pc C (?hit vs)"
              using load assms(3) by (simp add: eu_loading_def eu_holds_def operands_ready_def cyclesL1Access_def)
            moreover have "eu_left (?hit vs) < left"
              using assms(4) by (simp add: eu_left_def cyclesL1Access_def)
            ultimately show ?thesis
              using drains by (auto simp: prepared_def eu_sim_def same_writes_def)
          next
            case miss: False
            from load_miss_None [OF miss] have "eu_issue fe m = Inr (None, ?miss)"
              using False nonempty u(1) by (simp add: issue addrs)
            moreover have "eu_loading i pc C ?miss"
              using load busy(3) by (simp add: eu_loading_def eu_holds_def operands_ready_def cyclesMemoryAccess_def)
            moreover have "eu_left ?miss < left"
              using assms(4) last by (simp add: eu_left_def cyclesMemoryAccess_def)
            ultimately show ?thesis
              using drains by (auto simp: prepared_def eu_sim_def same_writes_def)
          qed
        qed
      qed
    qed
  qed
qed

end

end
