(* ===== verification/Front.thy ===== *)
theory Front
  imports PipelineExec
begin

text \<open>
  The fetch unit of MVP-4 and MVP-5 (\<open>fu.go\<close>; that of MVP-5 has one more field and cleans its bus
  first) and the invariant of the stages in front of the execute unit: the addresses on the buses are
  consecutive and end before the program counter of the fetch unit.
\<close>

section \<open>The fetch unit\<close>

record fetchUnit =
  fu_pc :: int32
  fu_remainingCycles :: int
  fu_complete :: bool
  fu_processing :: bool
  fu_cyclesMemoryAccess :: int

definition fetch_start :: "'z fetchUnit_scheme \<Rightarrow> memoryManagementUnit \<Rightarrow>
    ('z fetchUnit_scheme \<times> memoryManagementUnit) result" where
  "fetch_start fu u =
     (if fu_processing fu then Inr (fu, u)
      else let fu = fu\<lparr>fu_processing := True\<rparr> in
        rbind (getFromL1I u [fu_pc fu]) (\<lambda>(r, u).
          if r \<noteq> None then Inr (fu\<lparr>fu_remainingCycles := 1\<rparr>, u)
          else rbind (pushLineToL1I u (fu_pc fu) (replicate l1ICacheLineSize 0)) (\<lambda>u.
               Inr (fu\<lparr>fu_remainingCycles := fu_cyclesMemoryAccess fu\<rparr>, u))))"

definition fetch_advance :: "app \<Rightarrow> 'z fetchUnit_scheme \<Rightarrow> int32 SimpleBus \<Rightarrow>
    'z fetchUnit_scheme \<times> int32 SimpleBus" where
  "fetch_advance app fu outBus =
     (let fu = fu\<lparr>fu_remainingCycles := fu_remainingCycles fu - 1\<rparr> in
      if fu_remainingCycles fu = 0
      then if \<not> SimpleBus_CanAdd outBus then (fu\<lparr>fu_remainingCycles := 1\<rparr>, outBus)
           else let currentPC = fu_pc fu;
                    fu = fu\<lparr>fu_processing := False, fu_pc := fu_pc fu + 4\<rparr>;
                    fu = (if \<not> pc_in_app app (fu_pc fu) then fu\<lparr>fu_complete := True\<rparr> else fu)
                in (fu, SimpleBus_Add outBus currentPC)
      else (fu, outBus))"

definition fetchUnit_cycle :: "app \<Rightarrow> 'z fetchUnit_scheme \<Rightarrow> memoryManagementUnit \<Rightarrow> int32 SimpleBus \<Rightarrow>
    ('z fetchUnit_scheme \<times> memoryManagementUnit \<times> int32 SimpleBus) result" where
  "fetchUnit_cycle app fu u outBus =
     (if fu_complete fu then Inr (fu, u, outBus)
      else rbind (fetch_start fu u) (\<lambda>(fu, u).
           case fetch_advance app fu outBus of (fu, outBus) \<Rightarrow> Inr (fu, u, outBus)))"

definition fetchUnit_flush :: "int32 \<Rightarrow> 'z fetchUnit_scheme \<Rightarrow> 'z fetchUnit_scheme" where
  "fetchUnit_flush pc fu = fu\<lparr>fu_processing := False, fu_complete := False, fu_pc := pc\<rparr>"

section \<open>What a cycle of the fetch unit does\<close>

definition fetch_ok :: "app \<Rightarrow> 'z fetchUnit_scheme \<Rightarrow> bool" where
  "fetch_ok app fu \<longleftrightarrow> (fu_complete fu \<longleftrightarrow> \<not> pc_in_app app (fu_pc fu))
     \<and> (\<not> fu_complete fu \<longrightarrow> 0 \<le> sint (fu_pc fu))
     \<and> (fu_processing fu \<longrightarrow> 1 \<le> fu_remainingCycles fu \<and> fu_remainingCycles fu \<le> 50)
     \<and> fu_cyclesMemoryAccess fu = 50"

definition fetch_left :: "'z fetchUnit_scheme \<Rightarrow> nat" where
  "fetch_left fu =
     (if fu_complete fu then 0 else if fu_processing fu then nat (fu_remainingCycles fu) else 51)"

lemma fetch_left_bound: "fetch_ok app fu \<Longrightarrow> fetch_left fu \<le> 51"
  by (auto simp: fetch_ok_def fetch_left_def)

lemma quot32_4:
  assumes "0 \<le> sint pc"
  shows "sint (quot32 pc 4) = sint pc div 4"
proof -
  have "sint pc div 4 < 2 ^ 31" using sint32_range [of pc] by linarith
  moreover have "0 \<le> sint pc div 4" using assms by simp
  ultimately have "sint (word_of_int (sint pc div 4) :: int32) = sint pc div 4"
    using sint32_of_int [of "sint pc div 4"] by simp
  then show ?thesis
    using assms by (simp add: quot32_def signed_divide_int_def sgn_if)
qed

lemma code_address_index:
  assumes "code_address app pc" and "length (Instructions app) < 2 ^ 29"
  shows "sint pc div 4 < int (length (Instructions app))"
    and "instruction_at app pc = Inr (Instructions app ! nat (sint pc div 4))"
    and "0 \<le> sint (pc + 4)"
proof -
  have pc: "0 \<le> sint pc" using assms(1) by (simp add: code_address_def)
  have "sint (of_nat (length (Instructions app)) :: int32) = int (length (Instructions app))"
    using assms(2) by (intro sint32_of_nat) simp
  with assms(1) show less: "sint pc div 4 < int (length (Instructions app))"
    by (simp add: code_address_def pc_in_app_def word_sless_alt quot32_4 [OF pc])
  then show "instruction_at app pc = Inr (Instructions app ! nat (sint pc div 4))"
    using pc by (simp add: instruction_at_def quot32_4)
  have "int (length (Instructions app)) < 2 ^ 29" using assms(2) by simp
  with less have "sint pc div 4 < 2 ^ 29 - 1" by linarith
  then have "sint pc + 4 < 2 ^ 31" by simp
  then have "sint (pc + 4) = sint pc + 4"
    using sint32_add_exact [of pc 4] pc by simp
  then show "0 \<le> sint (pc + 4)" using pc by simp
qed

lemma fetch_result:
  assumes "fetch_ok app fu" and "mmu_ok u mem" and "length (Instructions app) < 2 ^ 29"
  shows "\<exists>fu' u' b'. fetchUnit_cycle app fu u b = Inr (fu', u', b') \<and> mmu_ok u' mem \<and> l1d u' = l1d u
    \<and> fetch_ok app fu' \<and> fetchUnit.more fu' = fetchUnit.more fu
    \<and> (fu_complete fu \<longrightarrow> fu' = fu \<and> b' = b)
    \<and> (b' = b \<and> fu_pc fu' = fu_pc fu \<and> (SimpleBus_CanAdd b \<and> \<not> fu_complete fu \<longrightarrow> fetch_left fu' < fetch_left fu)
      \<or> SimpleBus_CanAdd b \<and> b' = SimpleBus_Add b (fu_pc fu) \<and> code_address app (fu_pc fu)
        \<and> fu_pc fu' = fu_pc fu + 4)"
proof (cases "fu_complete fu")
  case True
  with assms show ?thesis by (simp add: fetchUnit_cycle_def)
next
  case False
  then have pc: "code_address app (fu_pc fu)"
    using assms(1) by (auto simp: fetch_ok_def code_address_def)
  from getFromL1I_single [OF assms(2), of "fu_pc fu"] obtain r u1 where
    u1: "getFromL1I u [fu_pc fu] = Inr (r, u1)" "mmu_ok u1 mem" "l1d u1 = l1d u" by blast
  from pushLineToL1I_ok [OF u1(2), of "fu_pc fu"] obtain u2 where
    u2: "pushLineToL1I u1 (fu_pc fu) (replicate l1ICacheLineSize 0) = Inr u2" "mmu_ok u2 mem" "l1d u2 = l1d u1"
    by blast
  have "\<exists>k u'. fetch_start fu u = Inr (fu\<lparr>fu_processing := True, fu_remainingCycles := k\<rparr>, u')
      \<and> mmu_ok u' mem \<and> l1d u' = l1d u \<and> 1 \<le> k \<and> k \<le> 50 \<and> nat k \<le> fetch_left fu"
  proof (cases "fu_processing fu")
    case True
    then have "fu\<lparr>fu_processing := True, fu_remainingCycles := fu_remainingCycles fu\<rparr> = fu" by simp
    with True False assms show ?thesis
      by (intro exI [of _ "fu_remainingCycles fu"] exI [of _ u])
        (simp add: fetch_start_def fetch_ok_def fetch_left_def)
  next
    case idle: False
    show ?thesis
    proof (cases r)
      case (Some v)
      with idle False u1 show ?thesis
        by (intro exI [of _ 1] exI [of _ u1]) (simp add: fetch_start_def Let_def fetch_left_def)
    next
      case None
      with idle False u1 u2 assms(1) show ?thesis
        by (intro exI [of _ 50] exI [of _ u2])
          (simp add: fetch_start_def Let_def fetch_left_def fetch_ok_def)
    qed
  qed
  then obtain k u' where start: "fetch_start fu u = Inr (fu\<lparr>fu_processing := True, fu_remainingCycles := k\<rparr>, u')"
    "mmu_ok u' mem" "l1d u' = l1d u" "1 \<le> k" "k \<le> 50" "nat k \<le> fetch_left fu"
    by blast
  have next_pc: "0 \<le> sint (fu_pc fu + 4)" using code_address_index(3) [OF pc assms(3)] .
  show ?thesis
  proof (cases "k = 1 \<and> SimpleBus_CanAdd b")
    case True
    with start pc next_pc assms(1) False show ?thesis
      by (auto simp: fetchUnit_cycle_def fetch_advance_def Let_def fetch_ok_def)
  next
    case stay: False
    show ?thesis
    proof (cases "k = 1")
      case True
      with stay start pc assms(1) False show ?thesis
        by (auto simp: fetchUnit_cycle_def fetch_advance_def Let_def fetch_ok_def)
    next
      case False
      with start pc assms(1) \<open>\<not> fu_complete fu\<close> show ?thesis
        by (auto simp: fetchUnit_cycle_def fetch_advance_def Let_def fetch_ok_def fetch_left_def)
    qed
  qed
qed

section \<open>Chains of addresses\<close>

text \<open>\<open>chain pc ps e\<close>: the addresses \<open>ps\<close> go from \<open>pc\<close> on in steps of 4, up to before \<open>e\<close>.\<close>

fun chain :: "int32 \<Rightarrow> int32 list \<Rightarrow> int32 \<Rightarrow> bool" where
  "chain pc [] e \<longleftrightarrow> e = pc"
| "chain pc (p # ps) e \<longleftrightarrow> p = pc \<and> chain (pc + 4) ps e"

lemma chain_snoc: "chain pc ps e \<Longrightarrow> chain pc (ps @ [e]) (e + 4)"
  by (induction ps arbitrary: pc) simp_all

definition decoded_ok :: "app \<Rightarrow> InstructionRunnerPc \<Rightarrow> bool" where
  "decoded_ok app r \<longleftrightarrow> code_address app (rp_Pc r) \<and> instruction_at app (rp_Pc r) = Inr (rp_Runner r)"

lemma contents_Add: "SimpleBus_CanAdd b \<Longrightarrow> SimpleBus_contents (SimpleBus_Add b x) = SimpleBus_contents b @ [x]"
  by (simp add: SimpleBus_contents_def SimpleBus_Add_def SimpleBus_CanAdd_def split: option.split)

lemma contents_Get:
  "SimpleBus_Get b = (r, b') \<Longrightarrow>
    SimpleBus_contents b = (case r of None \<Rightarrow> [] | Some x \<Rightarrow> [x]) @ SimpleBus_contents b'"
  by (auto simp: SimpleBus_Get_def SimpleBus_contents_def split: option.splits)

lemma contents_Flush [simp]: "SimpleBus_contents (SimpleBus_Flush b) = []"
  by (simp add: SimpleBus_contents_def SimpleBus_Flush_def)

text \<open>The cycles until an element on a bus can be taken.\<close>

definition bus_distance :: "'a SimpleBus \<Rightarrow> nat option" where
  "bus_distance b =
     (if sb_current b \<noteq> None then Some 0 else if sb_pending b \<noteq> None then Some 1 else None)"

lemma bus_distance_None: "bus_distance b = None \<longleftrightarrow> SimpleBus_contents b = []"
  by (auto simp: bus_distance_def SimpleBus_contents_def split: option.splits)

end
