(* ===== verification/Superscalar.thy ===== *)
theory Superscalar
  imports Pipeline Front Queue Btb
begin

text \<open>
  The parts that MVP-6.0 and MVP-6.1 share (\<open>src/proc/mvp6-0\<close>, \<open>src/proc/mvp6-1\<close>): the fetch unit, the
  decode unit, the branch unit, the write units and the main loop. A unit that waits over several
  cycles is a coroutine. MVP-6.0 keeps a function pointer, \<open>nil\<close> when the unit is idle; MVP-6.1 uses
  \<open>common/coroutine\<close>, whose current function is the start function when the unit is idle. Here the
  closures are data: \<open>None\<close> is the idle unit, \<open>Some c\<close> a checkpoint with the variables it has captured.
  The units hold pointers to each other, so that their operations are functions on the whole
  processor. Its type has the entries of the execute bus and the state of the control unit as
  parameters, in which the two versions differ.
\<close>

section \<open>Gauges\<close>

text \<open>\<open>common/obs/gauge.go\<close>: the sum and the number of the values of a statistic.\<close>

record Gauge =
  gauge_sum :: int
  gauge_count :: int

definition newGauge :: Gauge where
  "newGauge = \<lparr>gauge_sum = 0, gauge_count = 0\<rparr>"

definition Gauge_Push :: "int \<Rightarrow> Gauge \<Rightarrow> Gauge" where
  "Gauge_Push v g = g\<lparr>gauge_sum := gauge_sum g + v, gauge_count := gauge_count g + 1\<rparr>"

section \<open>The state\<close>

definition cycleL1DAccess :: int where "cycleL1DAccess = 1"
definition flushCycles :: int where "flushCycles = 1"

datatype fetch_checkpoint = FetchPending | FetchDone

record fetchUnit6 =
  fu6_pc :: int32
  fu6_toCleanPending :: bool
  fu6_complete :: bool
  fu6_coroutine :: "fetch_checkpoint option"
  fu6_remainingCycles :: int

record decodeUnit6 =
  du6_ret :: bool
  du6_pendingBranchResolution :: bool
  du6_pushed :: Gauge
  du6_pendingRead :: Gauge
  du6_blocked :: Gauge

record btbBranchUnit =
  bu6_btb :: branchTargetBuffer
  bu6_toCheck :: bool
  bu6_expectation :: int32

text \<open>The checkpoints of an execute unit: before the preparation, in front of \<open>run\<close> with bytes from the
  cache, and waiting for the memory.\<close>

datatype execute_checkpoint = PrepareRun | CacheHit int | CacheMiss int "int32 list"

record 'r executeUnit6 =
  eu6_coroutine :: "execute_checkpoint option"
  eu6_memory :: "int8 list"
  eu6_runner :: "'r option"

text \<open>A write unit that writes to the memory counts the cycles left.\<close>

record writeUnit6 =
  wu6_memoryWrite :: ExecutionContext
  wu6_coroutine :: "int option"

record ('r, 'e, 'c) cpu6 =
  c_ctx :: Context
  c_fetchUnit :: fetchUnit6
  c_decodeBus :: "int32 BufferedBus"
  c_decodeUnit :: decodeUnit6
  c_controlBus :: "InstructionRunnerPc BufferedBus"
  c_controlUnit :: 'c
  c_executeBus :: "'r BufferedBus"
  c_executeUnits :: "'e executeUnit6 list"
  c_writeBus :: "ExecutionContext BufferedBus"
  c_writeUnits :: "writeUnit6 list"
  c_branchUnit :: btbBranchUnit
  c_mmu :: memoryManagementUnit
  c_counterFlush :: int
  c_cycle :: int

definition newFetchUnit6 :: fetchUnit6 where
  "newFetchUnit6 = \<lparr>fu6_pc = 0, fu6_toCleanPending = False, fu6_complete = False,
     fu6_coroutine = None, fu6_remainingCycles = 0\<rparr>"

definition newDecodeUnit6 :: decodeUnit6 where
  "newDecodeUnit6 = \<lparr>du6_ret = False, du6_pendingBranchResolution = False, du6_pushed = newGauge,
     du6_pendingRead = newGauge, du6_blocked = newGauge\<rparr>"

definition newBTBBranchUnit :: "nat \<Rightarrow> btbBranchUnit" where
  "newBTBBranchUnit btbSize =
     \<lparr>bu6_btb = newBranchTargetBuffer btbSize, bu6_toCheck = False, bu6_expectation = 0\<rparr>"

definition newExecuteUnit6 :: "'r executeUnit6" where
  "newExecuteUnit6 = \<lparr>eu6_coroutine = None, eu6_memory = [], eu6_runner = None\<rparr>"

definition newWriteUnit6 :: writeUnit6 where
  "newWriteUnit6 = \<lparr>wu6_memoryWrite = \<lparr>ec_Pc = 0, ec_Execution = noExecution,
     ec_InstructionType = Add, ec_WriteRegisters = [], ec_ReadRegisters = []\<rparr>, wu6_coroutine = None\<rparr>"

definition newCPU6 :: "'c \<Rightarrow> bool \<Rightarrow> nat \<Rightarrow> ('r, 'e, 'c) cpu6 result" where
  "newCPU6 controlUnit debug memoryBytes =
     rbind newMemoryManagementUnit (\<lambda>u.
     Inr \<lparr>c_ctx = NewContext debug memoryBytes,
          c_fetchUnit = newFetchUnit6, c_decodeBus = NewBufferedBus 2 2,
          c_decodeUnit = newDecodeUnit6, c_controlBus = NewBufferedBus 2 2,
          c_controlUnit = controlUnit, c_executeBus = NewBufferedBus 2 2,
          c_executeUnits = [newExecuteUnit6, newExecuteUnit6],
          c_writeBus = NewBufferedBus 2 2, c_writeUnits = [newWriteUnit6, newWriteUnit6],
          c_branchUnit = newBTBBranchUnit 4, c_mmu = u, c_counterFlush = 0, c_cycle = 0\<rparr>)"

section \<open>The fetch unit\<close>

text \<open>The common end of both ways to fetch: the address goes to the bus, and behind the program the unit
  is done.\<close>

definition fetch6_push :: "app \<Rightarrow> int \<Rightarrow> fetchUnit6 \<Rightarrow> int32 BufferedBus \<Rightarrow> fetchUnit6 \<times> int32 BufferedBus" where
  "fetch6_push app cycle fu outBus =
     (let currentPc = fu6_pc fu;
          fu = fu\<lparr>fu6_pc := fu6_pc fu + 4\<rparr>;
          fu = (if \<not> pc_in_app app (fu6_pc fu)
                then fu\<lparr>fu6_coroutine := Some FetchDone, fu6_complete := True\<rparr> else fu)
      in (fu, BufferedBus_Add outBus currentPc cycle))"

fun fetch6_loop :: "app \<Rightarrow> int \<Rightarrow> nat \<Rightarrow> fetchUnit6 \<Rightarrow> memoryManagementUnit \<Rightarrow> int32 BufferedBus \<Rightarrow>
    (fetchUnit6 \<times> memoryManagementUnit \<times> int32 BufferedBus) result" where
  "fetch6_loop app cycle 0 fu u outBus = Inr (fu, u, outBus)"
| "fetch6_loop app cycle (Suc n) fu u outBus =
     (if \<not> BufferedBus_CanAdd outBus then Inr (fu, u, outBus)
      else rbind (getFromL1I u [fu6_pc fu]) (\<lambda>(r, u).
        if r = None
        then Inr (fu\<lparr>fu6_remainingCycles := cyclesMemoryAccess - 1, fu6_coroutine := Some FetchPending\<rparr>, u, outBus)
        else case fetch6_push app cycle fu outBus of (fu, outBus) \<Rightarrow> fetch6_loop app cycle n fu u outBus))"

definition coFetch :: "app \<Rightarrow> int \<Rightarrow> fetchUnit6 \<Rightarrow> memoryManagementUnit \<Rightarrow> int32 BufferedBus \<Rightarrow>
    (fetchUnit6 \<times> memoryManagementUnit \<times> int32 BufferedBus) result" where
  "coFetch app cycle fu u outBus =
     fetch6_loop app cycle (BufferedBus_OutLength outBus) (fu\<lparr>fu6_coroutine := None\<rparr>) u outBus"

definition coFetchPending :: "app \<Rightarrow> int \<Rightarrow> fetchUnit6 \<Rightarrow> memoryManagementUnit \<Rightarrow> int32 BufferedBus \<Rightarrow>
    (fetchUnit6 \<times> memoryManagementUnit \<times> int32 BufferedBus) result" where
  "coFetchPending app cycle fu u outBus =
     (if fu6_remainingCycles fu \<noteq> 0
      then Inr (fu\<lparr>fu6_remainingCycles := fu6_remainingCycles fu - 1\<rparr>, u, outBus)
      else rbind (pushLineToL1I u (fu6_pc fu) (replicate l1ICacheLineSize 0)) (\<lambda>u.
        case fetch6_push app cycle (fu\<lparr>fu6_coroutine := None\<rparr>) outBus of (fu, outBus) \<Rightarrow>
          Inr (fu, u, outBus)))"

definition fetchUnit6_cycle :: "app \<Rightarrow> ('r, 'e, 'c, 'z) cpu6_scheme \<Rightarrow> ('r, 'e, 'c, 'z) cpu6_scheme result" where
  "fetchUnit6_cycle app m =
     (let fu = c_fetchUnit m; outBus = c_decodeBus m;
          outBus = (if fu6_toCleanPending fu then BufferedBus_Clean outBus else outBus);
          fu = fu\<lparr>fu6_toCleanPending := False\<rparr>
      in rbind (case fu6_coroutine fu of
             None \<Rightarrow> coFetch app (c_cycle m) fu (c_mmu m) outBus
           | Some FetchPending \<Rightarrow> coFetchPending app (c_cycle m) fu (c_mmu m) outBus
           | Some FetchDone \<Rightarrow> Inr (fu, c_mmu m, outBus))
         (\<lambda>(fu, u, outBus). Inr (m\<lparr>c_fetchUnit := fu, c_mmu := u, c_decodeBus := outBus\<rparr>)))"

definition fetchUnit6_reset :: "int32 \<Rightarrow> bool \<Rightarrow> fetchUnit6 \<Rightarrow> fetchUnit6" where
  "fetchUnit6_reset pc cleanPending fu =
     fu\<lparr>fu6_coroutine := None, fu6_pc := pc, fu6_toCleanPending := cleanPending\<rparr>"

definition fetchUnit6_flush :: "int32 \<Rightarrow> fetchUnit6 \<Rightarrow> fetchUnit6" where
  "fetchUnit6_flush pc fu = fu\<lparr>fu6_coroutine := None, fu6_complete := False, fu6_pc := pc\<rparr>"

section \<open>The decode unit\<close>

lemma Get_shorter: "BufferedBus_Get b = (Some x, b') \<Longrightarrow> length (bb_queue b') < length (bb_queue b)"
  by (auto simp: BufferedBus_Get_def split: list.splits)

lemma contents_bus:
  "BufferedBus_contents (BufferedBus_Add b x c) = BufferedBus_contents b @ [x]"
  "BufferedBus_Get b = (Some x, b') \<Longrightarrow> BufferedBus_contents b = x # BufferedBus_contents b'"
  "BufferedBus_Get b = (got, b') \<Longrightarrow> length (bb_queue b') \<le> length (bb_queue b) \<and> queueLength b' = queueLength b"
  "BufferedBus_Get b = (None, b') \<Longrightarrow> b' = b"
  by (auto simp: BufferedBus_contents_def BufferedBus_Add_def BufferedBus_Get_def split: list.splits)

text \<open>The loop over the input bus. MVP-6.1 clears the forwarded value of the instruction: \<open>clear\<close>. When
  the output bus is full the loop goes on all the same.\<close>

function decode6_loop :: "(int32 \<Rightarrow> ('r, 'e, 'c, 'z) cpu6_scheme \<Rightarrow> ('r, 'e, 'c, 'z) cpu6_scheme) \<Rightarrow> app \<Rightarrow> int \<Rightarrow>
    ('r, 'e, 'c, 'z) cpu6_scheme \<Rightarrow> (int \<times> ('r, 'e, 'c, 'z) cpu6_scheme) result" where
  "decode6_loop clear app pushed m =
     (case BufferedBus_Get (c_decodeBus m) of (got, inBus) \<Rightarrow> (case got of
        None \<Rightarrow> Inr (pushed, m)
      | Some pc \<Rightarrow>
          let m' = m\<lparr>c_decodeBus := inBus\<rparr> in
          if int (length (Instructions app)) \<le> sint (quot32 pc 4) then Inr (pushed, m')
          else rbind (instruction_at app pc) (\<lambda>i.
            let t = instructionType i; du = c_decodeUnit m';
                jump = IsUnconditionalBranch t;
                du = (if jump then du\<lparr>du6_pendingBranchResolution := True\<rparr> else du);
                m'' = (clear pc m')\<lparr>c_controlBus := BufferedBus_Add (c_controlBus m')
                    \<lparr>rp_Runner = i, rp_Pc = pc\<rparr> (c_cycle m'), c_decodeBus := inBus\<rparr>
            in if jump then Inr (pushed + 1, m''\<lparr>c_decodeUnit := du\<rparr>)
               else decode6_loop clear app (pushed + 1) (m''\<lparr>c_decodeUnit :=
                 (if t = Ret then du\<lparr>du6_ret := True\<rparr> else du)\<rparr>))))"
  by pat_completeness auto
termination
  by (relation "measure (\<lambda>(clear, app, pushed, m). length (bb_queue (c_decodeBus m)))")
    (auto simp: BufferedBus_Get_def split: list.splits)

declare decode6_loop.simps [simp del]

definition decodeUnit6_cycle :: "(int32 \<Rightarrow> ('r, 'e, 'c, 'z) cpu6_scheme \<Rightarrow> ('r, 'e, 'c, 'z) cpu6_scheme) \<Rightarrow> app \<Rightarrow>
    ('r, 'e, 'c, 'z) cpu6_scheme \<Rightarrow> ('r, 'e, 'c, 'z) cpu6_scheme result" where
  "decodeUnit6_cycle clear app m =
     (let inBus = c_decodeBus m; du = c_decodeUnit m;
          du = du\<lparr>du6_pendingRead := Gauge_Push (int (BufferedBus_PendingRead inBus)) (du6_pendingRead du),
                  du6_blocked := Gauge_Push (if BufferedBus_CanGet inBus then 1 else 0) (du6_blocked du)\<rparr>;
          m = m\<lparr>c_decodeUnit := du\<rparr>
      in rbind (if du6_ret du \<or> du6_pendingBranchResolution du then Inr (0, m)
                else decode6_loop clear app 0 m)
         (\<lambda>(pushed, m). Inr (m\<lparr>c_decodeUnit := (c_decodeUnit m)\<lparr>du6_pushed :=
            Gauge_Push pushed (du6_pushed (c_decodeUnit m))\<rparr>\<rparr>)))"

definition decodeUnit6_notifyBranchResolved :: "decodeUnit6 \<Rightarrow> decodeUnit6" where
  "decodeUnit6_notifyBranchResolved du = du\<lparr>du6_pendingBranchResolution := False\<rparr>"

definition decodeUnit6_flush :: "decodeUnit6 \<Rightarrow> decodeUnit6" where
  "decodeUnit6_flush du = du\<lparr>du6_pendingBranchResolution := False\<rparr>"

section \<open>The branch unit\<close>

definition btb6_assert :: "instr \<Rightarrow> int32 \<Rightarrow> ('r, 'e, 'c, 'z) cpu6_scheme \<Rightarrow> ('r, 'e, 'c, 'z) cpu6_scheme" where
  "btb6_assert i pc m =
     (let t = instructionType i; bu = c_branchUnit m in
      if IsUnconditionalBranch t then (case btb_get (bu6_btb bu) pc of
        None \<Rightarrow> m\<lparr>c_branchUnit := bu\<lparr>bu6_toCheck := True, bu6_expectation := -1\<rparr>\<rparr>
      | Some nextPc \<Rightarrow> m\<lparr>c_branchUnit := bu\<lparr>bu6_toCheck := False\<rparr>,
          c_fetchUnit := fetchUnit6_reset nextPc True (c_fetchUnit m)\<rparr>)
      else if IsConditionalBranch t
      then m\<lparr>c_branchUnit := bu\<lparr>bu6_toCheck := True, bu6_expectation := pc + 4\<rparr>\<rparr>
      else m\<lparr>c_branchUnit := bu\<lparr>bu6_toCheck := False\<rparr>\<rparr>)"

definition btb6_shouldFlushPipeline :: "int32 \<Rightarrow> ('r, 'e, 'c, 'z) cpu6_scheme \<Rightarrow> bool \<times> ('r, 'e, 'c, 'z) cpu6_scheme" where
  "btb6_shouldFlushPipeline pc m =
     (let bu = c_branchUnit m in
      if \<not> bu6_toCheck bu then (False, m)
      else (bu6_expectation bu \<noteq> pc, m\<lparr>c_branchUnit := bu\<lparr>bu6_toCheck := False\<rparr>\<rparr>))"

definition btb6_notifyJumpAddressResolved :: "int32 \<Rightarrow> int32 \<Rightarrow> ('r, 'e, 'c, 'z) cpu6_scheme \<Rightarrow>
    ('r, 'e, 'c, 'z) cpu6_scheme result" where
  "btb6_notifyJumpAddressResolved pc pcTo m =
     rbind (btb_add (bu6_btb (c_branchUnit m)) pc pcTo) (\<lambda>btb.
     Inr (m\<lparr>c_branchUnit := (c_branchUnit m)\<lparr>bu6_btb := btb\<rparr>,
            c_fetchUnit := fetchUnit6_reset pcTo True (c_fetchUnit m),
            c_decodeUnit := decodeUnit6_notifyBranchResolved (c_decodeUnit m)\<rparr>))"

section \<open>The write units\<close>

definition coWrite :: "int \<Rightarrow> writeUnit6 \<Rightarrow> Context \<Rightarrow> (writeUnit6 \<times> Context) result" where
  "coWrite remainingCycle wu ctx =
     (if 0 < remainingCycle then Inr (wu\<lparr>wu6_coroutine := Some (remainingCycle - 1)\<rparr>, ctx)
      else rbind (WriteMemory ctx (ec_Execution (wu6_memoryWrite wu))) (\<lambda>ctx.
        Inr (wu\<lparr>wu6_coroutine := None\<rparr>, DeletePendingRegisters ctx
          (ec_ReadRegisters (wu6_memoryWrite wu)) (ec_WriteRegisters (wu6_memoryWrite wu)))))"

definition writeUnit6_retire :: "ExecutionContext \<Rightarrow> writeUnit6 \<Rightarrow> Context \<Rightarrow> writeUnit6 \<times> Context" where
  "writeUnit6_retire e wu ctx =
     (if RegisterChange (ec_Execution e)
      then (wu, DeletePendingRegisters (WriteRegister ctx (ec_Execution e))
        (ec_ReadRegisters e) (ec_WriteRegisters e))
      else if MemoryChange (ec_Execution e)
      then (wu\<lparr>wu6_coroutine := Some cyclesMemoryAccess, wu6_memoryWrite := e\<rparr>, ctx)
      else (wu, DeletePendingRegisters ctx (ec_ReadRegisters e) (ec_WriteRegisters e)))"

text \<open>\<open>before\<close> is -1 but in a flush, where younger instructions are dropped.\<close>

definition writeUnit6_cycle :: "int32 \<Rightarrow> nat \<Rightarrow> ('r, 'e, 'c, 'z) cpu6_scheme \<Rightarrow> ('r, 'e, 'c, 'z) cpu6_scheme result" where
  "writeUnit6_cycle from k m =
     (let wu = c_writeUnits m ! k; finish = (\<lambda>(wu, ctx) m.
        m\<lparr>c_writeUnits := (c_writeUnits m)[k := wu], c_ctx := ctx\<rparr>) in
      case wu6_coroutine wu of
        Some remainingCycle \<Rightarrow> rbind (coWrite remainingCycle wu (c_ctx m)) (\<lambda>r. Inr (finish r m))
      | None \<Rightarrow> (case BufferedBus_Get (c_writeBus m) of (got, inBus) \<Rightarrow>
          let m = m\<lparr>c_writeBus := inBus\<rparr> in (case got of
            None \<Rightarrow> Inr m
          | Some e \<Rightarrow>
              if from \<noteq> -1 \<and> from <s ec_Pc e then Inr m
              else Inr (finish (writeUnit6_retire e wu (c_ctx m)) m))))"

definition writeUnit6_isEmpty :: "writeUnit6 \<Rightarrow> bool" where
  "writeUnit6_isEmpty wu = (wu6_coroutine wu = None)"

section \<open>Shared parts of the execute units\<close>

record euResp =
  resp_flush :: bool
  resp_from :: int32
  resp_pc :: int32
  resp_isReturn :: bool

definition noResp :: euResp where
  "noResp = \<lparr>resp_flush = False, resp_from = 0, resp_pc = 0, resp_isReturn = False\<rparr>"

definition on_eu6 :: "nat \<Rightarrow> ('e executeUnit6 \<Rightarrow> 'e executeUnit6) \<Rightarrow> ('r, 'e, 'c, 'z) cpu6_scheme \<Rightarrow>
    ('r, 'e, 'c, 'z) cpu6_scheme" where
  "on_eu6 k g m = m\<lparr>c_executeUnits := (c_executeUnits m)[k := g (c_executeUnits m ! k)]\<rparr>"

definition writeContext6 :: "InstructionRunner \<Rightarrow> int32 \<Rightarrow> Execution \<Rightarrow> ExecutionContext" where
  "writeContext6 methods pc exe =
     \<lparr>ec_Pc = pc, ec_Execution = exe, ec_InstructionType = InstructionTypeOf methods,
      ec_WriteRegisters = WriteRegisters methods, ec_ReadRegisters = ReadRegisters methods\<rparr>"

text \<open>The line that has been read from the memory goes into the data cache.\<close>

definition coMemory6 :: "nat \<Rightarrow> int32 list \<Rightarrow> ('r, 'e, 'c, 'z) cpu6_scheme \<Rightarrow> ('r, 'e, 'c, 'z) cpu6_scheme result" where
  "coMemory6 k addrs m =
     rbind (go_index addrs 0) (\<lambda>addr.
     rbind (fetchCacheLine (Memory (c_ctx m)) addr) (\<lambda>line.
     rbind (pushLineToL1D (c_mmu m) (Memory (c_ctx m)) addr line) (\<lambda>(u, mem).
     rbind (getFromL1D u addrs) (\<lambda>(got, u). case got of
       None \<Rightarrow> Inl (Panic CacheLineMissing)
     | Some memory \<Rightarrow> Inr (on_eu6 k (\<lambda>eu. eu\<lparr>eu6_memory := memory\<rparr>)
         (m\<lparr>c_mmu := u, c_ctx := (c_ctx m)\<lparr>Memory := mem\<rparr>\<rparr>))))))"

text \<open>A jump or a taken branch is reported to the branch unit, which decides on a flush.\<close>

definition reportBranch6 :: "instr \<Rightarrow> int32 \<Rightarrow> Execution \<Rightarrow> ('r, 'e, 'c, 'z) cpu6_scheme \<Rightarrow>
    (euResp \<times> ('r, 'e, 'c, 'z) cpu6_scheme) result" where
  "reportBranch6 i pc exe m =
     rbind (if IsUnconditionalBranch (instructionType i)
            then btb6_notifyJumpAddressResolved pc (NextPc exe) m else Inr m) (\<lambda>m.
     case (if PcChange exe then btb6_shouldFlushPipeline (NextPc exe) m else (False, m)) of (flush, m) \<Rightarrow>
       Inr (if flush then noResp\<lparr>resp_flush := True, resp_from := pc, resp_pc := NextPc exe\<rparr>
            else noResp, m))"

text \<open>What an execute unit does with an instruction whose methods are \<open>methods\<close>. \<open>finish exe\<close> is the end,
  in which the versions differ.\<close>

definition run6 :: "InstructionRunner \<Rightarrow> (Execution \<Rightarrow> ('r, 'e, 'c, 'z) cpu6_scheme \<Rightarrow>
    (euResp \<times> ('r, 'e, 'c, 'z) cpu6_scheme) result) \<Rightarrow> nat \<Rightarrow> int32 \<Rightarrow> app \<Rightarrow> ('r, 'e, 'c, 'z) cpu6_scheme \<Rightarrow>
    (euResp \<times> ('r, 'e, 'c, 'z) cpu6_scheme) result" where
  "run6 methods finish k pc app m =
     (let m = on_eu6 k (\<lambda>eu. eu\<lparr>eu6_coroutine := None\<rparr>) m
      in rbind (Run methods (c_ctx m) (Labels app) pc (eu6_memory (c_executeUnits m ! k))) (\<lambda>(ctx, exe).
         let m = m\<lparr>c_ctx := ctx\<rparr> in
         if Return exe then Inr (noResp\<lparr>resp_isReturn := True\<rparr>, m)
         else rbind (if MemoryChange exe then doesExecutionMemoryChangesExistsInL1D (c_mmu m) exe
                     else Inr (False, c_mmu m)) (\<lambda>(exists, u).
         let m = m\<lparr>c_mmu := u\<rparr> in
         if exists
         then rbind (writeExecutionMemoryChangesToL1D u exe) (\<lambda>u.
           Inr (noResp, m\<lparr>c_mmu := u, c_ctx := DeletePendingRegisters (c_ctx m)
             (ReadRegisters methods) (WriteRegisters methods)\<rparr>))
         else finish exe m)))"

text \<open>A load waits for the data cache or for the memory.\<close>

definition load6 :: "nat \<Rightarrow> int32 list \<Rightarrow> ('r, 'e, 'c, 'z) cpu6_scheme \<Rightarrow>
    (euResp \<times> ('r, 'e, 'c, 'z) cpu6_scheme) result" where
  "load6 k addrs m =
     rbind (getFromL1D (c_mmu m) addrs) (\<lambda>(got, u).
       let m = m\<lparr>c_mmu := u\<rparr> in case got of
         Some memory \<Rightarrow> Inr (noResp, on_eu6 k (\<lambda>eu. eu\<lparr>eu6_memory := memory,
           eu6_coroutine := Some (CacheHit (cycleL1DAccess - 1))\<rparr>) m)
       | None \<Rightarrow> Inr (noResp, on_eu6 k (\<lambda>eu. eu\<lparr>eu6_coroutine :=
           Some (CacheMiss (cyclesMemoryAccess - 1) addrs)\<rparr>) m))"

text \<open>The functions that are stored as coroutines.\<close>

definition resume6 :: "(('r, 'e, 'c, 'z) cpu6_scheme \<Rightarrow> (euResp \<times> ('r, 'e, 'c, 'z) cpu6_scheme) result) \<Rightarrow>
    (('r, 'e, 'c, 'z) cpu6_scheme \<Rightarrow> (euResp \<times> ('r, 'e, 'c, 'z) cpu6_scheme) result) \<Rightarrow>
    nat \<Rightarrow> execute_checkpoint \<Rightarrow> ('r, 'e, 'c, 'z) cpu6_scheme \<Rightarrow>
    (euResp \<times> ('r, 'e, 'c, 'z) cpu6_scheme) result" where
  "resume6 prepare run k co m =
     (case co of
        PrepareRun \<Rightarrow> prepare m
      | CacheHit n \<Rightarrow>
          if 0 < n then Inr (noResp, on_eu6 k (\<lambda>eu. eu\<lparr>eu6_coroutine := Some (CacheHit (n - 1))\<rparr>) m)
          else run m
      | CacheMiss n addrs \<Rightarrow>
          if 0 < n then Inr (noResp, on_eu6 k (\<lambda>eu. eu\<lparr>eu6_coroutine := Some (CacheMiss (n - 1) addrs)\<rparr>) m)
          else rbind (coMemory6 k addrs m) run)"

section \<open>The main loop\<close>

text \<open>The units in which the two versions differ.\<close>

record 'm units6 =
  un_decode :: "app \<Rightarrow> 'm \<Rightarrow> 'm result"
  un_control :: "'m \<Rightarrow> 'm"
  un_flushControl :: "'m \<Rightarrow> 'm"
  un_execute :: "nat \<Rightarrow> app \<Rightarrow> 'm \<Rightarrow> (euResp \<times> 'm) result"

definition cpu6_connect :: "('r, 'e, 'c, 'z) cpu6_scheme \<Rightarrow> ('r, 'e, 'c, 'z) cpu6_scheme" where
  "cpu6_connect m =
     m\<lparr>c_decodeBus := BufferedBus_Connect (c_decodeBus m) (c_cycle m),
       c_controlBus := BufferedBus_Connect (c_controlBus m) (c_cycle m),
       c_executeBus := BufferedBus_Connect (c_executeBus m) (c_cycle m),
       c_writeBus := BufferedBus_Connect (c_writeBus m) (c_cycle m)\<rparr>"

text \<open>The loop over the execute units: their answers are joined, with the larger of the addresses.\<close>

definition join_resp :: "euResp \<Rightarrow> euResp \<Rightarrow> euResp" where
  "join_resp a r =
     \<lparr>resp_flush = resp_flush a \<or> resp_flush r,
      resp_from = (if resp_flush r then resp_from r else resp_from a),
      resp_pc = (if resp_pc a <s resp_pc r then resp_pc r else resp_pc a),
      resp_isReturn = resp_isReturn a \<or> resp_isReturn r\<rparr>"

fun executeUnits_cycle :: "('r, 'e, 'c, 'z) cpu6_scheme units6 \<Rightarrow> app \<Rightarrow> nat list \<Rightarrow> euResp \<Rightarrow>
    ('r, 'e, 'c, 'z) cpu6_scheme \<Rightarrow> (euResp \<times> ('r, 'e, 'c, 'z) cpu6_scheme) result" where
  "executeUnits_cycle un app [] a m = Inr (a, m)"
| "executeUnits_cycle un app (k # ks) a m =
     rbind (un_execute un k app m) (\<lambda>(r, m). executeUnits_cycle un app ks (join_resp a r) m)"

fun writeUnits_cycle :: "int32 \<Rightarrow> nat list \<Rightarrow> ('r, 'e, 'c, 'z) cpu6_scheme \<Rightarrow> ('r, 'e, 'c, 'z) cpu6_scheme result" where
  "writeUnits_cycle from [] m = Inr m"
| "writeUnits_cycle from (k # ks) m = rbind (writeUnit6_cycle from k m) (writeUnits_cycle from ks)"

definition areWriteUnitsEmpty :: "('r, 'e, 'c, 'z) cpu6_scheme \<Rightarrow> bool" where
  "areWriteUnitsEmpty m = list_all writeUnit6_isEmpty (c_writeUnits m)"

definition executeUnit6_isEmpty :: "'r executeUnit6 \<Rightarrow> bool" where
  "executeUnit6_isEmpty eu = (eu6_coroutine eu = None)"

definition executeUnit6_flush :: "'r executeUnit6 \<Rightarrow> 'r executeUnit6" where
  "executeUnit6_flush eu = eu\<lparr>eu6_coroutine := None\<rparr>"

definition cpu6_flush :: "('r, 'e, 'c, 'z) cpu6_scheme units6 \<Rightarrow> int32 \<Rightarrow> ('r, 'e, 'c, 'z) cpu6_scheme \<Rightarrow>
    ('r, 'e, 'c, 'z) cpu6_scheme" where
  "cpu6_flush un pc m =
     (un_flushControl un m)
       \<lparr>c_fetchUnit := fetchUnit6_flush pc (c_fetchUnit m),
        c_decodeUnit := decodeUnit6_flush (c_decodeUnit m),
        c_executeUnits := map executeUnit6_flush (c_executeUnits m),
        c_decodeBus := BufferedBus_Clean (c_decodeBus m),
        c_controlBus := BufferedBus_Clean (c_controlBus m),
        c_executeBus := BufferedBus_Clean (c_executeBus m),
        c_writeBus := BufferedBus_Clean (c_writeBus m),
        c_ctx := Context_Flush (c_ctx m)\<rparr>"

text \<open>The queue of the control unit is part of its state, which \<open>pendings\<close> selects.\<close>

definition cpu6_isEmpty :: "('c \<Rightarrow> 'q Queue) \<Rightarrow> ('r, 'e, 'c, 'z) cpu6_scheme \<Rightarrow> bool" where
  "cpu6_isEmpty pendings m \<longleftrightarrow>
     fu6_complete (c_fetchUnit m) \<and> Queue_Length (pendings (c_controlUnit m)) = 0
     \<and> areWriteUnitsEmpty m
     \<and> BufferedBus_IsEmpty (c_decodeBus m) \<and> BufferedBus_IsEmpty (c_controlBus m)
     \<and> BufferedBus_IsEmpty (c_executeBus m) \<and> BufferedBus_IsEmpty (c_writeBus m)
     \<and> list_all executeUnit6_isEmpty (c_executeUnits m)"

definition cpu6_end :: "('r, 'e, 'c, 'z) cpu6_scheme \<Rightarrow> ('r, 'e, 'c, 'z) cpu6_scheme result" where
  "cpu6_end m =
     rbind (mmu_flush cyclesMemoryAccess (c_mmu m) (Memory (c_ctx m))) (\<lambda>(cycles, memory).
     Inr (m\<lparr>c_cycle := c_cycle m + cycles, c_ctx := (c_ctx m)\<lparr>Memory := memory\<rparr>\<rparr>))"

text \<open>\<open>Cycling\<close> is the main loop. The inner loops are modes of their own: \<open>Returning\<close> after a \<open>ret\<close>, and
  \<open>Draining k from pc\<close>, the loop over the write units before a flush, at unit \<open>k\<close>.\<close>

datatype mode6 = Cycling | Returning | Draining nat int32 int32

definition cpu6_cycle :: "('r, 'e, 'c, 'z) cpu6_scheme units6 \<Rightarrow> app \<Rightarrow> ('r, 'e, 'c, 'z) cpu6_scheme \<Rightarrow>
    (euResp \<times> ('r, 'e, 'c, 'z) cpu6_scheme) result" where
  "cpu6_cycle un app m =
     rbind (fetchUnit6_cycle app (cpu6_connect (m\<lparr>c_cycle := c_cycle m + 1\<rparr>))) (\<lambda>m.
     rbind (un_decode un app m) (\<lambda>m.
     rbind (executeUnits_cycle un app [0..<length (c_executeUnits m)] noResp (un_control un m)) (\<lambda>(r, m).
     rbind (writeUnits_cycle (-1) [0..<length (c_writeUnits m)] m) (\<lambda>m. Inr (r, m)))))"

definition connect_writes :: "int \<Rightarrow> ('r, 'e, 'c, 'z) cpu6_scheme \<Rightarrow> ('r, 'e, 'c, 'z) cpu6_scheme" where
  "connect_writes cycle m = m\<lparr>c_writeBus := BufferedBus_Connect (c_writeBus m) cycle\<rparr>"

definition cpu6_step :: "('r, 'e, 'c, 'z) cpu6_scheme units6 \<Rightarrow> ('c \<Rightarrow> 'q Queue) \<Rightarrow> app \<Rightarrow>
    mode6 \<times> ('r, 'e, 'c, 'z) cpu6_scheme \<Rightarrow>
    (mode6 \<times> ('r, 'e, 'c, 'z) cpu6_scheme, ('r, 'e, 'c, 'z) cpu6_scheme) outcome result" where
  "cpu6_step un pendings app s =
     (case s of (mode, m) \<Rightarrow> (case mode of
        Cycling \<Rightarrow>
          rbind (cpu6_cycle un app m) (\<lambda>(r, m).
          if resp_isReturn r
          then Inr (Continue (Returning, connect_writes (c_cycle m + 1)
            (m\<lparr>c_counterFlush := c_counterFlush m + 1, c_cycle := c_cycle m + 1\<rparr>)))
          else if resp_flush r
          then Inr (Continue (Draining 0 (resp_from r) (resp_pc r), connect_writes (c_cycle m + 1) m))
          else if cpu6_isEmpty pendings m then rbind (cpu6_end m) (\<lambda>m. Inr (Done m))
          else Inr (Continue (Cycling, m)))
      | Returning \<Rightarrow>
          if \<not> areWriteUnitsEmpty m \<or> \<not> BufferedBus_IsEmpty (c_writeBus m)
          then rbind (writeUnits_cycle (-1) [0..<length (c_writeUnits m)] m) (\<lambda>m.
            Inr (Continue (Returning, connect_writes (c_cycle m + 1) (m\<lparr>c_cycle := c_cycle m + 1\<rparr>))))
          else rbind (cpu6_end m) (\<lambda>m. Inr (Done m))
      | Draining k from pc \<Rightarrow>
          if k < length (c_writeUnits m)
          then if \<not> writeUnit6_isEmpty (c_writeUnits m ! k) \<or> \<not> BufferedBus_IsEmpty (c_writeBus m)
               then rbind (writeUnit6_cycle from k (m\<lparr>c_cycle := c_cycle m + 1\<rparr>)) (\<lambda>m.
                 Inr (Continue (Draining k from pc, m)))
               else Inr (Continue (Draining (Suc k) from pc, m))
          else let m = cpu6_flush un pc m
               in Inr (Continue (Cycling, m\<lparr>c_cycle := c_cycle m + flushCycles\<rparr>))))"

section \<open>What an execute unit changes\<close>

lemma on_eu6_fields [simp]:
  "c_ctx (on_eu6 k g m) = c_ctx m" "c_executeBus (on_eu6 k g m) = c_executeBus m"
  "length (c_executeUnits (on_eu6 k g m)) = length (c_executeUnits m)"
  by (simp_all add: on_eu6_def)

text \<open>A relation between the states before and after, that the small changes obey which the units are
  made of. Then the parts obey it that both versions share.\<close>

locale unit_steps =
  fixes R :: "('r, 'e, 'c, 'z) cpu6_scheme \<Rightarrow> ('r, 'e, 'c, 'z) cpu6_scheme \<Rightarrow> bool"
  assumes refl: "R m m"
    and trans: "R m2 m1 \<Longrightarrow> R m1 m \<Longrightarrow> R m2 m"
    and context_step: "R (m\<lparr>c_ctx := ctx\<rparr>) m"
    and mmu_step: "R (m\<lparr>c_mmu := u\<rparr>) m"
    and units_step: "R (m\<lparr>c_executeUnits := eus\<rparr>) m"
    and branch_step: "R (m\<lparr>c_branchUnit := bu\<rparr>) m"
    and fetch_step: "R (m\<lparr>c_fetchUnit := fu\<rparr>) m"
    and decode_step: "R (m\<lparr>c_decodeUnit := du\<rparr>) m"
    and write_step: "R (m\<lparr>c_writeBus := BufferedBus_Add (c_writeBus m) e (c_cycle m)\<rparr>) m"
begin

lemma on_eu6_step: "R (on_eu6 k g m) m"
  by (simp add: on_eu6_def units_step)

lemma pairs:
  "R (m\<lparr>c_mmu := u, c_ctx := ctx\<rparr>) m" "R (m\<lparr>c_branchUnit := bu, c_fetchUnit := fu\<rparr>) m"
  "R (m\<lparr>c_branchUnit := bu, c_fetchUnit := fu, c_decodeUnit := du\<rparr>) m"
  by (rule trans [OF context_step mmu_step] trans [OF fetch_step branch_step]
      trans [OF decode_step trans [OF fetch_step branch_step]])+

lemma btb6_assert_step: "R (btb6_assert i pc m) m"
  by (auto simp: btb6_assert_def Let_def pairs branch_step refl split: option.splits)

lemma reportBranch6_step:
  assumes "reportBranch6 i pc exe m = Inr (resp, m')"
  shows "R m' m"
proof -
  from assms obtain m1 where
    m1: "(if IsUnconditionalBranch (instructionType i) then btb6_notifyJumpAddressResolved pc (NextPc exe) m
      else Inr m) = Inr m1"
    and m': "m' = snd (if PcChange exe then btb6_shouldFlushPipeline (NextPc exe) m1 else (False, m1))"
    by (auto simp: reportBranch6_def split_beta)
  have "R m1 m"
    using m1 by (auto simp: btb6_notifyJumpAddressResolved_def pairs refl split: if_splits)
  moreover have "R m' m1"
    by (simp add: m' btb6_shouldFlushPipeline_def Let_def branch_step refl)
  ultimately show ?thesis using trans by blast
qed

lemma coMemory6_step: "coMemory6 k addrs m = Inr m' \<Longrightarrow> R m' m"
  using trans [OF on_eu6_step pairs(1)] by (auto simp: coMemory6_def split: option.splits)

lemma load6_step: "load6 k addrs m = Inr (resp, m') \<Longrightarrow> R m' m"
  using trans [OF on_eu6_step mmu_step] by (auto simp: load6_def Let_def split: option.splits)

lemma run6_step:
  assumes finish: "\<And>exe m resp m'. finish exe m = Inr (resp, m') \<Longrightarrow> R m' m"
    and run: "run6 methods finish k pc app m = Inr (resp, m')"
  shows "R m' m"
proof -
  let ?m1 = "on_eu6 k (\<lambda>eu. eu\<lparr>eu6_coroutine := None\<rparr>) m"
  have one: "R (?m1\<lparr>c_ctx := ctx\<rparr>) m" and two: "R (?m1\<lparr>c_ctx := ctx, c_mmu := u\<rparr>) m" for ctx u
    by (rule trans [OF context_step on_eu6_step] trans [OF mmu_step trans [OF context_step on_eu6_step]])+
  from run obtain ctx exe where
    result: "Run methods (c_ctx m) (Labels app) pc (eu6_memory (c_executeUnits ?m1 ! k)) = Inr (ctx, exe)"
    by (auto simp: run6_def Let_def)
  let ?m2 = "?m1\<lparr>c_ctx := ctx\<rparr>"
  show ?thesis
  proof (cases "Return exe")
    case True
    with run result have "m' = ?m1\<lparr>c_ctx := ctx\<rparr>" by (simp add: run6_def Let_def)
    with one show ?thesis by simp
  next
    case False
    with run result obtain b u where
      check: "(if MemoryChange exe then doesExecutionMemoryChangesExistsInL1D (c_mmu ?m2) exe
        else Inr (False, c_mmu ?m2)) = Inr (b, u)"
      by (auto simp: run6_def Let_def)
    show ?thesis
    proof (cases b)
      case True
      with \<open>\<not> Return exe\<close> run result check obtain w where
        m': "m' = ?m2\<lparr>c_mmu := w, c_ctx := DeletePendingRegisters ctx (ReadRegisters methods) (WriteRegisters methods)\<rparr>"
        by (auto simp: run6_def Let_def)
      show ?thesis unfolding m' by (rule trans [OF context_step two])
    next
      case False
      with \<open>\<not> Return exe\<close> run result check have "finish exe (?m1\<lparr>c_ctx := ctx, c_mmu := u\<rparr>) = Inr (resp, m')"
        by (simp add: run6_def Let_def)
      from trans [OF finish [OF this] two] show ?thesis .
    qed
  qed
qed

lemma resume6_step:
  assumes prepare: "\<And>m resp m'. prepare m = Inr (resp, m') \<Longrightarrow> R m' m"
    and run: "\<And>m resp m'. run m = Inr (resp, m') \<Longrightarrow> R m' m"
    and step: "resume6 prepare run k co m = Inr (resp, m')"
  shows "R m' m"
proof (cases co)
  case PrepareRun
  with step prepare show ?thesis by (simp add: resume6_def)
next
  case (CacheHit n)
  with step run on_eu6_step show ?thesis by (auto simp: resume6_def split: if_splits)
next
  case (CacheMiss n addrs)
  show ?thesis
  proof (cases "0 < n")
    case True
    with CacheMiss step on_eu6_step show ?thesis by (auto simp: resume6_def)
  next
    case False
    with CacheMiss step obtain m1 where "coMemory6 k addrs m = Inr m1" "run m1 = Inr (resp, m')"
      by (auto simp: resume6_def)
    with run coMemory6_step trans show ?thesis by blast
  qed
qed

end

end
