(* ===== verification/Flights.thy ===== *)
theory Flights
  imports Superscalar
begin

text \<open>
  The instructions in flight in MVP-6.0 and MVP-6.1: those on the execute bus, in the execute units, on
  the write bus and in the write units. The scoreboard of pending registers counts exactly their
  registers, and their multiset has a property that every part of it has too, such as being
  independent. The main loop keeps this if the control unit and the execute units do; theories
  \<open>Flights60\<close> and \<open>Flights61\<close> show that they do.
\<close>

section \<open>Footprints\<close>

text \<open>The registers that an instruction reads and those that it writes.\<close>

type_synonym footprint = "RegisterType list \<times> RegisterType list"

definition runner_footprint :: "'b InstructionRunnerPc_scheme \<Rightarrow> footprint" where
  "runner_footprint r = (ReadRegisters (runner (rp_Runner r) noForward), WriteRegisters (runner (rp_Runner r) noForward))"

definition context_footprint :: "ExecutionContext \<Rightarrow> footprint" where
  "context_footprint e = (ec_ReadRegisters e, ec_WriteRegisters e)"

definition conflict :: "footprint \<Rightarrow> footprint \<Rightarrow> bool" where
  "conflict f g \<longleftrightarrow> (\<exists>r. r \<noteq> Zero \<and>
     (r \<in> set (snd f) \<and> (r \<in> set (fst g) \<or> r \<in> set (snd g)) \<or> r \<in> set (snd g) \<and> r \<in> set (fst f)))"

lemma conflict_commute: "conflict f g \<longleftrightarrow> conflict g f"
  by (auto simp: conflict_def)

definition independent :: "footprint multiset \<Rightarrow> bool" where
  "independent F \<longleftrightarrow> (\<forall>f g. {#f, g#} \<subseteq># F \<longrightarrow> \<not> conflict f g)"

lemma independent_empty [simp]: "independent {#}"
  by (simp add: independent_def)

lemma independent_mono: "independent F \<Longrightarrow> G \<subseteq># F \<Longrightarrow> independent G"
  unfolding independent_def using subset_mset.order_trans by blast

lemma pair_subset_add:
  assumes "{#f, g#} \<subseteq># add_mset h F"
  shows "f = h \<and> g \<in># F \<or> g = h \<and> f \<in># F \<or> {#f, g#} \<subseteq># F"
proof (cases "f = h \<or> g = h")
  case True
  with assms show ?thesis by (auto simp: add_mset_commute [of f])
next
  case False
  have "count {#f, g#} x \<le> count F x" for x
    using mset_subset_eq_count [OF assms, of x] False by (cases "x = h") auto
  then show ?thesis by (simp add: subseteq_mset_def)
qed

lemma independent_add:
  assumes "independent F" and "\<forall>g \<in># F. \<not> conflict f g"
  shows "independent (add_mset f F)"
  unfolding independent_def
proof (intro allI impI)
  fix g h
  assume "{#g, h#} \<subseteq># add_mset f F"
  from pair_subset_add [OF this] show "\<not> conflict g h"
    using assms conflict_commute [of g h] unfolding independent_def by blast
qed

section \<open>The scoreboard counts the instructions in flight\<close>

definition read_total :: "footprint multiset \<Rightarrow> RegisterType multiset" where
  "read_total F = \<Sum>\<^sub># (image_mset (\<lambda>f. tracked (fst f)) F)"

definition write_total :: "footprint multiset \<Rightarrow> RegisterType multiset" where
  "write_total F = \<Sum>\<^sub># (image_mset (\<lambda>f. tracked (snd f)) F)"

lemma total_simps [simp]:
  "read_total {#} = {#}" "write_total {#} = {#}"
  "read_total (add_mset f F) = tracked (fst f) + read_total F"
  "write_total (add_mset f F) = tracked (snd f) + write_total F"
  by (simp_all add: read_total_def write_total_def)

definition exact :: "Context \<Rightarrow> footprint multiset \<Rightarrow> bool" where
  "exact ctx F \<longleftrightarrow> counters_ok (PendingReadRegisters ctx) \<and> counters_ok (PendingWriteRegisters ctx)
     \<and> in_flight (PendingReadRegisters ctx) = read_total F
     \<and> in_flight (PendingWriteRegisters ctx) = write_total F"

lemma exact_add:
  "exact ctx F \<Longrightarrow> exact (AddPendingRegisters ctx run) (add_mset (ReadRegisters run, WriteRegisters run) F)"
  by (simp add: exact_def AddPendingRegisters_def fold_increment ac_simps)

lemma exact_delete:
  "exact ctx (add_mset (rs, ws) F) \<Longrightarrow> exact (DeletePendingRegisters ctx rs ws) F"
  by (simp add: exact_def DeletePendingRegisters_def fold_decrement)

lemma exact_no_registers: "exact ctx (add_mset ([], []) F) \<longleftrightarrow> exact ctx F"
  by (simp add: exact_def)

lemma exact_same:
  "PendingReadRegisters ctx' = PendingReadRegisters ctx \<Longrightarrow>
    PendingWriteRegisters ctx' = PendingWriteRegisters ctx \<Longrightarrow> exact ctx' F = exact ctx F"
  by (simp add: exact_def)

lemma exact_flush [simp]: "exact (Context_Flush ctx) {#}"
  by (simp add: exact_def Context_Flush_def)

lemma total_member:
  "f \<in># F \<Longrightarrow> tracked (fst f) \<subseteq># read_total F" "f \<in># F \<Longrightarrow> tracked (snd f) \<subseteq># write_total F"
  by (auto dest!: multi_member_split)

lemma no_hazard_independent:
  assumes "exact ctx F" and "fst (IsDataHazard3 ctx run) = []"
  shows "\<forall>g \<in># F. \<not> conflict (ReadRegisters run, WriteRegisters run) g"
proof
  fix g
  assume "g \<in># F"
  have pending: "r \<in># read_total F \<Longrightarrow> pending (PendingReadRegisters ctx) r"
    "r \<in># write_total F \<Longrightarrow> pending (PendingWriteRegisters ctx) r" for r
    using assms(1) by (simp_all add: exact_def pending_iff)
  have "r \<noteq> Zero \<Longrightarrow> r \<in> set (fst g) \<Longrightarrow> pending (PendingReadRegisters ctx) r"
    "r \<noteq> Zero \<Longrightarrow> r \<in> set (snd g) \<Longrightarrow> pending (PendingWriteRegisters ctx) r" for r
    using total_member [OF \<open>g \<in># F\<close>] pending by (auto dest!: set_mset_mono)
  with assms(2) show "\<not> conflict (ReadRegisters run, WriteRegisters run) g"
    by (auto simp: IsDataHazard3_none conflict_def)
qed

section \<open>The instructions in flight\<close>

text \<open>How the instructions of a version are read: which entries of the execute bus are well-formed in a
  state, their footprints, those of the runners in the execute units, and what is required of the
  instructions in flight.\<close>

record ('r, 'e, 'c, 'z) flight_view =
  fv_ok :: "('r, 'e, 'c, 'z) cpu6_scheme \<Rightarrow> 'r \<Rightarrow> bool"
  fv_bus :: "('r, 'e, 'c, 'z) cpu6_scheme \<Rightarrow> 'r \<Rightarrow> footprint"
  fv_unit :: "'e \<Rightarrow> footprint"
  fv_allowed :: "footprint multiset \<Rightarrow> bool"

definition eu_flights :: "('e \<Rightarrow> footprint) \<Rightarrow> 'e executeUnit6 \<Rightarrow> footprint multiset" where
  "eu_flights footprint eu = (case eu6_coroutine eu of None \<Rightarrow> {#} | Some co \<Rightarrow>
     (case eu6_runner eu of None \<Rightarrow> {#} | Some r \<Rightarrow> {#footprint r#}))"

definition wu_flights :: "writeUnit6 \<Rightarrow> footprint multiset" where
  "wu_flights wu = (case wu6_coroutine wu of None \<Rightarrow> {#} | Some n \<Rightarrow> {#context_footprint (wu6_memoryWrite wu)#})"

definition flights :: "('r, 'e, 'c, 'z) flight_view \<Rightarrow> ('r, 'e, 'c, 'z) cpu6_scheme \<Rightarrow> footprint multiset" where
  "flights v m =
     mset (map (fv_bus v m) (BufferedBus_contents (c_executeBus m)))
     + sum_list (map (eu_flights (fv_unit v)) (c_executeUnits m))
     + mset (map context_footprint (BufferedBus_contents (c_writeBus m)))
     + sum_list (map wu_flights (c_writeUnits m))"

lemma sum_list_replace:
  fixes f :: "'a \<Rightarrow> 'b multiset"
  assumes "k < length xs"
  shows "sum_list (map f (xs[k := x])) + f (xs ! k) = sum_list (map f xs) + f x"
  using assms
  by (induction xs arbitrary: k) (auto simp: nth_Cons' ac_simps split: nat.splits)

text \<open>The well-formedness that the moves of an instruction rely on: the queues of the two buses are
  bounded, there are two units of each kind, and a busy execute unit holds an instruction.\<close>

definition queues_ok :: "('r, 'e, 'c, 'z) cpu6_scheme \<Rightarrow> bool" where
  "queues_ok m \<longleftrightarrow> length (bb_queue (c_executeBus m)) \<le> queueLength (c_executeBus m)
     \<and> length (bb_queue (c_writeBus m)) \<le> queueLength (c_writeBus m)
     \<and> length (c_executeUnits m) = 2 \<and> length (c_writeUnits m) = 2"

definition busy_units_ok :: "('r, 'e, 'c, 'z) cpu6_scheme \<Rightarrow> bool" where
  "busy_units_ok m \<longleftrightarrow> (\<forall>eu \<in> set (c_executeUnits m). eu6_coroutine eu \<noteq> None \<longrightarrow> eu6_runner eu \<noteq> None)"

definition bus_ok :: "('r, 'e, 'c, 'z) flight_view \<Rightarrow> ('r, 'e, 'c, 'z) cpu6_scheme \<Rightarrow> bool" where
  "bus_ok v m \<longleftrightarrow> (\<forall>a \<in> set (BufferedBus_contents (c_executeBus m)). fv_ok v m a)"

definition places_ok :: "('r, 'e, 'c, 'z) flight_view \<Rightarrow> ('r, 'e, 'c, 'z) cpu6_scheme \<Rightarrow> bool" where
  "places_ok v m \<longleftrightarrow> queues_ok m \<and> busy_units_ok m \<and> bus_ok v m"

definition flight_ok :: "('r, 'e, 'c, 'z) flight_view \<Rightarrow> ('r, 'e, 'c, 'z) cpu6_scheme \<Rightarrow> bool" where
  "flight_ok v m \<longleftrightarrow> places_ok v m \<and> exact (c_ctx m) (flights v m) \<and> fv_allowed v (flights v m)"

text \<open>Between two places an instruction is in the hands of a unit.\<close>

definition holding :: "('r, 'e, 'c, 'z) flight_view \<Rightarrow> footprint \<Rightarrow> ('r, 'e, 'c, 'z) cpu6_scheme \<Rightarrow> bool" where
  "holding v f m \<longleftrightarrow> places_ok v m \<and> exact (c_ctx m) (add_mset f (flights v m))
     \<and> fv_allowed v (add_mset f (flights v m))"

text \<open>The parts of the state that the invariant is about, with an extended store of instructions.\<close>

definition same_flight :: "('r, 'e, 'c, 'z) flight_view \<Rightarrow> ('r, 'e, 'c, 'z) cpu6_scheme \<Rightarrow>
    ('r, 'e, 'c, 'z) cpu6_scheme \<Rightarrow> bool" where
  "same_flight v m' m \<longleftrightarrow> PendingReadRegisters (c_ctx m') = PendingReadRegisters (c_ctx m)
     \<and> PendingWriteRegisters (c_ctx m') = PendingWriteRegisters (c_ctx m)
     \<and> c_executeBus m' = c_executeBus m \<and> c_executeUnits m' = c_executeUnits m
     \<and> c_writeBus m' = c_writeBus m \<and> c_writeUnits m' = c_writeUnits m
     \<and> (\<forall>a. fv_ok v m a \<longrightarrow> fv_ok v m' a \<and> fv_bus v m' a = fv_bus v m a)"

lemma same_flight_refl [simp]: "same_flight v m m"
  by (simp add: same_flight_def)

lemma same_flight_trans: "same_flight v m2 m1 \<Longrightarrow> same_flight v m1 m \<Longrightarrow> same_flight v m2 m"
  by (simp add: same_flight_def)

lemma same_flight_places:
  assumes "same_flight v m' m" and "places_ok v m"
  shows "flights v m' = flights v m" and "places_ok v m'"
proof -
  have "image_mset (fv_bus v m') (mset (BufferedBus_contents (c_executeBus m))) =
      image_mset (fv_bus v m) (mset (BufferedBus_contents (c_executeBus m)))"
    using assms by (intro image_mset_cong) (simp add: same_flight_def places_ok_def bus_ok_def)
  with assms show "flights v m' = flights v m" and "places_ok v m'"
    by (simp_all add: same_flight_def flights_def places_ok_def queues_ok_def busy_units_ok_def bus_ok_def)
qed

lemma same_flight_ok: "same_flight v m' m \<Longrightarrow> flight_ok v m \<Longrightarrow> flight_ok v m'"
  using same_flight_places [of v m' m] exact_same [of "c_ctx m'" "c_ctx m"]
  by (simp add: flight_ok_def same_flight_def)

lemma same_flight_holding: "same_flight v m' m \<Longrightarrow> holding v f m \<Longrightarrow> holding v f m'"
  using same_flight_places [of v m' m] exact_same [of "c_ctx m'" "c_ctx m"]
  by (simp add: holding_def same_flight_def)

text \<open>Execute unit \<open>k\<close> is busy with instruction \<open>r\<close>.\<close>

definition executing :: "nat \<Rightarrow> 'e \<Rightarrow> ('r, 'e, 'c, 'z) cpu6_scheme \<Rightarrow> bool" where
  "executing k r m \<longleftrightarrow> k < length (c_executeUnits m)
     \<and> eu6_coroutine (c_executeUnits m ! k) \<noteq> None \<and> eu6_runner (c_executeUnits m ! k) = Some r"

lemma executing_flights: "executing k r m \<Longrightarrow> eu_flights footprint (c_executeUnits m ! k) = {#footprint r#}"
  by (auto simp: executing_def eu_flights_def)

lemma executing_same: "same_flight v m' m \<Longrightarrow> executing k r m \<Longrightarrow> executing k r m'"
  by (simp add: executing_def same_flight_def)

lemma run_pending:
  assumes "Run (runner i f) ctx labels pc memory = Inr (ctx', exe)"
  shows "PendingReadRegisters ctx' = PendingReadRegisters ctx"
    and "PendingWriteRegisters ctx' = PendingWriteRegisters ctx"
  using run_context [OF assms] by simp_all

lemma ret_footprint: "instructionType i = Ret \<Longrightarrow> ReadRegisters (runner i f) = [] \<and> WriteRegisters (runner i f) = []"
  by (cases i) (simp_all add: op_defs)

lemma connect_ok:
  assumes "length (bb_queue b) \<le> queueLength b"
  shows "length (bb_queue (BufferedBus_Connect b c)) \<le> queueLength (BufferedBus_Connect b c)"
    and "BufferedBus_contents (BufferedBus_Connect b c) = BufferedBus_contents b"
  using assms BufferedBus_Connect_contents [OF assms] by (auto simp: BufferedBus_Connect_eq Let_def)

lemma eu_busy_ok:
  assumes "busy_units_ok m"
    and "k < length (c_executeUnits m) \<Longrightarrow> eu6_coroutine (g (c_executeUnits m ! k)) \<noteq> None \<Longrightarrow>
      eu6_runner (g (c_executeUnits m ! k)) \<noteq> None"
  shows "busy_units_ok (on_eu6 k g m)"
proof (cases "k < length (c_executeUnits m)")
  case True
  have "eu \<in> set (c_executeUnits m) \<or> eu = g (c_executeUnits m ! k)"
    if "eu \<in> set (c_executeUnits (on_eu6 k g m))" for eu
    using that set_update_subset_insert [of "c_executeUnits m" k] by (auto simp: on_eu6_def)
  with assms True show ?thesis
    unfolding busy_units_ok_def by blast
next
  case False
  with assms(1) show ?thesis by (simp add: busy_units_ok_def on_eu6_def list_update_beyond)
qed

lemma eu_frame [simp]:
  "queues_ok (on_eu6 k g m) = queues_ok m"
  by (simp add: on_eu6_def queues_ok_def)

section \<open>The moves of an instruction\<close>

text \<open>A view reads the extension of the state only, and less in flight is allowed if more is.\<close>

locale flight_rules =
  fixes v :: "('r, 'e, 'c, 'z) flight_view"
  assumes reads_extension: "cpu6.more m' = cpu6.more m \<Longrightarrow> fv_ok v m' = fv_ok v m \<and> fv_bus v m' = fv_bus v m"
    and allowed_empty: "fv_allowed v {#}"
    and allowed_mono: "fv_allowed v F \<Longrightarrow> G \<subseteq># F \<Longrightarrow> fv_allowed v G"
begin

lemma frame [simp]:
  "fv_ok v (m\<lparr>c_ctx := x1\<rparr>) = fv_ok v m" "fv_bus v (m\<lparr>c_ctx := x1\<rparr>) = fv_bus v m"
  "fv_ok v (m\<lparr>c_fetchUnit := x2\<rparr>) = fv_ok v m" "fv_bus v (m\<lparr>c_fetchUnit := x2\<rparr>) = fv_bus v m"
  "fv_ok v (m\<lparr>c_decodeUnit := x3\<rparr>) = fv_ok v m" "fv_bus v (m\<lparr>c_decodeUnit := x3\<rparr>) = fv_bus v m"
  "fv_ok v (m\<lparr>c_decodeBus := x4\<rparr>) = fv_ok v m" "fv_bus v (m\<lparr>c_decodeBus := x4\<rparr>) = fv_bus v m"
  "fv_ok v (m\<lparr>c_controlBus := x5\<rparr>) = fv_ok v m" "fv_bus v (m\<lparr>c_controlBus := x5\<rparr>) = fv_bus v m"
  "fv_ok v (m\<lparr>c_controlUnit := x6\<rparr>) = fv_ok v m" "fv_bus v (m\<lparr>c_controlUnit := x6\<rparr>) = fv_bus v m"
  "fv_ok v (m\<lparr>c_executeBus := x7\<rparr>) = fv_ok v m" "fv_bus v (m\<lparr>c_executeBus := x7\<rparr>) = fv_bus v m"
  "fv_ok v (m\<lparr>c_executeUnits := x8\<rparr>) = fv_ok v m" "fv_bus v (m\<lparr>c_executeUnits := x8\<rparr>) = fv_bus v m"
  "fv_ok v (m\<lparr>c_writeBus := x9\<rparr>) = fv_ok v m" "fv_bus v (m\<lparr>c_writeBus := x9\<rparr>) = fv_bus v m"
  "fv_ok v (m\<lparr>c_writeUnits := y1\<rparr>) = fv_ok v m" "fv_bus v (m\<lparr>c_writeUnits := y1\<rparr>) = fv_bus v m"
  "fv_ok v (m\<lparr>c_branchUnit := y2\<rparr>) = fv_ok v m" "fv_bus v (m\<lparr>c_branchUnit := y2\<rparr>) = fv_bus v m"
  "fv_ok v (m\<lparr>c_mmu := y3\<rparr>) = fv_ok v m" "fv_bus v (m\<lparr>c_mmu := y3\<rparr>) = fv_bus v m"
  "fv_ok v (m\<lparr>c_cycle := y4\<rparr>) = fv_ok v m" "fv_bus v (m\<lparr>c_cycle := y4\<rparr>) = fv_bus v m"
  "fv_ok v (m\<lparr>c_counterFlush := y5\<rparr>) = fv_ok v m" "fv_bus v (m\<lparr>c_counterFlush := y5\<rparr>) = fv_bus v m"
  "fv_ok v (on_eu6 k g m) = fv_ok v m" "fv_bus v (on_eu6 k g m) = fv_bus v m"
  by ((rule reads_extension [THEN conjunct1] reads_extension [THEN conjunct2], simp add: on_eu6_def)+)

lemma same_flight_updates [simp]:
  "same_flight v (m\<lparr>c_fetchUnit := fu\<rparr>) m" "same_flight v (m\<lparr>c_decodeUnit := du\<rparr>) m"
  "same_flight v (m\<lparr>c_decodeBus := db\<rparr>) m" "same_flight v (m\<lparr>c_controlBus := cb\<rparr>) m"
  "same_flight v (m\<lparr>c_controlUnit := cu\<rparr>) m"
  "same_flight v (m\<lparr>c_branchUnit := bu\<rparr>) m" "same_flight v (m\<lparr>c_mmu := u\<rparr>) m"
  "same_flight v (m\<lparr>c_cycle := c\<rparr>) m" "same_flight v (m\<lparr>c_counterFlush := c\<rparr>) m"
  by (simp_all add: same_flight_def)

lemmas flight_ok_update = same_flight_updates [THEN same_flight_ok]
lemmas holding_update = same_flight_updates [THEN same_flight_holding]

lemma places_on_eu6 [simp]: "bus_ok v (on_eu6 k g m) = bus_ok v m"
  by (simp add: bus_ok_def)

lemma holding_nothing: "holding v ([], []) m \<Longrightarrow> flight_ok v m"
  using allowed_mono [of "add_mset ([], []) (flights v m)" "flights v m"]
  by (simp add: holding_def flight_ok_def exact_no_registers)

text \<open>An instruction is issued: it goes to the execute bus and into the scoreboard.\<close>

lemma issue_flight_ok:
  assumes "flight_ok v m" and "fv_ok v m a" and "fv_bus v m a = (ReadRegisters run, WriteRegisters run)"
    and "fv_allowed v (add_mset (fv_bus v m a) (flights v m))"
  shows "flight_ok v (m\<lparr>c_executeBus := BufferedBus_Add (c_executeBus m) a c,
    c_ctx := AddPendingRegisters (c_ctx m) run\<rparr>)" (is "flight_ok v ?m")
proof -
  have "flights v ?m = add_mset (fv_bus v m a) (flights v m)"
    by (simp add: flights_def contents_bus)
  moreover have "places_ok v ?m"
    using assms(1,2) by (simp add: flight_ok_def places_ok_def queues_ok_def busy_units_ok_def bus_ok_def
        contents_bus(1)) (simp add: BufferedBus_Add_def)
  ultimately show ?thesis
    using assms exact_add [of "c_ctx m" "flights v m" run] by (simp add: flight_ok_def)
qed

text \<open>An instruction is taken from the execute bus or from the write bus.\<close>

lemma take_issued:
  assumes "flight_ok v m" and "BufferedBus_Get (c_executeBus m) = (Some a, b)"
  shows "holding v (fv_bus v m a) (m\<lparr>c_executeBus := b\<rparr>)"
proof -
  note contents = contents_bus(2) [OF assms(2)]
  have "flights v m = add_mset (fv_bus v m a) (flights v (m\<lparr>c_executeBus := b\<rparr>))"
    using contents by (simp add: flights_def)
  with assms(1) contents contents_bus(3) [OF assms(2)] show ?thesis
    by (auto simp: flight_ok_def holding_def places_ok_def queues_ok_def busy_units_ok_def bus_ok_def)
qed

lemma take_result:
  assumes "flight_ok v m" and "BufferedBus_Get (c_writeBus m) = (Some e, b)"
  shows "holding v (context_footprint e) (m\<lparr>c_writeBus := b\<rparr>)"
proof -
  have "flights v m = add_mset (context_footprint e) (flights v (m\<lparr>c_writeBus := b\<rparr>))"
    using contents_bus(2) [OF assms(2)] by (simp add: flights_def)
  with assms(1) contents_bus(3) [OF assms(2)] show ?thesis
    by (auto simp: flight_ok_def holding_def places_ok_def queues_ok_def busy_units_ok_def bus_ok_def)
qed

text \<open>The instruction leaves.\<close>

lemma flights_ctx [simp]: "flights v (m\<lparr>c_ctx := ctx\<rparr>) = flights v m"
  by (simp add: flights_def)

lemma places_ctx [simp]: "places_ok v (m\<lparr>c_ctx := ctx\<rparr>) = places_ok v m"
  by (simp add: places_ok_def queues_ok_def busy_units_ok_def bus_ok_def)

lemma holding_delete:
  assumes "holding v (rs, ws) m"
  shows "flight_ok v (m\<lparr>c_ctx := DeletePendingRegisters (c_ctx m) rs ws\<rparr>)"
proof -
  have "fv_allowed v (flights v m)"
    using assms allowed_mono [of "add_mset (rs, ws) (flights v m)" "flights v m"] by (simp add: holding_def)
  moreover have "exact (DeletePendingRegisters (c_ctx m) rs ws) (flights v m)"
    using assms exact_delete by (simp add: holding_def)
  ultimately show ?thesis
    using assms by (simp add: holding_def flight_ok_def)
qed

text \<open>The instruction goes on to the write bus, an execute unit or a write unit.\<close>

lemma holding_write_bus:
  assumes "holding v (context_footprint e) m"
  shows "flight_ok v (m\<lparr>c_writeBus := BufferedBus_Add (c_writeBus m) e c\<rparr>)" (is "flight_ok v ?m")
proof -
  have "flights v ?m = add_mset (context_footprint e) (flights v m)"
    by (simp add: flights_def contents_bus)
  moreover have "places_ok v ?m = places_ok v m"
    by (simp add: places_ok_def queues_ok_def busy_units_ok_def bus_ok_def BufferedBus_Add_def)
  ultimately show ?thesis
    using assms by (simp add: holding_def flight_ok_def)
qed

lemma eu_replace:
  "k < length (c_executeUnits m) \<Longrightarrow>
    flights v (on_eu6 k g m) + eu_flights (fv_unit v) (c_executeUnits m ! k) =
      flights v m + eu_flights (fv_unit v) (g (c_executeUnits m ! k))"
  using sum_list_replace [of k "c_executeUnits m" "eu_flights (fv_unit v)" "g (c_executeUnits m ! k)"]
  by (simp add: flights_def on_eu6_def ac_simps)

lemma holding_to_unit:
  assumes "holding v (fv_unit v r) m" and "k < length (c_executeUnits m)"
    and "eu6_coroutine (c_executeUnits m ! k) = None"
  shows "flight_ok v (on_eu6 k (\<lambda>eu. eu\<lparr>eu6_runner := Some r, eu6_coroutine := Some co\<rparr>) m)"
    (is "flight_ok v (on_eu6 k ?g m)")
    and "executing k r (on_eu6 k (\<lambda>eu. eu\<lparr>eu6_runner := Some r, eu6_coroutine := Some co\<rparr>) m)"
proof -
  have "flights v (on_eu6 k ?g m) = add_mset (fv_unit v r) (flights v m)"
    using eu_replace [OF assms(2), of ?g] assms(3) by (simp add: eu_flights_def)
  with assms(1) show "flight_ok v (on_eu6 k ?g m)"
    by (simp add: holding_def flight_ok_def places_ok_def eu_busy_ok)
  show "executing k r (on_eu6 k ?g m)"
    using assms(2) by (simp add: executing_def on_eu6_def)
qed

lemma unit_releases:
  assumes "flight_ok v m" and "executing k r m"
  shows "holding v (fv_unit v r) (on_eu6 k (\<lambda>eu. eu\<lparr>eu6_coroutine := None\<rparr>) m)"
    (is "holding v _ (on_eu6 k ?g m)")
proof -
  have "k < length (c_executeUnits m)" using assms(2) by (simp add: executing_def)
  from eu_replace [OF this, of ?g] have "flights v m = add_mset (fv_unit v r) (flights v (on_eu6 k ?g m))"
    by (simp add: executing_flights [OF assms(2)]) (simp add: eu_flights_def)
  moreover have "busy_units_ok (on_eu6 k ?g m)"
    using assms(1) by (intro eu_busy_ok) (simp_all add: flight_ok_def places_ok_def)
  ultimately show ?thesis
    using assms(1) by (simp add: holding_def flight_ok_def places_ok_def)
qed

text \<open>A busy unit waits.\<close>

lemma unit_waits:
  assumes "flight_ok v m" and "executing k r m"
    and "\<And>eu. eu6_runner (g eu) = eu6_runner eu"
    and "\<And>eu. eu6_coroutine eu \<noteq> None \<Longrightarrow> eu6_coroutine (g eu) \<noteq> None"
  shows "flight_ok v (on_eu6 k g m)" and "executing k r (on_eu6 k g m)"
proof -
  let ?eu = "c_executeUnits m ! k"
  have k: "k < length (c_executeUnits m)" and busy: "eu6_coroutine ?eu \<noteq> None" "eu6_runner ?eu = Some r"
    using assms(2) by (simp_all add: executing_def)
  then have "eu_flights (fv_unit v) (g ?eu) = eu_flights (fv_unit v) ?eu"
    using assms(3,4) by (auto simp: eu_flights_def split: option.splits)
  then have "flights v (on_eu6 k g m) = flights v m"
    using eu_replace [OF k, of g] by simp
  then show "flight_ok v (on_eu6 k g m)"
    using assms(1,3) busy by (simp add: flight_ok_def places_ok_def eu_busy_ok)
  show "executing k r (on_eu6 k g m)"
    using k busy assms(3,4) by (simp add: executing_def on_eu6_def)
qed

text \<open>Fetching, decoding, the branch unit and the connections of the buses.\<close>

lemma fetchUnit6_same: "fetchUnit6_cycle app m = Inr m' \<Longrightarrow> same_flight v m' m"
  by (auto simp: fetchUnit6_cycle_def Let_def same_flight_def split: prod.splits)

lemma decode6_loop_same:
  assumes clear: "\<And>pc m. same_flight v (clear pc m) m" "\<And>pc m. c_decodeBus (clear pc m) = c_decodeBus m"
  shows "decode6_loop clear app pushed m = Inr (n, m') \<Longrightarrow> same_flight v m' m"
proof (induction "length (bb_queue (c_decodeBus m))" arbitrary: pushed m rule: less_induct)
  case less
  obtain got b where get: "BufferedBus_Get (c_decodeBus m) = (got, b)" by force
  have step: "same_flight v m' m1"
    if "decode6_loop clear app k m1 = Inr (n, m')" "c_decodeBus m1 = b" "got \<noteq> None" for k m1
    using less.hyps [of m1 k] that get Get_shorter [of "c_decodeBus m" "the got" b] by auto
  have cleared: "same_flight v (clear pc (m\<lparr>c_decodeBus := b\<rparr>)) m" for pc
    using same_flight_trans [OF clear(1)] by simp
  show ?case
    using less.prems [unfolded decode6_loop.simps [of _ app pushed m]] get cleared clear(2)
    by (auto simp: Let_def same_flight_def split: option.splits if_splits sum.splits dest!: step)
qed

lemma decodeUnit6_same:
  assumes "\<And>pc m. same_flight v (clear pc m) m" "\<And>pc m. c_decodeBus (clear pc m) = c_decodeBus m"
    and "decodeUnit6_cycle clear app m = Inr m'"
  shows "same_flight v m' m"
  using assms(3) decode6_loop_same [OF assms(1,2)]
  by (fastforce simp: decodeUnit6_cycle_def Let_def same_flight_def split: if_splits)

lemma btb6_same:
  "same_flight v (btb6_assert i pc m) m"
  "btb6_notifyJumpAddressResolved pc pcTo m = Inr m' \<Longrightarrow> same_flight v m' m"
  "btb6_shouldFlushPipeline pc m = (flush, m') \<Longrightarrow> same_flight v m' m"
  by (auto simp: btb6_assert_def btb6_notifyJumpAddressResolved_def btb6_shouldFlushPipeline_def
      Let_def same_flight_def split: option.splits if_splits)

lemma reportBranch6_same:
  assumes "reportBranch6 i pc exe m = Inr (resp, m')"
  shows "same_flight v m' m"
proof -
  from assms obtain m1 where
    m1: "(if IsUnconditionalBranch (instructionType i) then btb6_notifyJumpAddressResolved pc (NextPc exe) m
      else Inr m) = Inr m1"
    and m': "m' = snd (if PcChange exe then btb6_shouldFlushPipeline (NextPc exe) m1 else (False, m1))"
    by (auto simp: reportBranch6_def split_beta)
  have "same_flight v m1 m" using m1 btb6_same(2) by (auto split: if_splits)
  moreover have "same_flight v m' m1" using m' btb6_same(3) [OF surjective_pairing] by simp
  ultimately show ?thesis using same_flight_trans by blast
qed

lemma connect_flight_ok:
  "flight_ok v m \<Longrightarrow> flight_ok v (cpu6_connect m)" "flight_ok v m \<Longrightarrow> flight_ok v (connect_writes c m)"
  using connect_ok [of "c_executeBus m" "c_cycle m"] connect_ok [of "c_writeBus m"]
  by (simp_all add: flight_ok_def places_ok_def queues_ok_def busy_units_ok_def bus_ok_def cpu6_connect_def
      connect_writes_def flights_def)

text \<open>What the two versions of the execute units share.\<close>

lemma same_fields: "same_flight v (m\<lparr>c_ctx := ctx\<rparr>) m"
  if "PendingReadRegisters ctx = PendingReadRegisters (c_ctx m)" "PendingWriteRegisters ctx = PendingWriteRegisters (c_ctx m)"
  using that by (simp add: same_flight_def)

lemma run6_flight_ok:
  assumes ok: "flight_ok v m" "executing k r m"
    and footprint: "fv_unit v r = (ReadRegisters (runner i f), WriteRegisters (runner i f))"
    and finish: "\<And>exe m1 resp m'. holding v (fv_unit v r) m1 \<Longrightarrow> finish exe m1 = Inr (resp, m') \<Longrightarrow> flight_ok v m'"
    and step: "run6 (runner i f) finish k pc app m = Inr (resp, m')"
  shows "flight_ok v m'"
proof -
  let ?m1 = "on_eu6 k (\<lambda>eu. eu\<lparr>eu6_coroutine := None\<rparr>) m"
  from step obtain ctx exe where
    run: "Run (runner i f) (c_ctx m) (Labels app) pc (eu6_memory (c_executeUnits ?m1 ! k)) = Inr (ctx, exe)"
    by (auto simp: run6_def Let_def)
  let ?m2 = "?m1\<lparr>c_ctx := ctx\<rparr>"
  have hold: "holding v (fv_unit v r) ?m2"
    by (rule same_flight_holding [OF same_fields unit_releases [OF ok]]) (simp_all add: run_pending [OF run])
  show ?thesis
  proof (cases "Return exe")
    case True
    then have "fv_unit v r = ([], [])"
      using run_class(2) [OF run] ret_footprint [of i f] by (simp add: footprint)
    then have "flight_ok v ?m2" using hold by (simp add: holding_nothing)
    with step run True show ?thesis by (simp add: run6_def Let_def)
  next
    case no_ret: False
    with step run obtain b u where
      check: "(if MemoryChange exe then doesExecutionMemoryChangesExistsInL1D (c_mmu ?m2) exe
        else Inr (False, c_mmu ?m2)) = Inr (b, u)"
      by (auto simp: run6_def Let_def)
    show ?thesis
    proof (cases b)
      case True
      with step run no_ret check obtain w where
        m': "m' = ?m2\<lparr>c_mmu := w, c_ctx := DeletePendingRegisters ctx (ReadRegisters (runner i f)) (WriteRegisters (runner i f))\<rparr>"
        by (auto simp: run6_def Let_def)
      from holding_delete [OF holding_update(7) [OF hold, unfolded footprint], of w] show ?thesis
        by (simp add: m')
    next
      case False
      have "finish exe (?m2\<lparr>c_mmu := u\<rparr>) = Inr (resp, m')"
        using step run no_ret check False by (simp add: run6_def Let_def)
      from finish [OF holding_update(7) [OF hold] this] show ?thesis .
    qed
  qed
qed

lemma load6_flight_ok:
  assumes "flight_ok v m" and "executing k r m" and "load6 k addrs m = Inr (resp, m')"
  shows "flight_ok v m'"
proof -
  from assms(3) obtain got u where "getFromL1D (c_mmu m) addrs = Inr (got, u)"
    and m': "m' = (case got of
          Some memory \<Rightarrow> on_eu6 k (\<lambda>eu. eu\<lparr>eu6_memory := memory,
            eu6_coroutine := Some (CacheHit (cycleL1DAccess - 1))\<rparr>) (m\<lparr>c_mmu := u\<rparr>)
        | None \<Rightarrow> on_eu6 k (\<lambda>eu. eu\<lparr>eu6_coroutine :=
            Some (CacheMiss (cyclesMemoryAccess - 1) addrs)\<rparr>) (m\<lparr>c_mmu := u\<rparr>))"
    by (auto simp: load6_def Let_def split: option.splits)
  have "flight_ok v (m\<lparr>c_mmu := u\<rparr>)" "executing k r (m\<lparr>c_mmu := u\<rparr>)"
    using flight_ok_update(7) [OF assms(1)] executing_same [OF same_flight_updates(7) assms(2)] by simp_all
  then show ?thesis
    unfolding m' by (cases got) (auto intro: unit_waits(1))
qed

lemma coMemory6_flight_ok:
  assumes "flight_ok v m" and "executing k r m" and "coMemory6 k addrs m = Inr m'"
  shows "flight_ok v m'" and "executing k r m'"
proof -
  from assms(3) obtain u mem memory where
    m': "m' = on_eu6 k (\<lambda>eu. eu\<lparr>eu6_memory := memory\<rparr>) (m\<lparr>c_mmu := u, c_ctx := (c_ctx m)\<lparr>Memory := mem\<rparr>\<rparr>)"
    by (auto simp: coMemory6_def split: option.splits)
  have "same_flight v (m\<lparr>c_mmu := u, c_ctx := (c_ctx m)\<lparr>Memory := mem\<rparr>\<rparr>) m"
    by (simp add: same_flight_def)
  from same_flight_ok [OF this assms(1)] executing_same [OF this assms(2)]
  show "flight_ok v m'" and "executing k r m'"
    unfolding m' by (auto intro: unit_waits)
qed

lemma resume6_flight_ok:
  assumes ok: "flight_ok v m" "executing k r m"
    and prepare: "\<And>m resp m'. flight_ok v m \<Longrightarrow> executing k r m \<Longrightarrow> prepare m = Inr (resp, m') \<Longrightarrow> flight_ok v m'"
    and run: "\<And>m resp m'. flight_ok v m \<Longrightarrow> executing k r m \<Longrightarrow> run m = Inr (resp, m') \<Longrightarrow> flight_ok v m'"
    and step: "resume6 prepare run k co m = Inr (resp, m')"
  shows "flight_ok v m'"
proof -
  have waits: "flight_ok v (on_eu6 k (\<lambda>eu. eu\<lparr>eu6_coroutine := Some co\<rparr>) m)" for co
    by (rule unit_waits(1) [OF ok]) simp_all
  show ?thesis
  proof (cases co)
    case PrepareRun
    with step prepare [OF ok] show ?thesis by (simp add: resume6_def)
  next
    case (CacheHit n)
    with step run [OF ok] waits show ?thesis by (auto simp: resume6_def split: if_splits)
  next
    case (CacheMiss n addrs)
    show ?thesis
    proof (cases "0 < n")
      case True
      with CacheMiss step waits show ?thesis by (auto simp: resume6_def)
    next
      case False
      with CacheMiss step obtain m1 where "coMemory6 k addrs m = Inr m1" "run m1 = Inr (resp, m')"
        by (auto simp: resume6_def)
      with coMemory6_flight_ok [OF ok] run show ?thesis by blast
    qed
  qed
qed

section \<open>The write units\<close>

lemma wu_replace:
  "k < length (c_writeUnits m) \<Longrightarrow>
    flights v (m\<lparr>c_writeUnits := (c_writeUnits m)[k := wu]\<rparr>) + wu_flights (c_writeUnits m ! k) =
      flights v m + wu_flights wu"
  using sum_list_replace [of k "c_writeUnits m" wu_flights wu]
  by (simp add: flights_def ac_simps)

lemma places_wu [simp]: "places_ok v (m\<lparr>c_writeUnits := (c_writeUnits m)[k := wu]\<rparr>) = places_ok v m"
  by (simp add: places_ok_def queues_ok_def busy_units_ok_def bus_ok_def)

text \<open>The unit that writes to the memory lets its instruction go, or counts on.\<close>

lemma coWrite_flight_ok:
  assumes "flight_ok v m" and "k < length (c_writeUnits m)"
    and "wu6_coroutine (c_writeUnits m ! k) = Some n"
    and "coWrite n (c_writeUnits m ! k) (c_ctx m) = Inr (wu, ctx)"
  shows "flight_ok v (m\<lparr>c_writeUnits := (c_writeUnits m)[k := wu], c_ctx := ctx\<rparr>)"
proof (cases "0 < n")
  case True
  with assms(3,4) have "wu_flights wu = wu_flights (c_writeUnits m ! k)" and "ctx = c_ctx m"
    by (auto simp: coWrite_def wu_flights_def)
  with wu_replace [OF assms(2), of wu] assms(1) show ?thesis
    by (simp add: flight_ok_def)
next
  case False
  let ?wu = "c_writeUnits m ! k"
  let ?e = "wu6_memoryWrite ?wu"
  from False assms(4) obtain ctx1 where w: "WriteMemory (c_ctx m) (ec_Execution ?e) = Inr ctx1"
    and wu: "wu = ?wu\<lparr>wu6_coroutine := None\<rparr>"
    and ctx: "ctx = DeletePendingRegisters ctx1 (ec_ReadRegisters ?e) (ec_WriteRegisters ?e)"
    by (auto simp: coWrite_def)
  let ?m1 = "m\<lparr>c_writeUnits := (c_writeUnits m)[k := wu], c_ctx := ctx1\<rparr>"
  have "flights v m = add_mset (context_footprint ?e) (flights v (m\<lparr>c_writeUnits := (c_writeUnits m)[k := wu]\<rparr>))"
    using wu_replace [OF assms(2), of wu] assms(3) by (simp add: wu_flights_def wu)
  then have "holding v (context_footprint ?e) ?m1"
    using assms(1) WriteMemory_fields [OF w] exact_same [of ctx1 "c_ctx m"]
    by (simp add: holding_def flight_ok_def)
  from holding_delete [OF this [unfolded context_footprint_def]] show ?thesis
    by (simp add: ctx)
qed

text \<open>An instruction from the write bus retires, or moves into the unit.\<close>

lemma retire_flight_ok:
  assumes "holding v (context_footprint e) m" and "k < length (c_writeUnits m)"
    and "wu6_coroutine (c_writeUnits m ! k) = None"
    and "writeUnit6_retire e (c_writeUnits m ! k) (c_ctx m) = (wu, ctx)"
  shows "flight_ok v (m\<lparr>c_writeUnits := (c_writeUnits m)[k := wu], c_ctx := ctx\<rparr>)"
proof (cases "\<not> RegisterChange (ec_Execution e) \<and> MemoryChange (ec_Execution e)")
  case True
  with assms(4) have wu: "wu_flights wu = {#context_footprint e#}" and ctx: "ctx = c_ctx m"
    by (auto simp: writeUnit6_retire_def wu_flights_def)
  have old: "wu_flights (c_writeUnits m ! k) = {#}" using assms(3) by (simp add: wu_flights_def)
  have "flights v (m\<lparr>c_writeUnits := (c_writeUnits m)[k := wu]\<rparr>) = add_mset (context_footprint e) (flights v m)"
    using wu_replace [OF assms(2), of wu] old by (simp add: wu)
  with assms(1) show ?thesis by (simp add: holding_def flight_ok_def ctx)
next
  case False
  let ?ctx = "if RegisterChange (ec_Execution e) then WriteRegister (c_ctx m) (ec_Execution e) else c_ctx m"
  from False assms(4) have wu: "wu = c_writeUnits m ! k"
    and ctx: "ctx = DeletePendingRegisters ?ctx (ec_ReadRegisters e) (ec_WriteRegisters e)"
    by (auto simp: writeUnit6_retire_def split: if_splits)
  have "holding v (context_footprint e) (m\<lparr>c_ctx := ?ctx\<rparr>)"
    by (rule same_flight_holding [OF same_fields assms(1)]) (simp_all add: WriteRegister_def)
  from holding_delete [OF this [unfolded context_footprint_def]] show ?thesis
    by (simp add: ctx wu)
qed

lemma writeUnit_flight_ok:
  assumes "flight_ok v m" and "k < length (c_writeUnits m)" and "writeUnit6_cycle (-1) k m = Inr m'"
  shows "flight_ok v m'"
proof (cases "wu6_coroutine (c_writeUnits m ! k)")
  case (Some n)
  with assms(3) obtain wu ctx where "coWrite n (c_writeUnits m ! k) (c_ctx m) = Inr (wu, ctx)"
    "m' = m\<lparr>c_writeUnits := (c_writeUnits m)[k := wu], c_ctx := ctx\<rparr>"
    by (auto simp: writeUnit6_cycle_def Let_def)
  with coWrite_flight_ok [OF assms(1,2) Some] show ?thesis by simp
next
  case idle: None
  obtain got b where get: "BufferedBus_Get (c_writeBus m) = (got, b)" by force
  show ?thesis
  proof (cases got)
    case None
    with get contents_bus(4) have "b = c_writeBus m" by blast
    with get None idle assms show ?thesis
      by (simp add: writeUnit6_cycle_def Let_def)
  next
    case (Some e)
    obtain wu ctx where r: "writeUnit6_retire e (c_writeUnits m ! k) (c_ctx m) = (wu, ctx)" by force
    from retire_flight_ok [OF take_result [OF assms(1) get [unfolded Some]], of k wu ctx] r idle assms(2,3) get Some
    show ?thesis
      by (simp add: writeUnit6_cycle_def Let_def)
  qed
qed

lemma flight_ok_lengths: "flight_ok v m \<Longrightarrow> length (c_executeUnits m) = 2 \<and> length (c_writeUnits m) = 2"
  by (simp add: flight_ok_def places_ok_def queues_ok_def)

lemma writeUnits_flight_ok:
  "flight_ok v m \<Longrightarrow> \<forall>k \<in> set ks. k < 2 \<Longrightarrow> writeUnits_cycle (-1) ks m = Inr m' \<Longrightarrow> flight_ok v m'"
proof (induction ks arbitrary: m)
  case (Cons k ks)
  then obtain m1 where "writeUnit6_cycle (-1) k m = Inr m1" "writeUnits_cycle (-1) ks m1 = Inr m'"
    by auto
  moreover from this(1) have "flight_ok v m1"
    using writeUnit_flight_ok [of m k m1] Cons.prems(1,2) flight_ok_lengths by simp
  ultimately show ?case using Cons by simp
qed simp

end

section \<open>The main loop\<close>

text \<open>While the write units drain before a flush, the scoreboard may count instructions that were
  dropped; it is reset with the flush, after which nothing is in flight.\<close>

definition drain_ok :: "nat \<Rightarrow> ('r, 'e, 'c, 'z) cpu6_scheme \<Rightarrow> bool" where
  "drain_ok k m \<longleftrightarrow> queues_ok m \<and> busy_units_ok m
     \<and> (\<forall>j < k. j < 2 \<longrightarrow> writeUnit6_isEmpty (c_writeUnits m ! j))
     \<and> (0 < k \<longrightarrow> BufferedBus_IsEmpty (c_writeBus m))"

definition mode_flight_ok :: "('r, 'e, 'c, 'z) flight_view \<Rightarrow> mode6 \<times> ('r, 'e, 'c, 'z) cpu6_scheme \<Rightarrow> bool" where
  "mode_flight_ok v s \<longleftrightarrow> (case fst s of Draining k from pc \<Rightarrow> drain_ok k (snd s) | _ \<Rightarrow> flight_ok v (snd s))"

lemma writeUnit6_frame:
  assumes "writeUnit6_cycle from k m = Inr m'"
  shows "c_executeBus m' = c_executeBus m" and "c_executeUnits m' = c_executeUnits m"
    and "c_writeBus m' = c_writeBus m \<or> c_writeBus m' = snd (BufferedBus_Get (c_writeBus m))"
    and "length (c_writeUnits m') = length (c_writeUnits m)"
    and "j \<noteq> k \<Longrightarrow> c_writeUnits m' ! j = c_writeUnits m ! j"
  using assms by (auto simp: writeUnit6_cycle_def Let_def split_beta split: option.splits if_splits)

lemma flight_drain_ok: "flight_ok v m \<Longrightarrow> drain_ok 0 m"
  by (simp add: flight_ok_def places_ok_def drain_ok_def)

lemma drain_step_ok:
  assumes "drain_ok k m" and "k < 2" and "writeUnit6_cycle from k m = Inr m'"
  shows "drain_ok k m'"
proof -
  note frame = writeUnit6_frame [OF assms(3)]
  obtain got b where get: "BufferedBus_Get (c_writeBus m) = (got, b)" by force
  have "BufferedBus_IsEmpty (c_writeBus m) \<Longrightarrow> BufferedBus_IsEmpty b"
    using get by (auto simp: BufferedBus_IsEmpty_def BufferedBus_Get_def)
  then have "length (bb_queue (c_writeBus m')) \<le> queueLength (c_writeBus m')"
      "0 < k \<longrightarrow> BufferedBus_IsEmpty (c_writeBus m')"
    using assms(1) frame(3) get contents_bus(3) [OF get] by (auto simp: drain_ok_def queues_ok_def)
  with assms(1) frame show ?thesis
    by (auto simp: drain_ok_def queues_ok_def busy_units_ok_def)
qed

text \<open>The contract of the units in which the versions differ.\<close>

locale flight_units = flight_rules +
  fixes un :: "('a, 'b, 'c, 'd) cpu6_scheme units6"
  assumes decode_flight: "un_decode un app m = Inr m' \<Longrightarrow> same_flight v m' m"
    and control_flight: "flight_ok v m \<Longrightarrow> flight_ok v (un_control un m)"
    and flushControl_flight: "same_flight v (un_flushControl un m) m"
    and execute_flight: "flight_ok v m \<Longrightarrow> k < length (c_executeUnits m) \<Longrightarrow>
      un_execute un k app m = Inr (resp, m') \<Longrightarrow> flight_ok v m'"
begin

lemma executeUnits_flight_ok:
  "flight_ok v m \<Longrightarrow> \<forall>k \<in> set ks. k < 2 \<Longrightarrow> executeUnits_cycle un app ks a m = Inr (r, m') \<Longrightarrow> flight_ok v m'"
proof (induction ks arbitrary: a m)
  case (Cons k ks)
  then obtain r1 m1 where "un_execute un k app m = Inr (r1, m1)"
    "executeUnits_cycle un app ks (join_resp a r1) m1 = Inr (r, m')"
    by auto
  moreover from this(1) have "flight_ok v m1"
    using execute_flight [of m k app r1 m1] Cons.prems(1,2) flight_ok_lengths by simp
  ultimately show ?case using Cons by simp
qed simp

lemma cycle_flight_ok:
  assumes "flight_ok v m" and "cpu6_cycle un app m = Inr (r, m')"
  shows "flight_ok v m'"
proof -
  from assms(2) obtain m1 m2 m4 where
    m1: "fetchUnit6_cycle app (cpu6_connect (m\<lparr>c_cycle := c_cycle m + 1\<rparr>)) = Inr m1"
    and m2: "un_decode un app m1 = Inr m2"
    and m4: "executeUnits_cycle un app [0..<length (c_executeUnits m2)] noResp (un_control un m2) = Inr (r, m4)"
    and m': "writeUnits_cycle (-1) [0..<length (c_writeUnits m4)] m4 = Inr m'"
    by (auto simp: cpu6_cycle_def)
  have "flight_ok v (cpu6_connect (m\<lparr>c_cycle := c_cycle m + 1\<rparr>))"
    by (rule connect_flight_ok(1) [OF flight_ok_update(8) [OF assms(1)]])
  then have ok2: "flight_ok v m2"
    using same_flight_ok [OF fetchUnit6_same [OF m1]] same_flight_ok [OF decode_flight [OF m2]] by simp
  then have "flight_ok v m4"
    using executeUnits_flight_ok [OF control_flight [OF ok2] _ m4] flight_ok_lengths by simp
  then show ?thesis
    using writeUnits_flight_ok [OF _ _ m'] flight_ok_lengths by simp
qed

lemma flush_flight_ok:
  assumes "drain_ok k m" and "2 \<le> k"
  shows "flight_ok v (cpu6_flush un pc m)"
proof -
  have lengths: "length (c_executeUnits m) = 2" "length (c_writeUnits m) = 2"
    using assms(1) by (simp_all add: drain_ok_def queues_ok_def)
  have same: "c_writeUnits (un_flushControl un m) = c_writeUnits m"
    using flushControl_flight [of m] by (simp add: same_flight_def)
  have "wu_flights wu = {#}" if "wu \<in> set (c_writeUnits m)" for wu
    using that assms lengths by (force simp: drain_ok_def in_set_conv_nth writeUnit6_isEmpty_def wu_flights_def)
  then have writes: "sum_list (map wu_flights (c_writeUnits m)) = {#}"
    by (simp add: sum_list_0 cong: map_cong)
  have execs: "sum_list (map (eu_flights (fv_unit v)) (map executeUnit6_flush (c_executeUnits m))) = {#}"
    by (induction "c_executeUnits m") (simp_all add: executeUnit6_flush_def eu_flights_def o_def)
  have "flights v (cpu6_flush un pc m) = {#}"
    using writes execs same
    by (simp add: cpu6_flush_def flights_def BufferedBus_Clean_def BufferedBus_contents_def)
  then show ?thesis
    using lengths same allowed_empty
    by (simp add: flight_ok_def places_ok_def cpu6_flush_def queues_ok_def busy_units_ok_def bus_ok_def
        BufferedBus_Clean_def BufferedBus_contents_def executeUnit6_flush_def)
qed

lemma step_flight_ok:
  assumes "mode_flight_ok v s" and "cpu6_step un pendings app s = Inr (Continue s')"
  shows "mode_flight_ok v s'"
proof -
  obtain mode m where s: "s = (mode, m)" by force
  show ?thesis
  proof (cases mode)
    case Cycling
    with assms s obtain r m1 where "cpu6_cycle un app m = Inr (r, m1)"
      and s': "s' = (if resp_isReturn r then (Returning, connect_writes (c_cycle m1 + 1)
            (m1\<lparr>c_counterFlush := c_counterFlush m1 + 1, c_cycle := c_cycle m1 + 1\<rparr>))
          else if resp_flush r then (Draining 0 (resp_from r) (resp_pc r), connect_writes (c_cycle m1 + 1) m1)
          else (Cycling, m1))"
      by (auto simp: cpu6_step_def split: if_splits)
    then have ok: "flight_ok v m1"
      using cycle_flight_ok assms(1) s Cycling by (auto simp: mode_flight_ok_def)
    from connect_flight_ok(2) [OF flight_ok_update(8) [OF flight_ok_update(9) [OF ok]]]
      flight_drain_ok [OF connect_flight_ok(2) [OF ok]] ok
    show ?thesis
      by (simp add: s' mode_flight_ok_def)
  next
    case Returning
    with assms s obtain m1 where "writeUnits_cycle (-1) [0..<length (c_writeUnits m)] m = Inr m1"
      and s': "s' = (Returning, connect_writes (c_cycle m1 + 1) (m1\<lparr>c_cycle := c_cycle m1 + 1\<rparr>))"
      by (auto simp: cpu6_step_def split: if_splits)
    moreover have "flight_ok v m" using assms(1) s Returning by (simp add: mode_flight_ok_def)
    ultimately have "flight_ok v m1"
      using writeUnits_flight_ok [of m "[0..<length (c_writeUnits m)]" m1] flight_ok_lengths by simp
    from connect_flight_ok(2) [OF flight_ok_update(8) [OF this]] show ?thesis
      by (simp add: s' mode_flight_ok_def)
  next
    case (Draining k src pc)
    then have ok: "drain_ok k m" using assms(1) s by (simp add: mode_flight_ok_def)
    then have len: "length (c_writeUnits m) = 2" by (simp add: drain_ok_def queues_ok_def)
    consider (flush) "2 \<le> k"
      | (wait) "k < 2" "\<not> writeUnit6_isEmpty (c_writeUnits m ! k) \<or> \<not> BufferedBus_IsEmpty (c_writeBus m)"
      | (idle) "k < 2" "writeUnit6_isEmpty (c_writeUnits m ! k)" "BufferedBus_IsEmpty (c_writeBus m)"
      by fastforce
    then show ?thesis
    proof cases
      case flush
      with assms(2) s Draining len flight_ok_update(8) [OF flush_flight_ok [OF ok]] show ?thesis
        by (auto simp: cpu6_step_def mode_flight_ok_def Let_def)
    next
      case wait
      with assms(2) s Draining len obtain m1 where
        "writeUnit6_cycle src k (m\<lparr>c_cycle := c_cycle m + 1\<rparr>) = Inr m1" "s' = (Draining k src pc, m1)"
        by (auto simp: cpu6_step_def)
      with drain_step_ok [of k "m\<lparr>c_cycle := c_cycle m + 1\<rparr>" src m1] ok wait show ?thesis
        by (simp add: mode_flight_ok_def drain_ok_def queues_ok_def busy_units_ok_def)
    next
      case idle
      with assms(2) s Draining len ok show ?thesis
        by (auto simp: cpu6_step_def mode_flight_ok_def drain_ok_def less_Suc_eq)
    qed
  qed
qed

lemma new_flight_ok:
  assumes "c_ctx m = NewContext debug n" "c_executeBus m = NewBufferedBus 2 2" "c_writeBus m = NewBufferedBus 2 2"
    "c_executeUnits m = [newExecuteUnit6, newExecuteUnit6]" "c_writeUnits m = [newWriteUnit6, newWriteUnit6]"
  shows "flight_ok v m"
proof -
  have "flights v m = {#}"
    by (simp add: assms flights_def NewBufferedBus_def BufferedBus_contents_def newExecuteUnit6_def
        newWriteUnit6_def eu_flights_def wu_flights_def)
  then show ?thesis
    by (simp add: assms flight_ok_def places_ok_def queues_ok_def busy_units_ok_def bus_ok_def allowed_empty
        NewBufferedBus_def BufferedBus_contents_def newExecuteUnit6_def exact_def NewContext_def)
qed

end

end
