(* ===== verification/Mvp60.thy ===== *)
theory Mvp60
  imports Superscalar
begin

text \<open>
  MVP-6.0 (\<open>src/proc/mvp6-0\<close>): two execute units and two write units behind a control unit that keeps
  the instructions with hazards in a queue.
\<close>

section \<open>The control unit\<close>

record controlUnit60 =
  cu_pendings :: "InstructionRunnerPc Queue"
  cu_pushed :: Gauge
  cu_pending :: Gauge
  cu_pendingRead :: Gauge
  cu_blocked :: Gauge
  cu_total :: int
  cu_cantAdd :: int
  cu_blockedBranch :: int
  cu_blockedDataHazard :: int

type_synonym cpu60 = "(InstructionRunnerPc, InstructionRunnerPc, controlUnit60) cpu6"

definition pendingLength :: nat where "pendingLength = 10"

definition newControlUnit60 :: controlUnit60 where
  "newControlUnit60 = \<lparr>cu_pendings = NewQueue pendingLength, cu_pushed = newGauge,
     cu_pending = newGauge, cu_pendingRead = newGauge, cu_blocked = newGauge, cu_total = 0,
     cu_cantAdd = 0, cu_blockedBranch = 0, cu_blockedDataHazard = 0\<rparr>"

definition on_cu60 :: "(controlUnit60 \<Rightarrow> controlUnit60) \<Rightarrow> cpu60 \<Rightarrow> cpu60" where
  "on_cu60 g m = m\<lparr>c_controlUnit := g (c_controlUnit m)\<rparr>"

definition methods60 :: "InstructionRunnerPc \<Rightarrow> InstructionRunner" where
  "methods60 r = runner (rp_Runner r) noForward"

definition pushRunner60 :: "InstructionRunnerPc \<Rightarrow> cpu60 \<Rightarrow> cpu60" where
  "pushRunner60 r m =
     m\<lparr>c_executeBus := BufferedBus_Add (c_executeBus m) r (c_cycle m),
       c_ctx := AddPendingRegisters (c_ctx m) (methods60 r)\<rparr>"

text \<open>The result is whether the instruction was pushed and whether the control unit stops.\<close>

definition handleRunner60 :: "int \<Rightarrow> InstructionRunnerPc \<Rightarrow> cpu60 \<Rightarrow> bool \<times> bool \<times> cpu60" where
  "handleRunner60 pushed r m =
     (if 0 < pushed \<and> IsBranch (instructionType (rp_Runner r))
      then (False, True, on_cu60 (\<lambda>cu. cu\<lparr>cu_blockedBranch := cu_blockedBranch cu + 1\<rparr>) m)
      else if fst (IsDataHazard3 (c_ctx m) (methods60 r)) = []
      then (True, False, pushRunner60 r m)
      else (False, True, on_cu60 (\<lambda>cu. cu\<lparr>cu_blockedDataHazard := cu_blockedDataHazard cu + 1\<rparr>) m))"

text \<open>The loop over the queue; \<open>True\<close> if it stops the cycle.\<close>

fun pendings60_loop :: "InstructionRunnerPc element list \<Rightarrow> int \<Rightarrow> int \<Rightarrow> cpu60 \<Rightarrow>
    bool \<times> int \<times> int \<times> cpu60" where
  "pendings60_loop [] remaining pushed m = (False, remaining, pushed, m)"
| "pendings60_loop (elem # elems) remaining pushed m =
     (case handleRunner60 pushed (Queue_Value elem) m of (push, stop, m) \<Rightarrow>
        let (remaining, pushed, m) =
              (if push
               then (remaining - 1, pushed + 1,
                 on_cu60 (\<lambda>cu. cu\<lparr>cu_pendings := Queue_Remove (cu_pendings cu) elem\<rparr>) m)
               else (remaining, pushed,
                 on_cu60 (\<lambda>cu. cu\<lparr>cu_blockedBranch := cu_blockedBranch cu + 1\<rparr>) m))
        in if stop then (True, remaining, pushed, m) else pendings60_loop elems remaining pushed m)"

text \<open>The loop over the input bus.\<close>

function incoming60_loop :: "int \<Rightarrow> int \<Rightarrow> cpu60 \<Rightarrow> int \<times> cpu60" where
  "incoming60_loop remaining pushed m =
     (if 0 < remaining \<and> \<not> Queue_IsFull (cu_pendings (c_controlUnit m))
      then case BufferedBus_Get (c_controlBus m) of (got, inBus) \<Rightarrow> (case got of
          None \<Rightarrow> (pushed, m)
        | Some r \<Rightarrow>
            case handleRunner60 pushed r (m\<lparr>c_controlBus := inBus\<rparr>) of (push, stop, m') \<Rightarrow>
            let (remaining, pushed, m') =
                  (if push then (remaining - 1, pushed + 1, m')
                   else (remaining, pushed, on_cu60 (\<lambda>cu. cu\<lparr>cu_pendings := Queue_Push (cu_pendings cu) r,
                     cu_blockedBranch := cu_blockedBranch cu + 1\<rparr>) m'))
            in if stop then (pushed, m') else incoming60_loop remaining pushed m')
      else (pushed, m))"
  by pat_completeness auto
termination
  by (relation "measure (\<lambda>(remaining, pushed, m). length (bb_queue (c_controlBus m)))")
    (auto simp: BufferedBus_Get_def handleRunner60_def pushRunner60_def on_cu60_def
      split: list.splits if_splits)

declare incoming60_loop.simps [simp del]

definition controlUnit60_work :: "cpu60 \<Rightarrow> int \<times> cpu60" where
  "controlUnit60_work m =
     (if \<not> BufferedBus_CanAdd (c_executeBus m)
      then (0, on_cu60 (\<lambda>cu. cu\<lparr>cu_cantAdd := cu_cantAdd cu + 1\<rparr>) m)
      else case pendings60_loop (Queue_Iterator (cu_pendings (c_controlUnit m)))
          (BufferedBus_RemainingToAdd (c_executeBus m)) 0 m of (stopped, remaining, pushed, m) \<Rightarrow>
        if stopped then (pushed, m) else incoming60_loop remaining pushed m)"

definition controlUnit60_cycle :: "cpu60 \<Rightarrow> cpu60" where
  "controlUnit60_cycle m =
     (let inBus = c_controlBus m;
          m = on_cu60 (\<lambda>cu. cu
            \<lparr>cu_pendingRead := Gauge_Push (int (BufferedBus_PendingRead inBus)) (cu_pendingRead cu),
             cu_blocked := Gauge_Push (if BufferedBus_CanGet inBus then 1 else 0) (cu_blocked cu),
             cu_total := cu_total cu + 1\<rparr>) m
      in case controlUnit60_work m of (pushed, m) \<Rightarrow>
        on_cu60 (\<lambda>cu. cu\<lparr>cu_pushed := Gauge_Push pushed (cu_pushed cu),
          cu_pending := Gauge_Push (int (Queue_Length (cu_pendings cu))) (cu_pending cu)\<rparr>) m)"

definition controlUnit60_flush :: "cpu60 \<Rightarrow> cpu60" where
  "controlUnit60_flush = on_cu60 (\<lambda>cu. cu\<lparr>cu_pendings := NewQueue pendingLength\<rparr>)"

section \<open>What the control unit preserves\<close>

text \<open>The control unit changes its own state, takes from its bus, and issues instructions that have no
  hazard. A property that these three keep is kept by a cycle.\<close>

locale control60_property =
  fixes P :: "cpu60 \<Rightarrow> bool"
  assumes own_state: "P m \<Longrightarrow> P (on_cu60 g m)"
    and take_from_bus: "P m \<Longrightarrow> P (m\<lparr>c_controlBus := b\<rparr>)"
    and issue: "P m \<Longrightarrow> fst (IsDataHazard3 (c_ctx m) (methods60 r)) = [] \<Longrightarrow> P (pushRunner60 r m)"
begin

lemma handleRunner: "P m \<Longrightarrow> handleRunner60 n r m = (push, stop, m') \<Longrightarrow> P m'"
  using issue [of m r] own_state [of m] by (auto simp: handleRunner60_def split: if_splits)

lemma pendings:
  "P m \<Longrightarrow> pendings60_loop elems remaining n m = (stop, remaining', n', m') \<Longrightarrow> P m'"
proof (induction elems arbitrary: remaining n m)
  case Nil
  then show ?case by simp
next
  case (Cons elem elems)
  obtain push halt m1 where handle: "handleRunner60 n (Queue_Value elem) m = (push, halt, m1)"
    by (metis prod_cases3)
  have ok: "P m1" by (rule handleRunner [OF Cons.prems(1) handle])
  show ?case
  proof (cases push; cases halt)
    assume "push" "halt"
    with Cons.prems(2) handle own_state [OF ok] show ?thesis by (auto simp: Let_def)
  next
    assume "push" "\<not> halt"
    with Cons.prems(2) handle Cons.IH [OF own_state [OF ok]] show ?thesis
      by (simp add: Let_def)
  next
    assume "\<not> push" "halt"
    with Cons.prems(2) handle own_state [OF ok] show ?thesis by (auto simp: Let_def)
  next
    assume "\<not> push" "\<not> halt"
    with Cons.prems(2) handle Cons.IH [OF own_state [OF ok]] show ?thesis
      by (simp add: Let_def)
  qed
qed

lemma incoming:
  "P m \<Longrightarrow> incoming60_loop remaining n m = (n', m') \<Longrightarrow> P m'"
proof (induction "length (bb_queue (c_controlBus m))" arbitrary: remaining n m rule: less_induct)
  case less
  obtain got b where get: "BufferedBus_Get (c_controlBus m) = (got, b)" by force
  have rest: "P m'"
    if "incoming60_loop i k m1 = (n', m')" "c_controlBus m1 = b" "got \<noteq> None" "P m1" for i k m1
    using less.hyps [of m1 i k] that get Get_shorter [of "c_controlBus m" "the got" b] by auto
  note loop = less.prems(2) [unfolded incoming60_loop.simps [of remaining n m]]
  show ?case
  proof (cases "0 < remaining \<and> \<not> Queue_IsFull (cu_pendings (c_controlUnit m)) \<and> got \<noteq> None")
    case False
    with loop less.prems(1) get show ?thesis by (auto split: if_splits)
  next
    case True
    then obtain r where r: "got = Some r" by auto
    obtain push stop m1 where handle: "handleRunner60 n r (m\<lparr>c_controlBus := b\<rparr>) = (push, stop, m1)"
      by (metis prod_cases3)
    have ok: "P m1" using handleRunner [OF take_from_bus [OF less.prems(1)] handle] .
    have bus: "c_controlBus m1 = b"
      using handle by (auto simp: handleRunner60_def pushRunner60_def on_cu60_def split: if_splits)
    define m2 where "m2 = on_cu60 (\<lambda>cu. cu\<lparr>cu_pendings := Queue_Push (cu_pendings cu) r,
      cu_blockedBranch := cu_blockedBranch cu + 1\<rparr>) m1"
    have "P m2" "c_controlBus m2 = b" using own_state [OF ok] bus by (simp_all add: m2_def) (simp add: on_cu60_def)
    with loop True get r handle ok bus rest show ?thesis
      by (cases push; cases stop) (simp_all add: Let_def flip: m2_def)
  qed
qed

lemma work:
  assumes "P m" and "controlUnit60_work m = (n, m')"
  shows "P m'"
proof (cases "BufferedBus_CanAdd (c_executeBus m)")
  case False
  with assms own_state show ?thesis by (auto simp: controlUnit60_work_def)
next
  case True
  obtain stopped remaining pushed m1 where
    loop: "pendings60_loop (Queue_Iterator (cu_pendings (c_controlUnit m)))
      (BufferedBus_RemainingToAdd (c_executeBus m)) 0 m = (stopped, remaining, pushed, m1)"
    by (metis prod_cases4)
  from pendings [OF assms(1) this] have "P m1" .
  with assms(2) True loop incoming [of m1 remaining pushed n m'] show ?thesis
    by (cases stopped) (simp_all add: controlUnit60_work_def)
qed

lemma cycle:
  assumes "P m"
  shows "P (controlUnit60_cycle m)"
proof -
  have work: "P (snd (controlUnit60_work m1))" if "P m1" for m1
    using work [OF that, of "fst (controlUnit60_work m1)"] by simp
  show ?thesis
    by (simp add: controlUnit60_cycle_def Let_def split_beta work own_state assms)
qed

end

section \<open>The execute units\<close>

text \<open>The end of \<open>coRun\<close>: the result goes to the write bus.\<close>

definition finishRun60 :: "InstructionRunnerPc \<Rightarrow> Execution \<Rightarrow> cpu60 \<Rightarrow> (euResp \<times> cpu60) result" where
  "finishRun60 r exe m =
     reportBranch6 (rp_Runner r) (rp_Pc r) exe
       (m\<lparr>c_writeBus := BufferedBus_Add (c_writeBus m) (writeContext6 (methods60 r) (rp_Pc r) exe) (c_cycle m)\<rparr>)"

definition coRun60 :: "nat \<Rightarrow> InstructionRunnerPc \<Rightarrow> app \<Rightarrow> cpu60 \<Rightarrow> (euResp \<times> cpu60) result" where
  "coRun60 k r app m = run6 (methods60 r) (finishRun60 r) k (rp_Pc r) app m"

definition coPrepareRun60 :: "nat \<Rightarrow> InstructionRunnerPc \<Rightarrow> app \<Rightarrow> cpu60 \<Rightarrow> (euResp \<times> cpu60) result" where
  "coPrepareRun60 k r app m =
     (if \<not> BufferedBus_CanAdd (c_writeBus m) then Inr (noResp, m)
      else let m = btb6_assert (rp_Runner r) (rp_Pc r) m;
               addrs = MemoryRead (methods60 r) (c_ctx m)
      in if length addrs \<noteq> 0 then load6 k addrs m else coRun60 k r app m)"

definition executeUnit60_resume :: "nat \<Rightarrow> execute_checkpoint \<Rightarrow> InstructionRunnerPc \<Rightarrow> app \<Rightarrow> cpu60 \<Rightarrow>
    (euResp \<times> cpu60) result" where
  "executeUnit60_resume k co r app m = resume6 (coPrepareRun60 k r app) (coRun60 k r app) k co m"

definition executeUnit60_cycle :: "nat \<Rightarrow> app \<Rightarrow> cpu60 \<Rightarrow> (euResp \<times> cpu60) result" where
  "executeUnit60_cycle k app m =
     (let eu = c_executeUnits m ! k in
      case eu6_coroutine eu of
        Some co \<Rightarrow> (case eu6_runner eu of
            None \<Rightarrow> Inl (Panic NilDereference)
          | Some r \<Rightarrow> executeUnit60_resume k co r app m)
      | None \<Rightarrow> (case BufferedBus_Get (c_executeBus m) of (got, inBus) \<Rightarrow>
          let m = m\<lparr>c_executeBus := inBus\<rparr> in (case got of
            None \<Rightarrow> Inr (noResp, m)
          | Some r \<Rightarrow> coPrepareRun60 k r app
              (on_eu6 k (\<lambda>eu. eu\<lparr>eu6_runner := Some r, eu6_coroutine := Some PrepareRun\<rparr>) m))))"

text \<open>What the small changes of \<open>unit_steps\<close> obey, a cycle of an execute unit obeys, if taking an
  instruction from the bus does.\<close>

locale unit_steps60 = unit_steps R for R :: "cpu60 \<Rightarrow> cpu60 \<Rightarrow> bool" +
  assumes take_step: "BufferedBus_Get (c_executeBus m) = (got, b) \<Longrightarrow> R (m\<lparr>c_executeBus := b\<rparr>) m"
begin

lemma finishRun60_step: "finishRun60 r exe m = Inr (resp, m') \<Longrightarrow> R m' m"
  unfolding finishRun60_def by (drule reportBranch6_step) (rule trans [OF _ write_step])

lemma coRun60_step: "coRun60 k r app m = Inr (resp, m') \<Longrightarrow> R m' m"
  unfolding coRun60_def by (rule run6_step [OF finishRun60_step])

lemma coPrepareRun60_step:
  assumes "coPrepareRun60 k r app m = Inr (resp, m')"
  shows "R m' m"
proof -
  from assms have "m' = m \<or> R m' (btb6_assert (rp_Runner r) (rp_Pc r) m)"
    by (auto simp: coPrepareRun60_def Let_def split: if_splits dest: coRun60_step load6_step)
  with refl trans [OF _ btb6_assert_step] show ?thesis by blast
qed

lemma executeUnit60_step:
  assumes "executeUnit60_cycle k app m = Inr (resp, m')"
  shows "R m' m"
proof (cases "eu6_coroutine (c_executeUnits m ! k)")
  case (Some co)
  with assms obtain r where "resume6 (coPrepareRun60 k r app) (coRun60 k r app) k co m = Inr (resp, m')"
    by (auto simp: executeUnit60_cycle_def executeUnit60_resume_def Let_def split: option.splits)
  then show ?thesis
    by (rule resume6_step [rotated 2]) (erule coPrepareRun60_step, erule coRun60_step)
next
  case None
  obtain got b where get: "BufferedBus_Get (c_executeBus m) = (got, b)" by force
  have "R m' (m\<lparr>c_executeBus := b\<rparr>)"
    using assms None get trans [OF coPrepareRun60_step on_eu6_step]
    by (auto simp: executeUnit60_cycle_def Let_def refl split: option.splits)
  from trans [OF this take_step [OF get]] show ?thesis .
qed

end

section \<open>The processor\<close>

definition units60 :: "cpu60 units6" where
  "units60 =
     \<lparr>un_decode = decodeUnit6_cycle (\<lambda>pc m. m), un_control = controlUnit60_cycle,
      un_flushControl = controlUnit60_flush, un_execute = executeUnit60_cycle\<rparr>"

definition mvp60_NewCPU :: "bool \<Rightarrow> nat \<Rightarrow> cpu60 result" where
  "mvp60_NewCPU = newCPU6 newControlUnit60"

definition mvp60_step :: "app \<Rightarrow> mode6 \<times> cpu60 \<Rightarrow> (mode6 \<times> cpu60, cpu60) outcome result" where
  "mvp60_step = cpu6_step units60 cu_pendings"

definition mvp60_Run :: "nat \<Rightarrow> cpu60 \<Rightarrow> app \<Rightarrow> cpu60 result option" where
  "mvp60_Run fuel m app = run_loop (mvp60_step app) fuel (Cycling, m)"

end
