(* ===== verification/Flights60.thy ===== *)
theory Flights60
  imports Flights Mvp60
begin

text \<open>
  The instructions in flight in MVP-6.0: no two of them have a register conflict, since the control unit
  issues an instruction only when it is independent of all the others. They may be executed and written
  back in any order.
\<close>

definition view60 :: "(InstructionRunnerPc, InstructionRunnerPc, controlUnit60, unit) flight_view" where
  "view60 = \<lparr>fv_ok = \<lambda>m r. True, fv_bus = \<lambda>m. runner_footprint, fv_unit = runner_footprint,
     fv_allowed = independent\<rparr>"

interpretation rules60: flight_rules view60
  by unfold_locales (auto simp: view60_def intro: independent_mono)

lemma unit60 [simp]: "fv_unit view60 r = (ReadRegisters (methods60 r), WriteRegisters (methods60 r))"
  by (simp add: view60_def runner_footprint_def methods60_def)

lemma pushRunner_flight_ok:
  assumes "flight_ok view60 m" and "fst (IsDataHazard3 (c_ctx m) (methods60 r)) = []"
  shows "flight_ok view60 (pushRunner60 r m)"
  unfolding pushRunner60_def
proof (rule rules60.issue_flight_ok [OF assms(1)])
  show "fv_allowed view60 (add_mset (fv_bus view60 m r) (flights view60 m))"
    using assms no_hazard_independent [of "c_ctx m" "flights view60 m" "methods60 r"]
    by (simp add: view60_def runner_footprint_def methods60_def flight_ok_def independent_add)
qed (simp_all add: view60_def runner_footprint_def methods60_def)

lemma on_cu60_same [simp]: "same_flight view60 (on_cu60 g m) m"
  by (simp add: on_cu60_def)

interpretation control60: control60_property "flight_ok view60"
  by unfold_locales
    (simp_all add: pushRunner_flight_ok rules60.flight_ok_update same_flight_ok [OF on_cu60_same])

lemma finishRun60_flight_ok:
  assumes "holding view60 (fv_unit view60 r) m" and "finishRun60 r exe m = Inr (resp, m')"
  shows "flight_ok view60 m'"
proof -
  have "flight_ok view60 (m\<lparr>c_writeBus := BufferedBus_Add (c_writeBus m)
      (writeContext6 (methods60 r) (rp_Pc r) exe) (c_cycle m)\<rparr>)"
    using rules60.holding_write_bus [of "writeContext6 (methods60 r) (rp_Pc r) exe" m] assms(1)
    by (simp add: context_footprint_def writeContext6_def)
  with same_flight_ok [OF rules60.reportBranch6_same] assms(2) show ?thesis
    unfolding finishRun60_def by blast
qed

lemma coRun60_flight_ok:
  assumes "flight_ok view60 m" and "executing k r m" and "coRun60 k r app m = Inr (resp, m')"
  shows "flight_ok view60 m'"
  using rules60.run6_flight_ok [OF assms(1,2) unit60 [unfolded methods60_def] finishRun60_flight_ok
      assms(3) [unfolded coRun60_def methods60_def]] .

lemma coPrepareRun60_flight_ok:
  assumes "flight_ok view60 m" and "executing k r m" and "coPrepareRun60 k r app m = Inr (resp, m')"
  shows "flight_ok view60 m'"
proof -
  note same = rules60.btb6_same(1) [of "rp_Runner r" "rp_Pc r" m]
  note ready = same_flight_ok [OF same assms(1)] executing_same [OF same assms(2)]
  consider "m' = m" | addrs where "load6 k addrs (btb6_assert (rp_Runner r) (rp_Pc r) m) = Inr (resp, m')"
    | "coRun60 k r app (btb6_assert (rp_Runner r) (rp_Pc r) m) = Inr (resp, m')"
    using assms(3) by (auto simp: coPrepareRun60_def Let_def split: if_splits)
  then show ?thesis
  proof cases
    case 1
    with assms(1) show ?thesis by simp
  next
    case 2
    with rules60.load6_flight_ok [OF ready] show ?thesis by blast
  next
    case 3
    with coRun60_flight_ok [OF ready] show ?thesis by blast
  qed
qed

lemma executeUnit60_flight_ok:
  assumes "flight_ok view60 m" and "k < length (c_executeUnits m)"
    and "executeUnit60_cycle k app m = Inr (resp, m')"
  shows "flight_ok view60 m'"
proof (cases "eu6_coroutine (c_executeUnits m ! k)")
  case (Some co)
  with assms(1,2) obtain r where r: "eu6_runner (c_executeUnits m ! k) = Some r"
    by (auto simp: flight_ok_def places_ok_def busy_units_ok_def)
  then have busy: "executing k r m" using Some assms(2) by (simp add: executing_def)
  have "resume6 (coPrepareRun60 k r app) (coRun60 k r app) k co m = Inr (resp, m')"
    using assms(3) Some r by (simp add: executeUnit60_cycle_def executeUnit60_resume_def)
  from rules60.resume6_flight_ok [OF assms(1) busy _ _ this] coPrepareRun60_flight_ok coRun60_flight_ok
  show ?thesis by blast
next
  case None
  obtain got b where get: "BufferedBus_Get (c_executeBus m) = (got, b)" by force
  show ?thesis
  proof (cases got)
    case None
    with get contents_bus(4) have "b = c_executeBus m" by blast
    with get None \<open>eu6_coroutine (c_executeUnits m ! k) = None\<close> assms show ?thesis
      by (simp add: executeUnit60_cycle_def Let_def)
  next
    case (Some r)
    have "holding view60 (fv_unit view60 r) (m\<lparr>c_executeBus := b\<rparr>)"
      using rules60.take_issued [OF assms(1) get [unfolded Some]] by (simp add: view60_def)
    from coPrepareRun60_flight_ok [OF rules60.holding_to_unit [OF this, of k PrepareRun]] assms(2,3) None get Some
    show ?thesis by (simp add: executeUnit60_cycle_def Let_def)
  qed
qed

interpretation flight60: flight_units view60 units60
proof
  fix app and m m' :: cpu60 and k resp
  show "un_decode units60 app m = Inr m' \<Longrightarrow> same_flight view60 m' m"
    using rules60.decodeUnit6_same [of "\<lambda>pc m. m"] by (simp add: units60_def)
  show "flight_ok view60 m \<Longrightarrow> flight_ok view60 (un_control units60 m)"
    by (simp add: units60_def control60.cycle)
  show "same_flight view60 (un_flushControl units60 m) m"
    by (simp add: units60_def controlUnit60_flush_def)
  show "flight_ok view60 m \<Longrightarrow> k < length (c_executeUnits m) \<Longrightarrow> un_execute units60 k app m = Inr (resp, m')
      \<Longrightarrow> flight_ok view60 m'"
    by (simp add: units60_def executeUnit60_flight_ok)
qed

text \<open>The states that a run from a new processor reaches.\<close>

inductive mvp60_reaches :: "app \<Rightarrow> bool \<Rightarrow> nat \<Rightarrow> mode6 \<times> cpu60 \<Rightarrow> bool" for app debug n where
  start: "mvp60_NewCPU debug n = Inr m \<Longrightarrow> mvp60_reaches app debug n (Cycling, m)"
| step: "mvp60_reaches app debug n s \<Longrightarrow> mvp60_step app s = Inr (Continue s') \<Longrightarrow> mvp60_reaches app debug n s'"

lemma mvp60_new_ok: "mvp60_NewCPU debug n = Inr m \<Longrightarrow> flight_ok view60 m"
  by (rule flight60.new_flight_ok) (auto simp: mvp60_NewCPU_def newCPU6_def)

lemma mvp60_reaches_ok: "mvp60_reaches app debug n s \<Longrightarrow> mode_flight_ok view60 s"
proof (induction rule: mvp60_reaches.induct)
  case (start m)
  then show ?case by (simp add: mode_flight_ok_def mvp60_new_ok)
next
  case (step s s')
  from flight60.step_flight_ok [OF step.IH step.hyps(2) [unfolded mvp60_step_def]] show ?case .
qed

end
