(* ===== verification/Draining.thy ===== *)
theory Draining
  imports Superscalar
begin

text \<open>
  The inner loops of the main loop of MVP-6.0 and MVP-6.1, which empty the write bus and the write
  units. After a \<open>ret\<close> the bus is connected in every iteration, and the loop ends. Before a flush it is
  connected once: the loop ends when that has emptied the buffer of the bus, and runs forever when it
  has not.
\<close>

section \<open>Loops that come to an end\<close>

text \<open>The state after \<open>n\<close> steps that continue.\<close>

fun continues :: "('s \<Rightarrow> ('s, 'r) outcome result) \<Rightarrow> nat \<Rightarrow> 's \<Rightarrow> 's option" where
  "continues step 0 s = Some s"
| "continues step (Suc n) s = (case step s of Inr (Continue s') \<Rightarrow> continues step n s' | _ \<Rightarrow> None)"

lemma run_continues: "continues step k s = Some s' \<Longrightarrow> run_loop step (k + n) s = run_loop step n s'"
  by (induction k arbitrary: s) (auto split: sum.splits outcome.splits)

lemma continues_add: "continues step k s = Some s' \<Longrightarrow> continues step (k + n) s = continues step n s'"
  by (induction k arbitrary: s) (auto split: sum.splits outcome.splits)

text \<open>The contract of a loop whose steps decrease a measure until a state with \<open>exit\<close> is reached.\<close>

locale decreasing_loop =
  fixes step :: "'s \<Rightarrow> ('s, 'r) outcome result"
    and I :: "'s \<Rightarrow> bool"
    and exit :: "'s \<Rightarrow> bool"
    and left :: "'s \<Rightarrow> nat"
  assumes decreases: "I s \<Longrightarrow> step s = Inr (Continue s') \<Longrightarrow> exit s' \<or> I s' \<and> left s' < left s"
begin

lemma leaves:
  assumes "I s"
  shows "\<exists>k \<le> Suc (left s). (\<exists>r. run_loop step k s = Some r) \<or> (\<exists>s'. continues step k s = Some s' \<and> exit s')"
  using assms
proof (induction "left s" arbitrary: s rule: less_induct)
  case less
  consider (ends) r where "run_loop step (Suc 0) s = Some r" | (goes) s' where "step s = Inr (Continue s')"
    by (cases "step s"; cases "projr (step s)") auto
  then show ?case
  proof cases
    case ends
    then show ?thesis by (intro exI [of _ "Suc 0"]) auto
  next
    case goes
    from decreases [OF less.prems goes] show ?thesis
    proof
      assume "exit s'"
      with goes show ?thesis by (intro exI [of _ "Suc 0"]) auto
    next
      assume "I s' \<and> left s' < left s"
      with less.hyps [of s'] obtain k where "k \<le> Suc (left s')"
        and k: "(\<exists>r. run_loop step k s' = Some r) \<or> (\<exists>s''. continues step k s' = Some s'' \<and> exit s'')"
        by blast
      with goes \<open>I s' \<and> left s' < left s\<close> show ?thesis
        by (intro exI [of _ "Suc k"]) auto
    qed
  qed
qed

lemma ends:
  assumes "I s" and "\<And>s. \<not> exit s"
  shows "\<exists>r. run_loop step (Suc (left s)) s = Some r"
proof -
  obtain k r where "k \<le> Suc (left s)" "run_loop step k s = Some r"
    using leaves [OF assms(1)] assms(2) by blast
  from run_loop_mono [OF this(2,1)] show ?thesis ..
qed

end

section \<open>What the write units have left to do\<close>

text \<open>The cycles that the write units need at most: 52 for an entry of the bus, whose write to memory takes
  51 cycles in a write unit, and the rest of the writes that have begun.\<close>

definition unit_left :: "writeUnit6 \<Rightarrow> nat" where
  "unit_left wu = (case wu6_coroutine wu of None \<Rightarrow> 0 | Some n \<Rightarrow> Suc (nat n))"

definition bus_left :: "'a BufferedBus \<Rightarrow> nat" where
  "bus_left b = 52 * (length (bb_queue b) + length (bb_buffer b))"

definition drain_time :: "('r, 'e, 'c, 'z) cpu6_scheme \<Rightarrow> nat" where
  "drain_time m = sum_list (map unit_left (c_writeUnits m)) + bus_left (c_writeBus m)"

lemma sum_list_replace_nat:
  fixes f :: "'a \<Rightarrow> nat"
  assumes "k < length xs"
  shows "sum_list (map f (xs[k := x])) + f (xs ! k) = sum_list (map f xs) + f x"
  using assms
  by (induction xs arbitrary: k) (auto simp: nth_Cons' split: nat.splits)

lemma coWrite_left:
  "coWrite n wu ctx = Inr (wu', ctx') \<Longrightarrow> wu6_coroutine wu = Some n \<Longrightarrow> unit_left wu' < unit_left wu"
  by (auto simp: coWrite_def unit_left_def split: if_splits)

lemma retire_left:
  "writeUnit6_retire e wu ctx = (wu', ctx') \<Longrightarrow> wu6_coroutine wu = None \<Longrightarrow> unit_left wu' \<le> 51"
  by (auto simp: writeUnit6_retire_def unit_left_def cyclesMemoryAccess_def split: if_splits)

lemma writeUnit6_cycle_frame:
  assumes "writeUnit6_cycle from k m = Inr m'"
  shows "bb_buffer (c_writeBus m') = bb_buffer (c_writeBus m)"
    and "queueLength (c_writeBus m') = queueLength (c_writeBus m)"
    and "length (bb_queue (c_writeBus m')) \<le> length (bb_queue (c_writeBus m))"
    and "length (c_writeUnits m') = length (c_writeUnits m)" and "c_cycle m' = c_cycle m"
  using assms
  by (auto simp: writeUnit6_cycle_def Let_def split_beta BufferedBus_Get_def
      split: option.splits if_splits list.splits)

lemma writeUnit6_cycle_left:
  assumes "writeUnit6_cycle from k m = Inr m'" and "k < length (c_writeUnits m)"
    and "\<not> writeUnit6_isEmpty (c_writeUnits m ! k) \<or> bb_queue (c_writeBus m) \<noteq> []"
  shows "drain_time m' < drain_time m"
proof (cases "wu6_coroutine (c_writeUnits m ! k)")
  case (Some n)
  with assms(1) obtain wu ctx where wu: "coWrite n (c_writeUnits m ! k) (c_ctx m) = Inr (wu, ctx)"
    and m': "m' = m\<lparr>c_writeUnits := (c_writeUnits m)[k := wu], c_ctx := ctx\<rparr>"
    by (auto simp: writeUnit6_cycle_def Let_def)
  from coWrite_left [OF wu Some] sum_list_replace_nat [OF assms(2), of unit_left wu] show ?thesis
    by (simp add: m' drain_time_def)
next
  case None
  with assms(3) obtain e es where q: "bb_queue (c_writeBus m) = e # es"
    by (cases "bb_queue (c_writeBus m)") (auto simp: writeUnit6_isEmpty_def)
  obtain wu ctx where wu: "writeUnit6_retire e (c_writeUnits m ! k) (c_ctx m) = (wu, ctx)" by force
  let ?m = "m\<lparr>c_writeBus := (c_writeBus m)\<lparr>bb_queue := es\<rparr>\<rparr>"
  have "m' = ?m \<or> m' = ?m\<lparr>c_writeUnits := (c_writeUnits m)[k := wu], c_ctx := ctx\<rparr>"
    using assms(1) None q wu by (auto simp: writeUnit6_cycle_def BufferedBus_Get_def Let_def split: if_splits)
  with retire_left [OF wu None] sum_list_replace_nat [OF assms(2), of unit_left wu] q show ?thesis
    by (auto simp: drain_time_def bus_left_def)
qed

lemma writeUnit6_cycle_idle:
  assumes "writeUnit6_cycle from k m = Inr m'"
    and "writeUnit6_isEmpty (c_writeUnits m ! k)" and "bb_queue (c_writeBus m) = []"
  shows "m' = m"
  using assms by (simp add: writeUnit6_cycle_def writeUnit6_isEmpty_def BufferedBus_Get_def Let_def)

definition same_buses :: "('r, 'e, 'c, 'z) cpu6_scheme \<Rightarrow> ('r, 'e, 'c, 'z) cpu6_scheme \<Rightarrow> bool" where
  "same_buses m' m \<longleftrightarrow> bb_buffer (c_writeBus m') = bb_buffer (c_writeBus m)
     \<and> queueLength (c_writeBus m') = queueLength (c_writeBus m)
     \<and> length (c_writeUnits m') = length (c_writeUnits m) \<and> c_cycle m' = c_cycle m"

lemma writeUnits_cycle_frame:
  "writeUnits_cycle from ks m = Inr m' \<Longrightarrow> same_buses m' m"
proof (induction ks arbitrary: m)
  case (Cons k ks)
  then obtain m1 where m1: "writeUnit6_cycle from k m = Inr m1" and "same_buses m' m1"
    by auto
  with writeUnit6_cycle_frame [OF m1] show ?case by (simp add: same_buses_def)
qed (simp add: same_buses_def)

lemma writeUnits_cycle_left:
  "writeUnits_cycle from ks m = Inr m' \<Longrightarrow> \<forall>k \<in> set ks. k < length (c_writeUnits m) \<Longrightarrow>
    drain_time m' \<le> drain_time m
    \<and> ((\<exists>k \<in> set ks. \<not> writeUnit6_isEmpty (c_writeUnits m ! k)) \<or> ks \<noteq> [] \<and> bb_queue (c_writeBus m) \<noteq> []
        \<longrightarrow> drain_time m' < drain_time m)"
proof (induction ks arbitrary: m)
  case (Cons k ks)
  from Cons.prems(1) obtain m1 where
    m1: "writeUnit6_cycle from k m = Inr m1" and m': "writeUnits_cycle from ks m1 = Inr m'"
    by auto
  have ks: "\<forall>k \<in> set ks. k < length (c_writeUnits m1)" and k: "k < length (c_writeUnits m)"
    using Cons.prems(2) writeUnit6_cycle_frame(4) [OF m1] by auto
  note rest = Cons.IH [OF m' ks]
  show ?case
  proof (cases "\<not> writeUnit6_isEmpty (c_writeUnits m ! k) \<or> bb_queue (c_writeBus m) \<noteq> []")
    case True
    with writeUnit6_cycle_left [OF m1 k] rest show ?thesis by simp
  next
    case False
    then have "m1 = m" using writeUnit6_cycle_idle [OF m1] by simp
    with False rest show ?thesis by auto
  qed
qed simp

section \<open>After a return\<close>

text \<open>The entries of the buffer are available, and the queue is empty only together with the buffer.\<close>

definition returning_ok :: "('r, 'e, 'c, 'z) cpu6_scheme \<Rightarrow> bool" where
  "returning_ok m \<longleftrightarrow> c_writeUnits m \<noteq> [] \<and> 0 < queueLength (c_writeBus m)
     \<and> (\<forall>e \<in> set (bb_buffer (c_writeBus m)). availableFromCycle e \<le> c_cycle m)
     \<and> (bb_queue (c_writeBus m) = [] \<longrightarrow> bb_buffer (c_writeBus m) = [])"

lemma connect_loop_available:
  assumes "connect_loop c n es q = (q', es')" and "\<forall>e \<in> set es. availableFromCycle e \<le> c"
  shows "set es' \<subseteq> set es" and "es' = [] \<or> length q' = n"
    and "length q' + length es' = length q + length es"
  using assms by (induction c n es q rule: connect_loop.induct) (auto split: if_splits)

lemma connect_available:
  assumes "\<forall>e \<in> set (bb_buffer b). availableFromCycle e \<le> c" and "0 < queueLength b"
  shows "set (bb_buffer (BufferedBus_Connect b c)) \<subseteq> set (bb_buffer b)"
    and "bb_queue (BufferedBus_Connect b c) = [] \<Longrightarrow> bb_buffer (BufferedBus_Connect b c) = []"
    and "bus_left (BufferedBus_Connect b c) = bus_left b"
    and "queueLength (BufferedBus_Connect b c) = queueLength b"
proof -
  obtain q es where loop: "connect_loop c (queueLength b) (bb_buffer b) (bb_queue b) = (q, es)" by force
  note parts = connect_loop_available [OF loop assms(1)]
  show "set (bb_buffer (BufferedBus_Connect b c)) \<subseteq> set (bb_buffer b)"
    and "bus_left (BufferedBus_Connect b c) = bus_left b"
    and "queueLength (BufferedBus_Connect b c) = queueLength b"
    using parts loop by (auto simp: BufferedBus_Connect_def bus_left_def)
  show "bb_queue (BufferedBus_Connect b c) = [] \<Longrightarrow> bb_buffer (BufferedBus_Connect b c) = []"
    using parts(2) loop assms(2) by (auto simp: BufferedBus_Connect_def split: if_splits)
qed

lemma connect_writes_returning:
  assumes "c_writeUnits m \<noteq> []" and "0 < queueLength (c_writeBus m)"
    and "\<forall>e \<in> set (bb_buffer (c_writeBus m)). availableFromCycle e \<le> c"
  shows "returning_ok (connect_writes c (m\<lparr>c_cycle := c\<rparr>))"
    and "drain_time (connect_writes c (m\<lparr>c_cycle := c\<rparr>)) = drain_time m"
  using assms connect_available [OF assms(3,2)]
  by (auto simp: returning_ok_def connect_writes_def drain_time_def)

definition in_return :: "mode6 \<times> ('r, 'e, 'c, 'z) cpu6_scheme \<Rightarrow> bool" where
  "in_return s \<longleftrightarrow> fst s = Returning \<and> returning_ok (snd s)"

lemma in_return_decreases:
  assumes "in_return s" and "cpu6_step un pendings app s = Inr (Continue s')"
  shows "in_return s' \<and> drain_time (snd s') < drain_time (snd s)"
proof -
  obtain m where s: "s = (Returning, m)" and ok: "returning_ok m"
    using assms(1) by (cases s) (auto simp: in_return_def)
  from assms(2) obtain m1 where busy: "\<not> areWriteUnitsEmpty m \<or> \<not> BufferedBus_IsEmpty (c_writeBus m)"
    and m1: "writeUnits_cycle (-1) [0..<length (c_writeUnits m)] m = Inr m1"
    and s': "s' = (Returning, connect_writes (c_cycle m1 + 1) (m1\<lparr>c_cycle := c_cycle m1 + 1\<rparr>))"
    by (auto simp: s cpu6_step_def split: if_splits)
  note frame = writeUnits_cycle_frame [OF m1]
  have "(\<exists>k \<in> set [0..<length (c_writeUnits m)]. \<not> writeUnit6_isEmpty (c_writeUnits m ! k))
      \<or> [0..<length (c_writeUnits m)] \<noteq> [] \<and> bb_queue (c_writeBus m) \<noteq> []"
    using busy ok by (force simp: areWriteUnitsEmpty_def list_all_length BufferedBus_IsEmpty_def returning_ok_def)
  with writeUnits_cycle_left [OF m1] have "drain_time m1 < drain_time m" by fastforce
  moreover have "c_writeUnits m1 \<noteq> []" "0 < queueLength (c_writeBus m1)"
    "\<forall>e \<in> set (bb_buffer (c_writeBus m1)). availableFromCycle e \<le> c_cycle m1 + 1"
    using frame ok by (force simp: returning_ok_def same_buses_def)+
  ultimately show ?thesis
    using connect_writes_returning [of m1 "c_cycle m1 + 1"] by (simp add: in_return_def s s')
qed

interpretation return6: decreasing_loop "cpu6_step un pendings app" in_return "\<lambda>s. False"
    "\<lambda>s. drain_time (snd s)" for un pendings app
  by unfold_locales (simp add: in_return_decreases)

section \<open>Before a flush\<close>

definition in_drain :: "mode6 \<times> ('r, 'e, 'c, 'z) cpu6_scheme \<Rightarrow> bool" where
  "in_drain s \<longleftrightarrow> (\<exists>k from pc. fst s = Draining k from pc) \<and> bb_buffer (c_writeBus (snd s)) = []"

definition drain_left :: "mode6 \<times> ('r, 'e, 'c, 'z) cpu6_scheme \<Rightarrow> nat" where
  "drain_left s = (case fst s of
     Draining k from pc \<Rightarrow> drain_time (snd s) + (length (c_writeUnits (snd s)) - k) | _ \<Rightarrow> 0)"

definition cycling :: "mode6 \<times> ('r, 'e, 'c, 'z) cpu6_scheme \<Rightarrow> bool" where
  "cycling s \<longleftrightarrow> fst s = Cycling"

lemma in_drain_decreases:
  assumes "in_drain s" and "cpu6_step un pendings app s = Inr (Continue s')"
  shows "cycling s' \<or> in_drain s' \<and> drain_left s' < drain_left s"
proof -
  obtain k src pc m where s: "s = (Draining k src pc, m)" and empty: "bb_buffer (c_writeBus m) = []"
    using assms(1) by (cases s) (auto simp: in_drain_def)
  consider (flush) "length (c_writeUnits m) \<le> k"
    | (idle) "k < length (c_writeUnits m)" "writeUnit6_isEmpty (c_writeUnits m ! k)" "BufferedBus_IsEmpty (c_writeBus m)"
    | (wait) "k < length (c_writeUnits m)"
        "\<not> writeUnit6_isEmpty (c_writeUnits m ! k) \<or> \<not> BufferedBus_IsEmpty (c_writeBus m)"
    by fastforce
  then show ?thesis
  proof cases
    case flush
    with assms(2) show ?thesis by (auto simp: s cpu6_step_def cycling_def Let_def)
  next
    case idle
    with assms(2) empty show ?thesis by (auto simp: s cpu6_step_def in_drain_def drain_left_def)
  next
    case wait
    with assms(2) obtain m1 where m1: "writeUnit6_cycle src k (m\<lparr>c_cycle := c_cycle m + 1\<rparr>) = Inr m1"
      and s': "s' = (Draining k src pc, m1)"
      by (auto simp: s cpu6_step_def)
    from writeUnit6_cycle_left [OF m1] wait empty
    have "drain_time m1 < drain_time (m\<lparr>c_cycle := c_cycle m + 1\<rparr>)"
      by (auto simp: BufferedBus_IsEmpty_def)
    then have "drain_time m1 < drain_time m" by (simp add: drain_time_def)
    with writeUnit6_cycle_frame [OF m1] empty show ?thesis
      by (simp add: s s' in_drain_def drain_left_def)
  qed
qed

interpretation flush6: decreasing_loop "cpu6_step un pendings app" in_drain cycling drain_left
    for un pendings app
  by unfold_locales (rule in_drain_decreases)

text \<open>With a buffer that is not empty the loop stays where it is.\<close>

definition stuck :: "mode6 \<times> ('r, 'e, 'c, 'z) cpu6_scheme \<Rightarrow> bool" where
  "stuck s \<longleftrightarrow> bb_buffer (c_writeBus (snd s)) \<noteq> []
     \<and> (\<exists>k from pc. fst s = Draining k from pc \<and> k < length (c_writeUnits (snd s)))"

lemma stuck_step:
  assumes "stuck s"
  shows "cpu6_step un pendings app s = Inr (Continue s') \<Longrightarrow> stuck s'"
    and "cpu6_step un pendings app s \<noteq> Inr (Done r)"
proof -
  obtain k src pc m where s: "s = (Draining k src pc, m)" and k: "k < length (c_writeUnits m)"
    and buffer: "bb_buffer (c_writeBus m) \<noteq> []"
    using assms by (cases s) (auto simp: stuck_def)
  from k buffer have step: "cpu6_step un pendings app s =
      rbind (writeUnit6_cycle src k (m\<lparr>c_cycle := c_cycle m + 1\<rparr>)) (\<lambda>m. Inr (Continue (Draining k src pc, m)))"
    by (simp add: s cpu6_step_def BufferedBus_IsEmpty_def)
  then show "cpu6_step un pendings app s \<noteq> Inr (Done r)"
    by auto
  assume "cpu6_step un pendings app s = Inr (Continue s')"
  then obtain m1 where m1: "writeUnit6_cycle src k (m\<lparr>c_cycle := c_cycle m + 1\<rparr>) = Inr m1"
    and s': "s' = (Draining k src pc, m1)"
    unfolding step by auto
  from writeUnit6_cycle_frame [OF m1] k buffer show "stuck s'"
    by (simp add: s' stuck_def)
qed

interpretation stuck6: loop_invariant "cpu6_step un pendings app" stuck "\<lambda>r. False" for un pendings app
  by unfold_locales (simp_all add: stuck_step)

text \<open>The loop at its begin: it ends, after a bounded number of steps, if and only if the buffer is empty.\<close>

lemma flush_drains:
  "bb_buffer (c_writeBus m) = [] \<Longrightarrow>
    \<exists>k \<le> Suc (drain_time m + length (c_writeUnits m)).
      (\<exists>r. run_loop (cpu6_step un pendings app) k (Draining 0 from pc, m) = Some r)
      \<or> (\<exists>m'. continues (cpu6_step un pendings app) k (Draining 0 from pc, m) = Some (Cycling, m'))"
  "bb_buffer (c_writeBus m) \<noteq> [] \<Longrightarrow> c_writeUnits m \<noteq> [] \<Longrightarrow>
    run_loop (cpu6_step un pendings app) n (Draining 0 from pc, m) \<noteq> Some (Inr m')"
  using flush6.leaves [of "(Draining 0 from pc, m)" un pendings app]
    stuck6.run_result [of "(Draining 0 from pc, m)" un pendings app n m']
  by (auto simp: in_drain_def drain_left_def cycling_def stuck_def)

section \<open>The times on the write bus\<close>

text \<open>What a unit may do to the write bus: its new entries are available in the next cycle.\<close>

definition later :: "('r, 'e, 'c, 'z) cpu6_scheme \<Rightarrow> ('r, 'e, 'c, 'z) cpu6_scheme \<Rightarrow> bool" where
  "later m' m \<longleftrightarrow> c_cycle m' = c_cycle m \<and> length (c_writeUnits m') = length (c_writeUnits m)
     \<and> queueLength (c_writeBus m') = queueLength (c_writeBus m)
     \<and> (\<forall>e \<in> set (bb_buffer (c_writeBus m')).
          e \<in> set (bb_buffer (c_writeBus m)) \<or> availableFromCycle e = c_cycle m + 1)"

lemma later_refl [simp]: "later m m"
  by (simp add: later_def)

lemma later_trans: "later m2 m1 \<Longrightarrow> later m1 m \<Longrightarrow> later m2 m"
  by (fastforce simp: later_def)

lemma later_frame:
  "c_cycle m' = c_cycle m \<Longrightarrow> c_writeUnits m' = c_writeUnits m \<Longrightarrow> c_writeBus m' = c_writeBus m \<Longrightarrow> later m' m"
  by (simp add: later_def)

definition times_ok :: "('r, 'e, 'c, 'z) cpu6_scheme \<Rightarrow> bool" where
  "times_ok m \<longleftrightarrow> c_writeUnits m \<noteq> [] \<and> 0 < queueLength (c_writeBus m)
     \<and> (\<forall>e \<in> set (bb_buffer (c_writeBus m)). availableFromCycle e \<le> c_cycle m + 1)"

lemma later_times_ok: "later m' m \<Longrightarrow> times_ok m \<Longrightarrow> times_ok m'"
  by (fastforce simp: later_def times_ok_def)

lemma same_buses_later: "same_buses m' m \<Longrightarrow> later m' m"
  by (simp add: same_buses_def later_def)

lemma connect_loop_subset: "connect_loop c n es q = (q', es') \<Longrightarrow> set es' \<subseteq> set es"
  by (induction c n es q rule: connect_loop.induct) (auto split: if_splits)

lemma connect_subset:
  "set (bb_buffer (BufferedBus_Connect b c)) \<subseteq> set (bb_buffer b)"
  "queueLength (BufferedBus_Connect b c) = queueLength b"
  by (auto simp: BufferedBus_Connect_def split: prod.splits dest: connect_loop_subset)

lemma connect_times_ok: "times_ok m \<Longrightarrow> times_ok (cpu6_connect (m\<lparr>c_cycle := c_cycle m + 1\<rparr>))"
  using connect_subset [of "c_writeBus m" "c_cycle m + 1"] by (fastforce simp: times_ok_def cpu6_connect_def)

text \<open>The state of the main loop in each of its modes.\<close>

definition modes_ok :: "mode6 \<times> ('r, 'e, 'c, 'z) cpu6_scheme \<Rightarrow> bool" where
  "modes_ok s \<longleftrightarrow> (case fst s of Cycling \<Rightarrow> times_ok (snd s) | Returning \<Rightarrow> returning_ok (snd s)
     | Draining k from pc \<Rightarrow> c_writeUnits (snd s) \<noteq> [] \<and> 0 < queueLength (c_writeBus (snd s)))"

text \<open>The contract of the units in which the versions differ.\<close>

locale writing_units =
  fixes un :: "('r, 'e, 'c, 'z) cpu6_scheme units6"
  assumes decode_later: "un_decode un app m = Inr m' \<Longrightarrow> later m' m"
    and control_later: "later (un_control un m) m"
    and flushControl_later: "later (un_flushControl un m) m"
    and execute_later: "un_execute un k app m = Inr (r, m') \<Longrightarrow> later m' m"
begin

lemma executeUnits_later: "executeUnits_cycle un app ks a m = Inr (r, m') \<Longrightarrow> later m' m"
  by (induction ks arbitrary: a m) (auto dest: execute_later intro: later_trans)

lemma cycle_times_ok:
  assumes "cpu6_cycle un app m = Inr (r, m')" and "times_ok m"
  shows "times_ok m'"
proof -
  from assms(1) obtain m1 m2 m4 where
    m1: "fetchUnit6_cycle app (cpu6_connect (m\<lparr>c_cycle := c_cycle m + 1\<rparr>)) = Inr m1"
    and m2: "un_decode un app m1 = Inr m2"
    and m4: "executeUnits_cycle un app [0..<length (c_executeUnits m2)] noResp (un_control un m2) = Inr (r, m4)"
    and m': "writeUnits_cycle (-1) [0..<length (c_writeUnits m4)] m4 = Inr m'"
    by (auto simp: cpu6_cycle_def)
  have "later m1 (cpu6_connect (m\<lparr>c_cycle := c_cycle m + 1\<rparr>))"
    using m1 by (auto simp: fetchUnit6_cycle_def Let_def intro!: later_frame split: prod.splits)
  then have "times_ok m1"
    using connect_times_ok [OF assms(2)] by (rule later_times_ok)
  then show ?thesis
    using decode_later [OF m2] control_later [of m2] executeUnits_later [OF m4]
      same_buses_later [OF writeUnits_cycle_frame [OF m']] later_times_ok by blast
qed

lemma step_modes_ok:
  assumes "modes_ok s" and "cpu6_step un pendings app s = Inr (Continue s')"
  shows "modes_ok s'"
proof -
  obtain mode m where s: "s = (mode, m)" by force
  show ?thesis
  proof (cases mode)
    case Cycling
    with assms(2) s obtain r m1 where m1: "cpu6_cycle un app m = Inr (r, m1)"
      and s': "s' = (if resp_isReturn r then (Returning, connect_writes (c_cycle m1 + 1)
            (m1\<lparr>c_counterFlush := c_counterFlush m1 + 1, c_cycle := c_cycle m1 + 1\<rparr>))
          else if resp_flush r then (Draining 0 (resp_from r) (resp_pc r), connect_writes (c_cycle m1 + 1) m1)
          else (Cycling, m1))"
      by (auto simp: cpu6_step_def split: if_splits)
    have ok: "times_ok m1"
      using cycle_times_ok [OF m1] assms(1) s Cycling by (simp add: modes_ok_def)
    with connect_writes_returning(1) [of "m1\<lparr>c_counterFlush := c_counterFlush m1 + 1\<rparr>" "c_cycle m1 + 1"]
    have "returning_ok (connect_writes (c_cycle m1 + 1)
        (m1\<lparr>c_counterFlush := c_counterFlush m1 + 1, c_cycle := c_cycle m1 + 1\<rparr>))"
      by (simp add: times_ok_def)
    with ok connect_subset(2) [of "c_writeBus m1"] show ?thesis
      by (simp add: s' modes_ok_def connect_writes_def times_ok_def [of m1])
  next
    case Returning
    with assms s have "in_return s" by (simp add: in_return_def modes_ok_def)
    from in_return_decreases [OF this assms(2)] show ?thesis
      by (simp add: in_return_def modes_ok_def)
  next
    case (Draining k src pc)
    then have units: "c_writeUnits m \<noteq> []" "0 < queueLength (c_writeBus m)"
      using assms(1) s by (simp_all add: modes_ok_def)
    consider (flush) "length (c_writeUnits m) \<le> k" | (idle) "s' = (Draining (Suc k) src pc, m)"
      | (wait) m1 where "writeUnit6_cycle src k (m\<lparr>c_cycle := c_cycle m + 1\<rparr>) = Inr m1" "s' = (Draining k src pc, m1)"
      using assms(2) by (auto simp: s Draining cpu6_step_def split: if_splits)
    then show ?thesis
    proof cases
      case flush
      with assms(2) have "s' = (Cycling, (cpu6_flush un pc m)\<lparr>c_cycle := c_cycle (cpu6_flush un pc m) + flushCycles\<rparr>)"
        by (simp add: s Draining cpu6_step_def Let_def)
      with units flushControl_later [of m] show ?thesis
        by (simp add: modes_ok_def times_ok_def cpu6_flush_def later_def BufferedBus_Clean_def flip: length_greater_0_conv)
    next
      case idle
      with units show ?thesis by (simp add: modes_ok_def)
    next
      case wait
      from writeUnit6_cycle_frame [OF wait(1)] units show ?thesis
        by (simp add: wait(2) modes_ok_def flip: length_greater_0_conv)
    qed
  qed
qed

lemma return_ends:
  assumes "modes_ok (Returning, m)"
  shows "\<exists>r. run_loop (cpu6_step un pendings app) (Suc (drain_time m)) (Returning, m) = Some r"
  using return6.ends [of "(Returning, m)" un pendings app] assms by (simp add: in_return_def modes_ok_def)

end

text \<open>The decode unit of both versions.\<close>

lemma decode6_loop_later:
  assumes "\<And>pc m. later (clear pc m) m"
  shows "decode6_loop clear app pushed m = Inr (n, m') \<Longrightarrow> later m' m"
proof (induction "length (bb_queue (c_decodeBus m))" arbitrary: pushed m rule: less_induct)
  case less
  obtain got b where get: "BufferedBus_Get (c_decodeBus m) = (got, b)" by force
  have shorter: "length (bb_queue b) < length (bb_queue (c_decodeBus m))" if "got \<noteq> None"
    using get that by (auto simp: BufferedBus_Get_def split: list.splits)
  define loop where "loop = decode6_loop clear app"
  define after where "after = (\<lambda>i pc du. (clear pc (m\<lparr>c_decodeBus := b\<rparr>))
    \<lparr>c_controlBus := BufferedBus_Add (c_controlBus m) \<lparr>rp_Runner = i, rp_Pc = pc\<rparr> (c_cycle m),
     c_decodeBus := b, c_decodeUnit := du\<rparr>)"
  have after: "later (after i pc du) m" "c_decodeBus (after i pc du) = b" for i pc du
    using assms [of pc "m\<lparr>c_decodeBus := b\<rparr>"] by (simp_all add: after_def later_def)
  consider (stays) "later m' m" | (after) i pc du where "m' = after i pc du"
    | (loop) i pc du where "got \<noteq> None" "loop (pushed + 1) (after i pc du) = Inr (n, m')"
    using less.prems [unfolded decode6_loop.simps [of _ app pushed m]] get
    unfolding loop_def after_def
    by (fastforce simp: Let_def intro: later_frame split: option.splits if_splits)
  then show ?case
  proof cases
    case loop
    with less.hyps [of "after i pc du"] after shorter show ?thesis
      unfolding loop_def by (metis later_trans)
  qed (simp_all add: after)
qed

lemma decodeUnit6_later:
  assumes "\<And>pc m. later (clear pc m) m" and "decodeUnit6_cycle clear app m = Inr m'"
  shows "later m' m"
proof -
  from assms(2) obtain du stop n m2 where
    m2: "(if stop then Inr (0, m\<lparr>c_decodeUnit := du\<rparr>) else decode6_loop clear app 0 (m\<lparr>c_decodeUnit := du\<rparr>)) = Inr (n, m2)"
    and m': "later m' m2"
    unfolding decodeUnit6_cycle_def Let_def by (fastforce intro: later_frame)
  have "later m2 (m\<lparr>c_decodeUnit := du\<rparr>)"
    using m2 decode6_loop_later [OF assms(1)] by (auto split: if_splits)
  moreover have "later (m\<lparr>c_decodeUnit := du\<rparr>) m"
    by (rule later_frame) simp_all
  ultimately show ?thesis
    using m' later_trans by blast
qed

text \<open>The execute units of both versions.\<close>

interpretation later6: unit_steps later
  by unfold_locales (auto simp: BufferedBus_Add_def later_def)

lemmas later6_simps [simp] = later6.on_eu6_step later6.btb6_assert_step

end
