(* ===== verification/Waiting.thy ===== *)
theory Waiting
  imports Draining
begin

text \<open>
  The first cycles of a run of MVP-6.0 or MVP-6.1: the fetch unit waits 49 cycles for the memory while only
  counters change. The locale \<open>idle_units\<close> says what the units in which the versions differ do in
  such a cycle; it gives the state after the wait, from which concrete runs are evaluated.
\<close>

section \<open>Idle units\<close>

lemma connect_empty: "BufferedBus_IsEmpty b \<Longrightarrow> BufferedBus_Connect b c = b"
  by (simp add: BufferedBus_Connect_def BufferedBus_IsEmpty_def)

lemma Get_empty: "bb_queue b = [] \<Longrightarrow> BufferedBus_Get b = (None, b)"
  by (simp add: BufferedBus_Get_def)

lemma decode6_empty: "bb_queue (c_decodeBus m) = [] \<Longrightarrow> decode6_loop clear app n m = Inr (n, m)"
  by (subst decode6_loop.simps) (simp add: Get_empty)

lemma writeUnits_idle:
  assumes "\<forall>k \<in> set ks. wu6_coroutine (c_writeUnits m ! k) = None" and "bb_queue (c_writeBus m) = []"
  shows "writeUnits_cycle from ks m = Inr m"
  using assms by (induction ks) (simp_all add: writeUnit6_cycle_def Get_empty Let_def)

definition tick_du :: "int \<Rightarrow> decodeUnit6 \<Rightarrow> decodeUnit6" where
  "tick_du k du = (let push = (\<lambda>g. g\<lparr>gauge_count := gauge_count g + k\<rparr>) in
     du\<lparr>du6_pendingRead := push (du6_pendingRead du), du6_blocked := push (du6_blocked du),
        du6_pushed := push (du6_pushed du)\<rparr>)"

lemma push_nothing: "Gauge_Push 0 g = g\<lparr>gauge_count := gauge_count g + 1\<rparr>"
  by (simp add: Gauge_Push_def)

lemma decodeUnit6_idle:
  "bb_queue (c_decodeBus m) = [] \<Longrightarrow>
    decodeUnit6_cycle clear app m = Inr (m\<lparr>c_decodeUnit := tick_du 1 (c_decodeUnit m)\<rparr>)"
  by (simp add: decodeUnit6_cycle_def decode6_empty Let_def BufferedBus_PendingRead_def
      BufferedBus_CanGet_def push_nothing tick_du_def)

section \<open>Waiting\<close>

definition waits6 :: "('c \<Rightarrow> bool) \<Rightarrow> ('r, 'e, 'c, 'z) cpu6_scheme \<Rightarrow> bool" where
  "waits6 idle_cu m \<longleftrightarrow> fu6_coroutine (c_fetchUnit m) = Some FetchPending
     \<and> \<not> fu6_toCleanPending (c_fetchUnit m) \<and> \<not> fu6_complete (c_fetchUnit m)
     \<and> BufferedBus_IsEmpty (c_decodeBus m) \<and> BufferedBus_IsEmpty (c_controlBus m)
     \<and> BufferedBus_IsEmpty (c_executeBus m) \<and> BufferedBus_IsEmpty (c_writeBus m)
     \<and> BufferedBus_CanAdd (c_executeBus m) \<and> idle_cu (c_controlUnit m)
     \<and> list_all executeUnit6_isEmpty (c_executeUnits m) \<and> list_all writeUnit6_isEmpty (c_writeUnits m)"

text \<open>The state after \<open>k\<close> cycles of waiting.\<close>

definition ticks6 :: "(int \<Rightarrow> 'c \<Rightarrow> 'c) \<Rightarrow> int \<Rightarrow> ('r, 'e, 'c, 'z) cpu6_scheme \<Rightarrow> ('r, 'e, 'c, 'z) cpu6_scheme" where
  "ticks6 tick_cu k m = (let fu = c_fetchUnit m in
     m\<lparr>c_cycle := c_cycle m + k,
       c_fetchUnit := fu\<lparr>fu6_remainingCycles := fu6_remainingCycles fu - k\<rparr>,
       c_decodeUnit := tick_du k (c_decodeUnit m), c_controlUnit := tick_cu k (c_controlUnit m)\<rparr>)"

text \<open>The first 50 cycles of a run: one that starts the access to the memory and 49 that wait.\<close>

definition first_instruction :: "('r, 'e, 'c, 'z) cpu6_scheme units6 \<Rightarrow> ('c \<Rightarrow> 'q Queue) \<Rightarrow> ('c \<Rightarrow> bool) \<Rightarrow>
    (int \<Rightarrow> 'c \<Rightarrow> 'c) \<Rightarrow> ('r, 'e, 'c, 'z) cpu6_scheme \<Rightarrow> app \<Rightarrow> ('r, 'e, 'c, 'z) cpu6_scheme option" where
  "first_instruction un pendings idle_cu tick_cu m app =
     (case cpu6_step un pendings app (Cycling, m) of
        Inr (Continue (Cycling, w)) \<Rightarrow>
          if waits6 idle_cu w \<and> fu6_remainingCycles (c_fetchUnit w) = 49 then Some (ticks6 tick_cu 49 w) else None
      | _ \<Rightarrow> None)"

locale idle_units =
  fixes un :: "('r, 'e, 'c, 'z) cpu6_scheme units6"
    and pendings :: "'c \<Rightarrow> 'q Queue"
    and idle_cu :: "'c \<Rightarrow> bool"
    and tick_cu :: "int \<Rightarrow> 'c \<Rightarrow> 'c"
  assumes decode_idle: "bb_queue (c_decodeBus m) = [] \<Longrightarrow>
      un_decode un app m = Inr (m\<lparr>c_decodeUnit := tick_du 1 (c_decodeUnit m)\<rparr>)"
    and control_idle: "idle_cu (c_controlUnit m) \<Longrightarrow> bb_queue (c_controlBus m) = [] \<Longrightarrow>
      BufferedBus_CanAdd (c_executeBus m) \<Longrightarrow> un_control un m = m\<lparr>c_controlUnit := tick_cu 1 (c_controlUnit m)\<rparr>"
    and execute_idle: "eu6_coroutine (c_executeUnits m ! i) = None \<Longrightarrow> bb_queue (c_executeBus m) = [] \<Longrightarrow>
      un_execute un i app m = Inr (noResp, m)"
    and tick_0: "tick_cu 0 cu = cu"
    and tick_add: "tick_cu j (tick_cu k cu) = tick_cu (j + k) cu"
    and tick_idle: "idle_cu (tick_cu k cu) = idle_cu cu"
begin

lemma executeUnits_idle:
  assumes "\<forall>k \<in> set ks. eu6_coroutine (c_executeUnits m ! k) = None" and "bb_queue (c_executeBus m) = []"
  shows "executeUnits_cycle un app ks noResp m = Inr (noResp, m)"
  using assms by (induction ks) (simp_all add: execute_idle join_resp_def noResp_def)

lemma ticks_waits [simp]:
  "waits6 idle_cu (ticks6 tick_cu k m) = waits6 idle_cu m"
  "fu6_remainingCycles (c_fetchUnit (ticks6 tick_cu k m)) = fu6_remainingCycles (c_fetchUnit m) - k"
  "ticks6 tick_cu 0 m = m"
  "ticks6 tick_cu j (ticks6 tick_cu k m) = ticks6 tick_cu (j + k) m"
  by (simp_all add: waits6_def ticks6_def tick_du_def Let_def tick_0 tick_add tick_idle ac_simps)

lemma tick_step:
  assumes "waits6 idle_cu m" and "0 < fu6_remainingCycles (c_fetchUnit m)"
  shows "cpu6_step un pendings app (Cycling, m) = Inr (Continue (Cycling, ticks6 tick_cu 1 m))"
proof -
  let ?m1 = "m\<lparr>c_cycle := c_cycle m + 1\<rparr>"
  let ?fu = "c_fetchUnit m"
  let ?m2 = "?m1\<lparr>c_fetchUnit := ?fu\<lparr>fu6_remainingCycles := fu6_remainingCycles ?fu - 1\<rparr>\<rparr>"
  let ?m3 = "?m2\<lparr>c_decodeUnit := tick_du 1 (c_decodeUnit m)\<rparr>"
  let ?t = "ticks6 tick_cu 1 m"
  have queues: "bb_queue (c_decodeBus m) = []" "bb_queue (c_controlBus m) = []" "bb_queue (c_executeBus m) = []"
      "bb_queue (c_writeBus m) = []"
    using assms(1) by (simp_all add: waits6_def BufferedBus_IsEmpty_def)
  have connect: "cpu6_connect ?m1 = ?m1"
    using assms(1) by (simp add: cpu6_connect_def connect_empty waits6_def)
  have fetch: "fetchUnit6_cycle app ?m1 = Inr ?m2"
    using assms by (simp add: waits6_def fetchUnit6_cycle_def coFetchPending_def Let_def)
  have decode: "un_decode un app ?m2 = Inr ?m3"
    using queues(1) by (simp add: decode_idle)
  have control: "un_control un ?m3 = ?t"
    using assms(1) queues(2) by (simp add: control_idle waits6_def ticks6_def Let_def)
  have execute: "executeUnits_cycle un app [0..<length (c_executeUnits ?m3)] noResp ?t = Inr (noResp, ?t)"
    using assms(1) queues(3)
    by (intro executeUnits_idle) (simp_all add: waits6_def ticks6_def Let_def list_all_length executeUnit6_isEmpty_def)
  have writes: "writeUnits_cycle (-1) [0..<length (c_writeUnits ?t)] ?t = Inr ?t"
    using assms(1) queues(4)
    by (intro writeUnits_idle) (simp_all add: waits6_def ticks6_def Let_def list_all_length writeUnit6_isEmpty_def)
  have cycle: "cpu6_cycle un app m = Inr (noResp, ?t)"
    unfolding cpu6_cycle_def connect fetch using decode control execute writes by simp
  have "waits6 idle_cu ?t" using assms(1) by simp
  then have "\<not> cpu6_isEmpty pendings ?t"
    by (simp add: cpu6_isEmpty_def waits6_def)
  then show ?thesis
    by (simp add: cpu6_step_def cycle) (simp add: noResp_def)
qed

lemma continues_ticks:
  "waits6 idle_cu m \<Longrightarrow> int k \<le> fu6_remainingCycles (c_fetchUnit m) \<Longrightarrow>
    continues (cpu6_step un pendings app) k (Cycling, m) = Some (Cycling, ticks6 tick_cu (int k) m)"
proof (induction k arbitrary: m)
  case (Suc k)
  with Suc.IH [of "ticks6 tick_cu 1 m"] tick_step [of m app] show ?case by (simp add: add.commute)
qed simp

lemma first_instruction_continues:
  assumes "first_instruction un pendings idle_cu tick_cu m app = Some w"
  shows "continues (cpu6_step un pendings app) 50 (Cycling, m) = Some (Cycling, w)"
proof -
  from assms obtain v where v: "cpu6_step un pendings app (Cycling, m) = Inr (Continue (Cycling, v))"
    "waits6 idle_cu v" "fu6_remainingCycles (c_fetchUnit v) = 49" "w = ticks6 tick_cu 49 v"
    by (auto simp: first_instruction_def split: sum.splits outcome.splits prod.splits mode6.splits if_splits)
  have n: "50 = Suc 49" by simp
  show ?thesis
    using continues_ticks [OF v(2), of 49 app] v(3,4) by (simp only: n continues.simps v(1)) simp
qed

end

section \<open>States of a run\<close>

text \<open>The state \<open>k\<close> cycles after the first instruction has been fetched, in a processor with eight bytes of
  memory.\<close>

definition state_after :: "('r, 'e, 'c, 'z) cpu6_scheme result \<Rightarrow> ('r, 'e, 'c, 'z) cpu6_scheme units6 \<Rightarrow>
    ('c \<Rightarrow> 'q Queue) \<Rightarrow> ('c \<Rightarrow> bool) \<Rightarrow> (int \<Rightarrow> 'c \<Rightarrow> 'c) \<Rightarrow> nat \<Rightarrow> app \<Rightarrow>
    (mode6 \<times> ('r, 'e, 'c, 'z) cpu6_scheme) option" where
  "state_after new un pendings idle_cu tick_cu k app =
     (case new of Inl _ \<Rightarrow> None | Inr m \<Rightarrow>
       (case first_instruction un pendings idle_cu tick_cu m app of
          None \<Rightarrow> None
        | Some w \<Rightarrow> continues (cpu6_step un pendings app) k (Cycling, w)))"

context idle_units
begin

lemma state_after:
  assumes "state_after new un pendings idle_cu tick_cu k app = Some s"
  obtains m where "new = Inr m" and "continues (cpu6_step un pendings app) (50 + k) (Cycling, m) = Some s"
    and "\<And>n. run_loop (cpu6_step un pendings app) (50 + (k + n)) (Cycling, m) = run_loop (cpu6_step un pendings app) n s"
proof -
  from assms obtain m w where m: "new = Inr m" and w: "first_instruction un pendings idle_cu tick_cu m app = Some w"
    and s: "continues (cpu6_step un pendings app) k (Cycling, w) = Some s"
    by (auto simp: state_after_def split: sum.splits option.splits)
  note first = first_instruction_continues [OF w]
  have "continues (cpu6_step un pendings app) (50 + k) (Cycling, m) = Some s"
    using continues_add [OF first] s by simp
  moreover have "run_loop (cpu6_step un pendings app) (50 + (k + n)) (Cycling, m) = run_loop (cpu6_step un pendings app) n s" for n
    by (simp only: run_continues [OF first] run_continues [OF s])
  ultimately show thesis using m that by blast
qed

end

end
