(* ===== verification/PipelineSim.thy ===== *)
theory PipelineSim
  imports PipelineExec
begin

text \<open>
  The simulation of the architecture by a pipeline whose front obeys \<open>front_laws\<close>: every cycle either
  completes an instruction or decreases \<open>waiting\<close>, which is below 400. It makes \<open>front_laws\<close> an
  instance of \<open>stuttering\<close>.
\<close>

context front_laws
begin

text \<open>A cycle of the front that is fetching, and \<open>Get\<close>.\<close>

lemma fetching_get:
  assumes "fetching pc f" and "mmu_ok u mem"
  obtains f' u' r g where "fe_cycle fe app f u = Inr (f', u')" and "mmu_ok u' mem" and "l1d u' = l1d u"
    and "fe_get fe f' = (r, g)"
    and "r = None \<Longrightarrow> fetching pc g \<and> distance g \<le> distance f
      \<and> (if pc_in_app app pc then distance g < distance f else fe_isEmpty fe g)"
    and "\<And>rp. r = Some rp \<Longrightarrow> rp_Pc rp = pc \<and> pc_in_app app pc
      \<and> instruction_at app pc = Inr (rp_Runner rp) \<and> issued (rp_Runner rp) pc g"
proof -
  from fetching_law [OF assms] show thesis
  proof (elim exE conjE)
    fix f' u'
    assume *: "fe_cycle fe app f u = Inr (f', u')" "mmu_ok u' mem" "l1d u' = l1d u"
      and law: "case fe_get fe f' of
             (None, f'') \<Rightarrow> fetching pc f'' \<and> distance f'' \<le> distance f
               \<and> (if pc_in_app app pc then distance f'' < distance f else fe_isEmpty fe f'')
           | (Some r, f'') \<Rightarrow> rp_Pc r = pc \<and> pc_in_app app pc
               \<and> instruction_at app pc = Inr (rp_Runner r) \<and> issued (rp_Runner r) pc f''"
    obtain r g where get: "fe_get fe f' = (r, g)" by force
    show thesis
      by (rule that [OF * get]) (use law get in auto)
  qed
qed

lemma eu_sim_holds: "eu_sim pc C m \<Longrightarrow> \<not> eu_idle (pl_executeUnit m) \<Longrightarrow>
    \<exists>i. eu_holds app i pc m \<and> (eu_busy i pc m \<or> eu_loading i pc C m)"
  by (auto simp: eu_sim_def eu_busy_def eu_loading_def)

lemma prepare_result:
  assumes "drains_to m C" and "eu_sim pc C m" and "pc_in_app app pc"
    and "arch_execute app pc C = Inr (C1, exe)"
    and "\<And>m1. pipeline_front fe app m = Inr m1 \<Longrightarrow> read_disciplined m1"
  shows "\<exists>m1 go m2. pipeline_front fe app m = Inr m1 \<and> eu_prepare fe m1 = Inr (go, m2)
    \<and> drains_to m2 C \<and> same_writes m2 m \<and> prepared pc C (eu_left m) go m2"
proof -
  have ok: "mmu_ok (pl_mmu m) (Memory (pl_ctx m))" using assms(1) by (simp add: drains_to_def)
  from assms(4) obtain i vs where i: "instruction_at app pc = Inr i"
    and vs: "getFromMemory (Memory C) (MemoryRead (runner i noForward) C) = Inr vs"
    by (auto simp: arch_execute_def)
  let ?m1 = "\<lambda>f u. m\<lparr>pl_cycle := pl_cycle m + 1, pl_front := f, pl_mmu := u\<rparr>"
  have front: "pipeline_front fe app m = Inr (?m1 f u) \<and> drains_to (?m1 f u) C"
    if "fe_cycle fe app (pl_front m) (pl_mmu m) = Inr (f, u)" "mmu_ok u (Memory (pl_ctx m))"
      "l1d u = l1d (pl_mmu m)" for f u
    using that mmu_drains [OF assms(1), of u] same_l1d(1) [OF that(3)]
    by (simp add: pipeline_front_def drains_to_def in_writeBus_def)
  show ?thesis
  proof (cases "eu_idle (pl_executeUnit m)")
    case idle: True
    then have fetch: "fetching pc (pl_front m)" and eu: "\<not> eu_processing (pl_executeUnit m)"
        "\<not> eu_pendingMemoryRead (pl_executeUnit m)" "eu_memory (pl_executeUnit m) = None"
      using assms(2) by (auto simp: eu_sim_def eu_idle_def eu_busy_def eu_loading_def eu_holds_def)
    from fetching_get [OF fetch ok] obtain f u r g where
      f: "fe_cycle fe app (pl_front m) (pl_mmu m) = Inr (f, u)" "mmu_ok u (Memory (pl_ctx m))"
        "l1d u = l1d (pl_mmu m)" and get: "fe_get fe f = (r, g)"
      and none: "r = None \<Longrightarrow> fetching pc g \<and> distance g < distance (pl_front m)"
      and some: "\<And>rp. r = Some rp \<Longrightarrow> rp_Pc rp = pc \<and> instruction_at app pc = Inr (rp_Runner rp)
        \<and> issued (rp_Runner rp) pc g"
      using assms(3) by metis
    note m1 = front [OF f]
    have left: "eu_left m = 110 + distance (pl_front m)"
      using eu by (simp add: eu_left_def)
    show ?thesis
    proof (cases r)
      case None
      let ?m2 = "(?m1 f u)\<lparr>pl_front := g\<rparr>"
      have "eu_prepare fe (?m1 f u) = Inr (None, ?m2)"
        using eu get None by (simp add: eu_prepare_def eu_take_def)
      moreover have "prepared pc C (eu_left m) None ?m2"
        using none None eu idle by (simp add: prepared_def eu_sim_def left eu_left_def)
      moreover have "drains_to ?m2 C"
        using m1 by (simp add: drains_to_def in_writeBus_def)
      ultimately show ?thesis
        using m1 by (auto simp: same_writes_def)
    next
      case (Some rp)
      let ?m2 = "on_eu (\<lambda>eu. eu\<lparr>eu_runner := Some rp,
            eu_remainingCycles := Cycles (instructionType i), eu_processing := True\<rparr>)
          ((?m1 f u)\<lparr>pl_front := g\<rparr>)"
      have rp: "rp = \<lparr>rp_Runner = i, rp_Pc = pc\<rparr>" and "issued i pc g"
        using some [OF Some] i by auto
      then have "eu_busy i pc ?m2"
        using eu i assms(3) Cycles_positive [of "instructionType i"] Cycles_le [of "instructionType i"]
        by (simp add: eu_busy_def eu_holds_def)
      moreover have "drains_to ?m2 C"
        using m1 by (simp add: drains_to_def in_writeBus_def)
      moreover have "52 + nat (eu_remainingCycles (pl_executeUnit ?m2)) \<le> eu_left m"
        using Cycles_le [of "instructionType i"] left by simp
      ultimately obtain go m3 where "eu_issue fe ?m2 = Inr (go, m3)" "drains_to m3 C" "same_writes m3 ?m2"
        "prepared pc C (eu_left m) go m3"
        using eu_issue_result [OF _ _ vs] by blast
      with m1 eu get Some rp show ?thesis
        by (auto simp: eu_prepare_def eu_take_def same_writes_def)
    qed
  next
    case False
    from eu_sim_holds [OF assms(2) False] i obtain
      holds: "eu_holds app i pc m" "eu_busy i pc m \<or> eu_loading i pc C m"
      by (auto simp: eu_holds_def)
    show ?thesis
    proof (cases "eu_pendingMemoryRead (pl_executeUnit m)")
      case True
      with holds have load: "eu_loading i pc C m" by (auto simp: eu_busy_def)
      then have "asserted i pc (pl_front m)" by (simp add: eu_loading_def)
      from asserted_law [OF this ok] obtain f u where
        f: "fe_cycle fe app (pl_front m) (pl_mmu m) = Inr (f, u)" "mmu_ok u (Memory (pl_ctx m))"
          "l1d u = l1d (pl_mmu m)" and "asserted i pc f" by blast
      then have "eu_loading i pc C (?m1 f u)"
        using load
        by (simp add: eu_loading_def eu_holds_def operands_ready_def in_writeBus_def split: option.splits)
      from eu_read_result [OF _ this assms(5) vs] front [OF f] obtain go m2 where
        "eu_read (?m1 f u) = Inr (go, m2)" "drains_to m2 C" "same_writes m2 (?m1 f u)"
        "prepared pc C (eu_left (?m1 f u)) go m2"
        by blast
      with front [OF f] True show ?thesis
        by (auto simp: eu_prepare_def same_writes_def eu_left_def)
    next
      case not_loading: False
      with holds have busy: "eu_busy i pc m" by (auto simp: eu_loading_def)
      then have "issued i pc (pl_front m)" by (simp add: eu_busy_def)
      from issued_law [OF this ok] obtain f u where
        f: "fe_cycle fe app (pl_front m) (pl_mmu m) = Inr (f, u)" "mmu_ok u (Memory (pl_ctx m))"
          "l1d u = l1d (pl_mmu m)" and "issued i pc f" by blast
      then have "eu_busy i pc (?m1 f u)"
        using busy by (simp add: eu_busy_def eu_holds_def)
      from eu_issue_result [OF _ this vs, of "eu_left m"] front [OF f] busy not_loading
      obtain go m2 where "eu_issue fe (?m1 f u) = Inr (go, m2)" "drains_to m2 C"
        "same_writes m2 (?m1 f u)" "prepared pc C (eu_left m) go m2"
        by (auto simp: eu_left_def eu_busy_def eu_holds_def)
      with front [OF f] holds(1) not_loading show ?thesis
        by (auto simp: eu_prepare_def eu_take_def same_writes_def eu_holds_def)
    qed
  qed
qed

subsection \<open>The simulation\<close>

definition sim :: "cpu_mode \<times> 'f pipeline \<Rightarrow> arch \<Rightarrow> bool" where
  "sim s t \<longleftrightarrow> drains_to (snd s) (snd t) \<and>
     (case fst s of
        Running \<Rightarrow> eu_sim (fst t) (snd t) (snd s)
      | Flushing pc \<Rightarrow> pc = fst t \<and> code_address app pc \<and> eu_idle (pl_executeUnit (snd s))
          \<and> flushable (pl_front (snd s)))"

definition waiting :: "cpu_mode \<times> 'f pipeline \<Rightarrow> nat" where
  "waiting s = wu_work (snd s) + (case fst s of Running \<Rightarrow> eu_left (snd s) | Flushing pc \<Rightarrow> 180)"

definition result_ok :: "'f pipeline \<Rightarrow> Context \<Rightarrow> bool" where
  "result_ok m C \<longleftrightarrow> map_get (Registers (pl_ctx m)) = map_get (Registers C) \<and> Memory (pl_ctx m) = Memory C"

lemma eu_left_bound: "eu_sim pc C m \<Longrightarrow> eu_left m \<le> 170"
  using distance_bound [of pc "pl_front m"]
  by (auto simp: eu_sim_def eu_left_def eu_idle_def eu_busy_def eu_loading_def eu_holds_def)

lemma waiting_bound: "sim s t \<Longrightarrow> waiting s < 400"
  using wu_work_bound [of "snd s"] eu_left_bound [of "fst t" "snd t" "snd s"]
  by (auto simp: sim_def waiting_def drains_to_def split: cpu_mode.splits)

lemma eu_sim_wu:
  assumes "eu_sim pc C m" and "pl_front m' = pl_front m" and "pl_executeUnit m' = pl_executeUnit m"
    and "set (in_writeBus m') \<subseteq> set (in_writeBus m)"
    and "sb_pending (pl_writeBus m) = None \<longrightarrow> sb_pending (pl_writeBus m') = None"
  shows "eu_sim pc C m' \<and> eu_left m' = eu_left m"
proof -
  have "set (pending_writes (in_writeBus m')) \<subseteq> set (pending_writes (in_writeBus m))"
    using assms(4) by (auto simp: pending_writes_def)
  then have "operands_ready i m \<Longrightarrow> operands_ready i m'" for i
    using assms(5) by (auto simp: operands_ready_def)
  with assms(1) have "eu_sim pc C m'"
    unfolding eu_sim_def eu_busy_def eu_loading_def eu_holds_def assms(2,3) by blast
  then show ?thesis
    by (simp add: eu_left_def Let_def assms(2,3))
qed

lemma pipeline_end_result:
  assumes "drains_to m C" and "in_writeBus m = []"
  shows "\<exists>r. pipeline_end m = Inr r \<and> result_ok r C"
proof -
  have "mmu_ok (pl_mmu m) (Memory (pl_ctx m))" using assms(1) by (simp add: drains_to_def)
  from mmu_flush_result [OF this, of cyclesMemoryAccess] assms show ?thesis
    by (simp add: pipeline_end_def result_ok_def drains_to_def)
qed

lemma wu_cycle_returns:
  assumes "wu_cycle m = Inr m'" and "return_drains m"
  shows "in_writeBus m' = []"
  using assms
  by (auto simp: wu_cycle_def return_drains_def wu_write_def in_writeBus_def SimpleBus_contents_def
      SimpleBus_Get_def Let_def split: if_splits option.splits)

lemma complete_end:
  assumes "drains_to m C" and "fetching pc (pl_front m)" and "pipeline_isComplete fe m"
  shows "\<not> pc_in_app app pc" and "in_writeBus m = []"
  using assms not_empty [of pc "pl_front m"]
  by (auto simp: pipeline_isComplete_def in_writeBus_def SimpleBus_contents_def SimpleBus_IsEmpty_def)

text \<open>The mode \<open>Flushing\<close>.\<close>

lemma flushing_step:
  assumes "sim (Flushing p, m) t"
  shows "\<exists>s'. pipeline_step fe app (Flushing p, m) = Inr (Continue s') \<and> sim s' t
    \<and> waiting s' < waiting (Flushing p, m)"
proof -
  obtain pc C where t: "t = (pc, C)" by force
  have d: "drains_to m C" and p: "p = pc" "code_address app pc" "eu_idle (pl_executeUnit m)"
    "flushable (pl_front m)"
    using assms by (auto simp: sim_def t)
  have wu: "wu_ok (pl_writeUnit m)" using d by (simp add: drains_to_def)
  show ?thesis
  proof (cases "wu_work m = 0")
    case False
    from wu_cycle_drains [of "m\<lparr>pl_cycle := pl_cycle m + 1\<rparr>" C] d obtain m' where
      m': "wu_cycle (m\<lparr>pl_cycle := pl_cycle m + 1\<rparr>) = Inr m'" "drains_to m' C"
        "pl_front m' = pl_front m" "pl_executeUnit m' = pl_executeUnit m" "wu_work m' \<le> wu_work m - 1"
      by auto
    with False wu_work_0 [OF wu] p show ?thesis
      by (auto simp: pipeline_step_def sim_def t waiting_def)
  next
    case True
    let ?m = "pipeline_flush fe pc m"
    from wu_work_0 [OF wu] True have empty: "wu_isEmpty (pl_writeUnit m)" "SimpleBus_IsEmpty (pl_writeBus m)"
      by auto
    then have "in_writeBus m = []" and "in_writeBus ?m = []"
      by (simp_all add: in_writeBus_def SimpleBus_contents_def SimpleBus_IsEmpty_def
          pipeline_flush_def SimpleBus_Flush_def)
    then have "drains_to ?m C"
      using d by (simp add: drains_to_def pipeline_flush_def Context_Flush_def)
    moreover have idle: "eu_idle (pl_executeUnit ?m)" "fetching pc (pl_front ?m)"
      using flush_eu [OF p(3)] flush_law [OF p(4,2)] by (simp_all add: pipeline_flush_def)
    moreover have "wu_work ?m = 0"
      using empty by (simp add: wu_work_def wu_isEmpty_def SimpleBus_Flush_def pipeline_flush_def)
    moreover have "eu_left ?m \<le> 170"
      using idle by (intro eu_left_bound [of pc C]) (simp add: eu_sim_def)
    ultimately show ?thesis
      using True empty p(1) by (auto simp: pipeline_step_def sim_def t waiting_def eu_sim_def)
  qed
qed

text \<open>The mode \<open>Running\<close> after the last instruction: only the write unit works.\<close>

lemma running_end:
  assumes "sim (Running, m) (pc, C)" and "\<not> pc_in_app app pc"
  shows "(\<exists>s'. pipeline_step fe app (Running, m) = Inr (Continue s') \<and> sim s' (pc, C)
      \<and> waiting s' < waiting (Running, m))
    \<or> (\<exists>r. pipeline_step fe app (Running, m) = Inr (Done r) \<and> result_ok r C)"
proof -
  have d: "drains_to m C" and "eu_sim pc C m" using assms(1) by (simp_all add: sim_def)
  then have idle: "eu_idle (pl_executeUnit m)" and fetch: "fetching pc (pl_front m)"
    using assms(2) by (auto simp: eu_sim_def eu_busy_def eu_loading_def eu_holds_def)
  then have eu: "\<not> eu_processing (pl_executeUnit m)" "\<not> eu_pendingMemoryRead (pl_executeUnit m)"
    by (simp_all add: eu_idle_def)
  have ok: "mmu_ok (pl_mmu m) (Memory (pl_ctx m))" using d by (simp add: drains_to_def)
  from fetching_get [OF fetch ok] obtain f u r g where
    f: "fe_cycle fe app (pl_front m) (pl_mmu m) = Inr (f, u)" "mmu_ok u (Memory (pl_ctx m))"
      "l1d u = l1d (pl_mmu m)" "fe_get fe f = (r, g)" and "r = None"
    and g: "fetching pc g" "distance g \<le> distance (pl_front m)" "fe_isEmpty fe g"
    using assms(2) by (metis option.exhaust)
  let ?m1 = "m\<lparr>pl_cycle := pl_cycle m + 1, pl_front := f, pl_mmu := u\<rparr>" and ?m2 = "m\<lparr>pl_cycle := pl_cycle m + 1, pl_front := g, pl_mmu := u\<rparr>"
  have eu_cycle: "eu_cycle fe app ?m1 = Inr (Proceed, ?m2)"
    using eu f(4) \<open>r = None\<close> by (simp add: eu_cycle_def eu_prepare_def eu_take_def)
  have d2: "drains_to ?m2 C"
    using mmu_drains [OF d f(2) same_l1d(1) [OF f(3)]] by (simp add: drains_to_def in_writeBus_def)
  have "same_writes ?m2 m" by (simp add: same_writes_def)
  from wu_cycle_drains [OF d2, unfolded same_writesD(1) [OF this]] obtain m3 where
    m3: "wu_cycle ?m2 = Inr m3" "drains_to m3 C" "pl_front m3 = g"
      "pl_executeUnit m3 = pl_executeUnit m" "wu_work m3 \<le> wu_work m - 1"
    by auto
  have step: "pipeline_step fe app (Running, m) =
      (if pipeline_isComplete fe m3 then rbind (pipeline_end m3) (\<lambda>m. Inr (Done m))
       else Inr (Continue (Running, m3)))"
    using f(1) eu_cycle m3(1) by (simp add: pipeline_step_def pipeline_front_def)
  show ?thesis
  proof (cases "pipeline_isComplete fe m3")
    case True
    from pipeline_end_result [OF m3(2)] complete_end(2) [OF m3(2) _ True] g(1) m3(3) obtain r where
      "pipeline_end m3 = Inr r" "result_ok r C" by auto
    with step True show ?thesis by auto
  next
    case False
    have wu: "wu_ok (pl_writeUnit m3)" using m3(2) by (simp add: drains_to_def)
    have "wu_work m3 \<noteq> 0"
      using False eu g(3) m3(3,4) wu_work_0 [OF wu] by (auto simp: pipeline_isComplete_def)
    then have "waiting (Running, m3) < waiting (Running, m)"
      using m3(3-5) g(2) eu by (simp add: waiting_def eu_left_def)
    moreover have "sim (Running, m3) (pc, C)"
      using m3(2-4) g(1) idle by (simp add: sim_def eu_sim_def)
    ultimately show ?thesis
      using step False by auto
  qed
qed

text \<open>The mode \<open>Running\<close> while the program counter is in the program: the write unit after the
  execute unit.\<close>

lemma running_cycle:
  assumes "pipeline_front fe app m = Inr m1" and "eu_prepare fe m1 = Inr (go, m2)"
    and "wu_cycle m3 = Inr m4"
    and "case go of None \<Rightarrow> signal = Proceed \<and> m3 = m2
      | Some memory \<Rightarrow> eu_run fe app memory m2 = Inr (signal, m3)"
  shows "pipeline_step fe app (Running, m) =
    (case signal of
        Returned \<Rightarrow> rbind (pipeline_end m4) (\<lambda>m. Inr (Done m))
      | FlushTo pc \<Rightarrow> Inr (Continue (Flushing pc, m4))
      | Proceed \<Rightarrow>
          if pipeline_isComplete fe m4 then rbind (pipeline_end m4) (\<lambda>m. Inr (Done m))
          else Inr (Continue (Running, m4)))"
  using assms by (cases go) (simp_all add: pipeline_step_def eu_cycle_def)

lemma running_wait:
  assumes "pipeline_front fe app m = Inr m1" and "eu_prepare fe m1 = Inr (None, m2)"
    and "drains_to m2 C" and "same_writes m2 m" and "prepared pc C (eu_left m) None m2"
    and "pc_in_app app pc"
  shows "\<exists>s'. pipeline_step fe app (Running, m) = Inr (Continue s') \<and> sim s' (pc, C)
    \<and> waiting s' < waiting (Running, m)"
proof -
  note work = same_writesD(1) [OF assms(4)]
  from wu_cycle_drains [OF assms(3), unfolded work] obtain m3 where
    m3: "wu_cycle m2 = Inr m3" "drains_to m3 C" "pl_front m3 = pl_front m2"
      "pl_executeUnit m3 = pl_executeUnit m2" "wu_work m3 \<le> wu_work m - 1"
      "set (in_writeBus m3) \<subseteq> set (in_writeBus m2)"
      "sb_pending (pl_writeBus m2) = None \<longrightarrow> sb_pending (pl_writeBus m3) = None"
    by (elim exE conjE)
  have "eu_sim pc C m2" using assms(5) by (simp add: prepared_def)
  from eu_sim_wu [OF this m3(3,4,6,7)] have eu: "eu_sim pc C m3" "eu_left m3 = eu_left m2" by auto
  have "\<not> pipeline_isComplete fe m3"
    using eu(1) complete_end(1) [OF m3(2)] assms(6)
    by (auto simp: eu_sim_def eu_busy_def eu_loading_def eu_holds_def pipeline_isComplete_def)
  with running_cycle [OF assms(1,2) m3(1)] have
    "pipeline_step fe app (Running, m) = Inr (Continue (Running, m3))" by simp
  moreover have "waiting (Running, m3) < waiting (Running, m)"
    using assms(5) m3(5) eu(2) work by (auto simp: waiting_def prepared_def)
  ultimately show ?thesis
    using m3(2) eu(1) by (auto simp: sim_def)
qed

lemma running_run:
  assumes "pipeline_front fe app m = Inr m1" and "eu_prepare fe m1 = Inr (Some memory, m2)"
    and "drains_to m2 C" and "prepared pc C k (Some memory) m2" and "run_disciplined app memory m2"
    and "arch_step Done app (pc, C) = Inr out" and "pc_in_app app pc"
  shows "(\<exists>out'. pipeline_step fe app (Running, m) = Inr out' \<and> rel_outcome sim result_ok out' out)
    \<or> (\<exists>r t'. pipeline_step fe app (Running, m) = Inr (Done r) \<and> out = Continue t'
        \<and> (\<forall>out'. arch_step Done app t' = Inr out' \<longrightarrow> (\<exists>q. out' = Done q \<and> result_ok r q)))"
proof -
  from assms(4) obtain i where ready: "eu_ready i pc C memory m2" by (auto simp: prepared_def)
  from assms(6,7) obtain C1 exe where arch: "arch_execute app pc C = Inr (C1, exe)"
    and out: "if Return exe then out = Done C1
      else \<exists>C2. write_back C1 exe = Inr C2 \<and> out = Continue (next_pc exe pc, C2)"
    by (auto simp: arch_step_def split: if_splits)
  then obtain C2 where wb: "\<not> Return exe \<longrightarrow> write_back C1 exe = Inr C2 \<and> out = Continue (next_pc exe pc, C2)"
    by (metis (full_types))
  from eu_run_result [OF assms(3) _ _ _ _ _ arch _ assms(5), of i C2] ready wb obtain signal m3 where
    run: "eu_run fe app memory m2 = Inr (signal, m3)"
    and after: "if Return exe then signal = Returned \<and> drains_to m3 C1 \<and> return_drains m3
      else drains_to m3 C2 \<and> after_run (next_pc exe pc) signal m3"
    by (auto simp: eu_ready_def)
  have "drains_to m3 (if Return exe then C1 else C2)"
    using after by (simp split: if_splits)
  from wu_cycle_drains [OF this] obtain m4 where
    m4: "wu_cycle m3 = Inr m4" "drains_to m4 (if Return exe then C1 else C2)"
      "pl_front m4 = pl_front m3" "pl_executeUnit m4 = pl_executeUnit m3"
    by blast
  from running_cycle [OF assms(1,2) m4(1)] run have step: "pipeline_step fe app (Running, m) =
    (case signal of
        Returned \<Rightarrow> rbind (pipeline_end m4) (\<lambda>m. Inr (Done m))
      | FlushTo pc \<Rightarrow> Inr (Continue (Flushing pc, m4))
      | Proceed \<Rightarrow>
          if pipeline_isComplete fe m4 then rbind (pipeline_end m4) (\<lambda>m. Inr (Done m))
          else Inr (Continue (Running, m4)))"
    by simp
  show ?thesis
  proof (cases "Return exe")
    case True
    with pipeline_end_result [OF _ wu_cycle_returns [OF m4(1)], of C1] after m4(2) out step
    show ?thesis by auto
  next
    case no_ret: False
    then have d: "drains_to m4 C2" and run: "after_run (next_pc exe pc) signal m4"
      and out: "out = Continue (next_pc exe pc, C2)"
      using m4 after wb by (simp_all add: after_run_def split: eu_signal.splits)
    show ?thesis
    proof (cases signal)
      case (FlushTo p)
      then show ?thesis
        using step d run out by (simp add: sim_def after_run_def)
    next
      case Returned
      then show ?thesis using run by (simp add: after_run_def)
    next
      case Proceed
      then have fetch: "eu_idle (pl_executeUnit m4)" "fetching (next_pc exe pc) (pl_front m4)"
        using run by (simp_all add: after_run_def)
      show ?thesis
      proof (cases "pipeline_isComplete fe m4")
        case False
        then show ?thesis
          using Proceed step d fetch out by (simp add: sim_def eu_sim_def)
      next
        case True
        from complete_end [OF d fetch(2) True] pipeline_end_result [OF d] obtain r where
          "pipeline_end m4 = Inr r" "result_ok r C2" "\<not> pc_in_app app (next_pc exe pc)"
          by auto
        then show ?thesis
          using Proceed True step out by (simp add: arch_step_def)
      qed
    qed
  qed
qed

lemma pipeline_follows:
  assumes "sim s t" and "pipeline_disciplined fe app s" and "arch_step Done app t = Inr out"
  shows "(\<exists>s'. pipeline_step fe app s = Inr (Continue s') \<and> sim s' t \<and> waiting s' < waiting s)
    \<or> (\<exists>out'. pipeline_step fe app s = Inr out' \<and> rel_outcome sim result_ok out' out)
    \<or> (\<exists>r t'. pipeline_step fe app s = Inr (Done r) \<and> out = Continue t'
        \<and> (\<forall>out'. arch_step Done app t' = Inr out' \<longrightarrow> (\<exists>q. out' = Done q \<and> result_ok r q)))"
proof -
  obtain mode m pc C where s: "s = (mode, m)" and t: "t = (pc, C)" by (cases s; cases t) auto
  show ?thesis
  proof (cases mode)
    case (Flushing p)
    with flushing_step assms(1) show ?thesis by (simp add: s)
  next
    case Running
    show ?thesis
    proof (cases "pc_in_app app pc")
      case False
      then have "out = Done C" using assms(3) by (simp add: t arch_step_def)
      with running_end [of m pc C] False assms(1) show ?thesis
        by (auto simp: s t Running)
    next
      case True
      then obtain C1 exe where arch: "arch_execute app pc C = Inr (C1, exe)"
        using assms(3) by (auto simp: t arch_step_def)
      have d: "drains_to m C" "eu_sim pc C m" using assms(1) by (simp_all add: s t Running sim_def)
      have "read_disciplined m1" if "pipeline_front fe app m = Inr m1" for m1
        using assms(2) that by (simp add: s Running pipeline_disciplined_def)
      from prepare_result [OF d True arch this] obtain m1 go m2 where
        m2: "pipeline_front fe app m = Inr m1" "eu_prepare fe m1 = Inr (go, m2)" "drains_to m2 C"
          "same_writes m2 m" "prepared pc C (eu_left m) go m2" by blast
      show ?thesis
      proof (cases go)
        case None
        with running_wait [OF m2(1) _ m2(3,4) _ True] m2(2,5) show ?thesis
          by (auto simp: s t Running)
      next
        case (Some memory)
        have "run_disciplined app memory m2"
          using assms(2) m2(1,2) Some by (simp add: s Running pipeline_disciplined_def)
        with running_run [OF m2(1) _ m2(3) _ _ assms(3) [unfolded t] True] m2(2,5) Some show ?thesis
          by (auto simp: s t Running)
      qed
    qed
  qed
qed

lemma sim_start:
  assumes "mmu_ok u (Memory ctx)" and "seen u (Memory ctx) = Memory ctx"
    and "PendingWriteRegisters ctx = Map.empty" and "fetching 0 f"
  shows "sim (Running, \<lparr>pl_ctx = ctx, pl_front = f, pl_executeUnit = newExecuteUnit,
    pl_writeBus = newSimpleBus, pl_writeUnit = newWriteUnit, pl_mmu = u, pl_cycle = k\<rparr>) (0, ctx)"
  using assms
  by (simp add: sim_def drains_to_def eu_sim_def eu_idle_def newExecuteUnit_def newWriteUnit_def wu_ok_def
      in_writeBus_def SimpleBus_contents_def newSimpleBus_def)

end

sublocale front_laws \<subseteq> runs: stuttering "pipeline_step fe app" "arch_step Done app"
    "pipeline_disciplined fe app" sim result_ok waiting 400
  by unfold_locales (rule waiting_bound pipeline_follows; assumption)+

end
