(* ===== verification/Mvp4.thy ===== *)
theory Mvp4
  imports PipelineSim Front
begin

text \<open>
  MVP-4 (\<open>src/proc/mvp4\<close>): a four-stage pipeline with a branch unit that expects conditional branches
  not to be taken and knows no target of a jump. Its front obeys \<open>front_laws\<close>, so that the processor
  follows the architecture.
\<close>

section \<open>The branch unit\<close>

record simpleBranchUnit =
  bu_toCheck :: bool
  bu_expectation :: int32

definition simple_assert :: "InstructionRunnerPc \<Rightarrow> simpleBranchUnit \<Rightarrow> simpleBranchUnit" where
  "simple_assert r bu =
     (let t = instructionType (rp_Runner r) in
      if IsUnconditionalBranch t then bu\<lparr>bu_toCheck := True, bu_expectation := -1\<rparr>
      else if IsConditionalBranch t then bu\<lparr>bu_toCheck := True, bu_expectation := rp_Pc r + 4\<rparr>
      else bu)"

definition simple_shouldFlushPipeline :: "int32 \<Rightarrow> simpleBranchUnit \<Rightarrow> bool \<times> simpleBranchUnit" where
  "simple_shouldFlushPipeline pc bu =
     (if \<not> bu_toCheck bu then (False, bu)
      else (bu_expectation bu \<noteq> pc, bu\<lparr>bu_toCheck := False\<rparr>))"

section \<open>The decode unit\<close>

definition mvp4_decodeUnit_cycle :: "app \<Rightarrow> int32 SimpleBus \<Rightarrow> InstructionRunnerPc SimpleBus \<Rightarrow>
    (int32 SimpleBus \<times> InstructionRunnerPc SimpleBus) result" where
  "mvp4_decodeUnit_cycle app inBus outBus =
     (if \<not> SimpleBus_CanAdd outBus then Inr (inBus, outBus)
      else case SimpleBus_Get inBus of (pc, inBus) \<Rightarrow> (case pc of
        None \<Rightarrow> Inr (inBus, outBus)
      | Some pc \<Rightarrow> rbind (instruction_at app pc) (\<lambda>i.
          Inr (inBus, SimpleBus_Add outBus \<lparr>rp_Runner = i, rp_Pc = pc\<rparr>))))"

section \<open>The processor\<close>

record mvp4_front =
  f4_fetchUnit :: fetchUnit
  f4_decodeBus :: "int32 SimpleBus"
  f4_executeBus :: "InstructionRunnerPc SimpleBus"
  f4_branchUnit :: simpleBranchUnit

definition mvp4_newFetchUnit :: fetchUnit where
  "mvp4_newFetchUnit = \<lparr>fu_pc = 0, fu_remainingCycles = 0, fu_complete = False, fu_processing = False,
     fu_cyclesMemoryAccess = cyclesMemoryAccess\<rparr>"

definition mvp4_front_cycle :: "app \<Rightarrow> mvp4_front \<Rightarrow> memoryManagementUnit \<Rightarrow>
    (mvp4_front \<times> memoryManagementUnit) result" where
  "mvp4_front_cycle app f u =
     rbind (fetchUnit_cycle app (f4_fetchUnit f) u (f4_decodeBus f)) (\<lambda>(fu, u, decodeBus).
     rbind (mvp4_decodeUnit_cycle app decodeBus (f4_executeBus f)) (\<lambda>(decodeBus, executeBus).
     Inr (f\<lparr>f4_fetchUnit := fu, f4_decodeBus := decodeBus, f4_executeBus := executeBus\<rparr>, u)))"

definition mvp4_front_get :: "mvp4_front \<Rightarrow> InstructionRunnerPc option \<times> mvp4_front" where
  "mvp4_front_get f =
     (case SimpleBus_Get (f4_executeBus f) of (r, b) \<Rightarrow> (r, f\<lparr>f4_executeBus := b\<rparr>))"

definition mvp4_front_flush :: "int32 \<Rightarrow> mvp4_front \<Rightarrow> mvp4_front" where
  "mvp4_front_flush pc f =
     f\<lparr>f4_fetchUnit := fetchUnit_flush pc (f4_fetchUnit f),
       f4_decodeBus := SimpleBus_Flush (f4_decodeBus f),
       f4_executeBus := SimpleBus_Flush (f4_executeBus f)\<rparr>"

definition mvp4_front_isEmpty :: "mvp4_front \<Rightarrow> bool" where
  "mvp4_front_isEmpty f \<longleftrightarrow>
     fu_complete (f4_fetchUnit f) \<and> SimpleBus_IsEmpty (f4_decodeBus f) \<and> SimpleBus_IsEmpty (f4_executeBus f)"

definition mvp4_fe :: "mvp4_front front_end" where
  "mvp4_fe =
     \<lparr>fe_cycle = mvp4_front_cycle,
      fe_get = mvp4_front_get,
      fe_assert = (\<lambda>r f. f\<lparr>f4_branchUnit := simple_assert r (f4_branchUnit f)\<rparr>),
      fe_resolved = (\<lambda>r exe f. Inr f),
      fe_shouldFlush = (\<lambda>pc f. case simple_shouldFlushPipeline pc (f4_branchUnit f) of
        (flush, bu) \<Rightarrow> (flush, f\<lparr>f4_branchUnit := bu\<rparr>)),
      fe_flush = mvp4_front_flush,
      fe_isEmpty = mvp4_front_isEmpty,
      fe_flushExecuteUnit = (\<lambda>eu. eu)\<rparr>"

type_synonym mvp4 = "mvp4_front pipeline"

definition mvp4_NewCPU :: "bool \<Rightarrow> nat \<Rightarrow> mvp4 result" where
  "mvp4_NewCPU debug memoryBytes =
     rbind newMemoryManagementUnit (\<lambda>u.
     Inr \<lparr>pl_ctx = NewContext debug memoryBytes,
          pl_front = \<lparr>f4_fetchUnit = mvp4_newFetchUnit, f4_decodeBus = newSimpleBus,
            f4_executeBus = newSimpleBus,
            f4_branchUnit = \<lparr>bu_toCheck = False, bu_expectation = 0\<rparr>\<rparr>,
          pl_executeUnit = newExecuteUnit, pl_writeBus = newSimpleBus,
          pl_writeUnit = newWriteUnit, pl_mmu = u, pl_cycle = 0\<rparr>)"

definition mvp4_executeUnit_cycle :: "app \<Rightarrow> mvp4 \<Rightarrow> (eu_signal \<times> mvp4) result" where
  "mvp4_executeUnit_cycle = eu_cycle mvp4_fe"

definition mvp4_flush :: "int32 \<Rightarrow> mvp4 \<Rightarrow> mvp4" where
  "mvp4_flush = pipeline_flush mvp4_fe"

definition mvp4_isComplete :: "mvp4 \<Rightarrow> bool" where
  "mvp4_isComplete = pipeline_isComplete mvp4_fe"

definition mvp4_step :: "app \<Rightarrow> cpu_mode \<times> mvp4 \<Rightarrow> (cpu_mode \<times> mvp4, mvp4) outcome result" where
  "mvp4_step = pipeline_step mvp4_fe"

definition mvp4_Run :: "nat \<Rightarrow> mvp4 \<Rightarrow> app \<Rightarrow> mvp4 result option" where
  "mvp4_Run fuel m app = run_loop (mvp4_step app) fuel (Running, m)"

section \<open>The front keeps its contract\<close>

text \<open>The addresses in front of the execute unit, in order.\<close>

definition f4_queue :: "mvp4_front \<Rightarrow> int32 list" where
  "f4_queue f = map rp_Pc (SimpleBus_contents (f4_executeBus f)) @ SimpleBus_contents (f4_decodeBus f)"

definition f4_fetching :: "app \<Rightarrow> int32 \<Rightarrow> mvp4_front \<Rightarrow> bool" where
  "f4_fetching app pc f \<longleftrightarrow> supported app \<and> chain pc (f4_queue f) (fu_pc (f4_fetchUnit f))
     \<and> fetch_ok app (f4_fetchUnit f)
     \<and> (\<forall>p \<in> set (SimpleBus_contents (f4_decodeBus f)). code_address app p)
     \<and> (\<forall>r \<in> set (SimpleBus_contents (f4_executeBus f)). decoded_ok app r)"

definition f4_asserted :: "app \<Rightarrow> instr \<Rightarrow> int32 \<Rightarrow> mvp4_front \<Rightarrow> bool" where
  "f4_asserted app i pc f \<longleftrightarrow> f4_fetching app (pc + 4) f
     \<and> (IsUnconditionalBranch (instructionType i) \<longrightarrow>
          bu_toCheck (f4_branchUnit f) \<and> bu_expectation (f4_branchUnit f) = -1)
     \<and> (IsConditionalBranch (instructionType i) \<longrightarrow>
          bu_toCheck (f4_branchUnit f) \<and> bu_expectation (f4_branchUnit f) = pc + 4)"

definition f4_distance :: "mvp4_front \<Rightarrow> nat" where
  "f4_distance f =
     (case bus_distance (f4_executeBus f) of Some d \<Rightarrow> d
      | None \<Rightarrow> (case bus_distance (f4_decodeBus f) of Some d \<Rightarrow> 2 + d
        | None \<Rightarrow> 4 + fetch_left (f4_fetchUnit f)))"

lemma mvp4_decode_result:
  assumes "\<forall>p \<in> set (SimpleBus_contents b). code_address app p"
    and "\<forall>r \<in> set (SimpleBus_contents e). decoded_ok app r"
    and "length (Instructions app) < 2 ^ 29"
  shows "\<exists>b' e'. mvp4_decodeUnit_cycle app b e = Inr (b', e')
    \<and> map rp_Pc (SimpleBus_contents e') @ SimpleBus_contents b' =
      map rp_Pc (SimpleBus_contents e) @ SimpleBus_contents b
    \<and> (\<forall>p \<in> set (SimpleBus_contents b'). code_address app p)
    \<and> (\<forall>r \<in> set (SimpleBus_contents e'). decoded_ok app r)"
proof (cases "SimpleBus_CanAdd e")
  case False
  with assms show ?thesis by (simp add: mvp4_decodeUnit_cycle_def)
next
  case True
  obtain r b' where get: "SimpleBus_Get b = (r, b')" by force
  note contents = contents_Get [OF get]
  show ?thesis
  proof (cases r)
    case None
    with assms True get contents show ?thesis by (simp add: mvp4_decodeUnit_cycle_def)
  next
    case (Some p)
    then have "code_address app p" using assms(1) contents by simp
    from code_address_index(2) [OF this assms(3)] this obtain i where
      "instruction_at app p = Inr i" "decoded_ok app \<lparr>rp_Runner = i, rp_Pc = p\<rparr>"
      by (auto simp: decoded_ok_def)
    with assms True get contents Some show ?thesis
      by (simp add: mvp4_decodeUnit_cycle_def contents_Add)
  qed
qed

lemma mvp4_front_cycle_result:
  assumes "f4_fetching app pc f" and "mmu_ok u mem"
  shows "\<exists>f' u'. mvp4_front_cycle app f u = Inr (f', u') \<and> mmu_ok u' mem \<and> l1d u' = l1d u
    \<and> f4_fetching app pc f' \<and> f4_branchUnit f' = f4_branchUnit f"
proof -
  note f = assms(1) [unfolded f4_fetching_def]
  have small: "length (Instructions app) < 2 ^ 29" using f by (simp add: supported_def)
  from fetch_result [OF _ assms(2) small, of "f4_fetchUnit f" "f4_decodeBus f"] f obtain fu u' b where
    fu: "fetchUnit_cycle app (f4_fetchUnit f) u (f4_decodeBus f) = Inr (fu, u', b)" "mmu_ok u' mem"
      "l1d u' = l1d u" "fetch_ok app fu"
    and b: "b = f4_decodeBus f \<and> fu_pc fu = fu_pc (f4_fetchUnit f)
      \<or> SimpleBus_CanAdd (f4_decodeBus f) \<and> b = SimpleBus_Add (f4_decodeBus f) (fu_pc (f4_fetchUnit f))
        \<and> code_address app (fu_pc (f4_fetchUnit f)) \<and> fu_pc fu = fu_pc (f4_fetchUnit f) + 4"
    by auto
  have chain: "chain pc (map rp_Pc (SimpleBus_contents (f4_executeBus f)) @ SimpleBus_contents b) (fu_pc fu)"
    using b f chain_snoc [of pc "f4_queue f" "fu_pc (f4_fetchUnit f)"]
    by (auto simp: f4_queue_def contents_Add)
  have "\<forall>p \<in> set (SimpleBus_contents b). code_address app p"
    using b f by (auto simp: contents_Add)
  from mvp4_decode_result [OF this _ small, of "f4_executeBus f"] f obtain b' e' where
    "mvp4_decodeUnit_cycle app b (f4_executeBus f) = Inr (b', e')"
    "map rp_Pc (SimpleBus_contents e') @ SimpleBus_contents b' =
      map rp_Pc (SimpleBus_contents (f4_executeBus f)) @ SimpleBus_contents b"
    "\<forall>p \<in> set (SimpleBus_contents b'). code_address app p"
    "\<forall>r \<in> set (SimpleBus_contents e'). decoded_ok app r"
    by auto
  with fu chain f show ?thesis
    by (simp add: mvp4_front_cycle_def f4_fetching_def f4_queue_def)
qed

lemma mvp4_front_get_None:
  assumes "mvp4_front_cycle app f u = Inr (f', u')" and "mvp4_front_get f' = (None, g)"
    and "fetch_ok app (f4_fetchUnit f)" and "mmu_ok u mem" and "length (Instructions app) < 2 ^ 29"
  shows "f4_distance g \<le> f4_distance f"
    and "f4_queue f \<noteq> [] \<or> \<not> fu_complete (f4_fetchUnit f) \<Longrightarrow> f4_distance g < f4_distance f"
proof -
  let ?e = "f4_executeBus f" and ?d = "f4_decodeBus f" and ?fu = "f4_fetchUnit f"
  from fetch_result [OF assms(3-5), of ?d] obtain fu v b where
    fu: "fetchUnit_cycle app ?fu u ?d = Inr (fu, v, b)"
    and b: "b = ?d \<and> (SimpleBus_CanAdd ?d \<and> \<not> fu_complete ?fu \<longrightarrow> fetch_left fu < fetch_left ?fu)
      \<or> SimpleBus_CanAdd ?d \<and> b = SimpleBus_Add ?d (fu_pc ?fu)"
    and stop: "fu_complete ?fu \<longrightarrow> fu = ?fu \<and> b = ?d"
    by metis
  from assms(1) fu obtain b' e' where
    dec: "mvp4_decodeUnit_cycle app b ?e = Inr (b', e')"
    and f': "f' = f\<lparr>f4_fetchUnit := fu, f4_decodeBus := b', f4_executeBus := e'\<rparr>"
    by (auto simp: mvp4_front_cycle_def)
  from assms(2) f' have got: "sb_current e' = None" and g: "g = f\<lparr>f4_fetchUnit := fu, f4_decodeBus := b',
      f4_executeBus := e'\<lparr>sb_current := sb_pending e', sb_pending := None\<rparr>\<rparr>"
    by (auto simp: mvp4_front_get_def SimpleBus_Get_def)
  note defs = f4_distance_def bus_distance_def f4_queue_def SimpleBus_contents_def
    mvp4_decodeUnit_cycle_def SimpleBus_CanAdd_def SimpleBus_Get_def SimpleBus_Add_def
  have "f4_distance g \<le> f4_distance f \<and>
    (f4_queue f \<noteq> [] \<or> \<not> fu_complete ?fu \<longrightarrow> f4_distance g < f4_distance f)"
  proof (cases "sb_pending ?e")
    case (Some r)
    then show ?thesis
      using dec got by (auto simp: g defs)
  next
    case pending: None
    show ?thesis
    proof (cases "sb_current b")
      case (Some p)
      then have "sb_current ?d = Some p" using b by (auto simp: SimpleBus_Add_def)
      then show ?thesis
        using dec got pending Some by (auto simp: g defs)
    next
      case None
      then have cur: "sb_current ?d = None" using b by (auto simp: SimpleBus_Add_def)
      have e: "sb_current ?e = None" "e' = ?e" "b' = b\<lparr>sb_current := sb_pending b, sb_pending := None\<rparr>"
        using dec got pending None by (auto simp: defs)
      show ?thesis
      proof (cases "fu_complete ?fu")
        case True
        with stop e cur None pending show ?thesis
          by (cases "sb_pending ?d") (auto simp: g defs fetch_left_def)
      next
        case False
        with b e cur None pending show ?thesis
          by (cases "sb_pending ?d") (auto simp: g defs)
      qed
    qed
  qed
  then show "f4_distance g \<le> f4_distance f"
    and "f4_queue f \<noteq> [] \<or> \<not> fu_complete ?fu \<Longrightarrow> f4_distance g < f4_distance f"
    by auto
qed

text \<open>Outside the program, nothing is in front of the execute unit.\<close>

lemma f4_fetching_end:
  assumes "f4_fetching app pc f"
  shows "mvp4_front_isEmpty f \<longleftrightarrow> \<not> pc_in_app app pc"
    and "pc_in_app app pc \<Longrightarrow> f4_queue f \<noteq> [] \<or> \<not> fu_complete (f4_fetchUnit f)"
proof -
  note f = assms [unfolded f4_fetching_def]
  have in_app: "pc_in_app app p" if "p \<in> set (f4_queue f)" for p
    using f that by (auto simp: f4_queue_def decoded_ok_def code_address_def)
  have empty: "mvp4_front_isEmpty f \<longleftrightarrow> f4_queue f = [] \<and> fu_complete (f4_fetchUnit f)"
    by (auto simp: mvp4_front_isEmpty_def f4_queue_def SimpleBus_IsEmpty_def SimpleBus_contents_def
        split: option.splits)
  have "f4_queue f = [] \<and> fu_complete (f4_fetchUnit f) \<longleftrightarrow> \<not> pc_in_app app pc"
  proof (cases "f4_queue f")
    case Nil
    with f show ?thesis by (auto simp: fetch_ok_def)
  next
    case (Cons p ps)
    with f in_app show ?thesis by auto
  qed
  with empty show "mvp4_front_isEmpty f \<longleftrightarrow> \<not> pc_in_app app pc"
    and "pc_in_app app pc \<Longrightarrow> f4_queue f \<noteq> [] \<or> \<not> fu_complete (f4_fetchUnit f)"
    by auto
qed

lemma mvp4_get_result:
  assumes "f4_fetching app pc f" and "mvp4_front_get f = (r, g)"
  shows "case r of None \<Rightarrow> f4_fetching app pc g
    | Some rp \<Rightarrow> rp_Pc rp = pc \<and> decoded_ok app rp \<and> f4_fetching app (pc + 4) g"
proof -
  have bus: "SimpleBus_Get (f4_executeBus f) = (r, f4_executeBus g)"
    and g: "f4_fetchUnit g = f4_fetchUnit f" "f4_decodeBus g = f4_decodeBus f"
    using assms(2) by (auto simp: mvp4_front_get_def split: prod.splits)
  from contents_Get [OF bus] assms(1) g show ?thesis
    by (auto simp: f4_fetching_def f4_queue_def split: option.splits)
qed

lemma mvp4_fetching_law:
  assumes "f4_fetching app pc f" and "mmu_ok u mem"
  shows "\<exists>f' u'. mvp4_front_cycle app f u = Inr (f', u') \<and> mmu_ok u' mem \<and> l1d u' = l1d u
    \<and> (case mvp4_front_get f' of
         (None, f'') \<Rightarrow> f4_fetching app pc f'' \<and> f4_distance f'' \<le> f4_distance f
           \<and> (if pc_in_app app pc then f4_distance f'' < f4_distance f else mvp4_front_isEmpty f'')
       | (Some r, f'') \<Rightarrow> rp_Pc r = pc \<and> pc_in_app app pc
           \<and> instruction_at app pc = Inr (rp_Runner r) \<and> f4_fetching app (pc + 4) f'')"
proof -
  from mvp4_front_cycle_result [OF assms] obtain f' u' where
    f': "mvp4_front_cycle app f u = Inr (f', u')" "mmu_ok u' mem" "l1d u' = l1d u" "f4_fetching app pc f'"
    by blast
  obtain r g where get: "mvp4_front_get f' = (r, g)" by force
  note got = mvp4_get_result [OF f'(4) this]
  have ok: "fetch_ok app (f4_fetchUnit f)" and small: "length (Instructions app) < 2 ^ 29"
    using assms(1) by (simp_all add: f4_fetching_def supported_def)
  show ?thesis
  proof (cases r)
    case None
    with got have "f4_fetching app pc g" by simp
    moreover note mvp4_front_get_None [OF f'(1) get [unfolded None] ok assms(2) small]
    ultimately show ?thesis
      using f'(1-3) get None f4_fetching_end [OF assms(1)] f4_fetching_end(1) [of app pc g] by auto
  next
    case (Some rp)
    with f'(1-3) get got show ?thesis
      by (auto simp: decoded_ok_def code_address_def)
  qed
qed

lemma f4_distance_bound: "f4_fetching app pc f \<Longrightarrow> f4_distance f \<le> 60"
  using fetch_left_bound [of app "f4_fetchUnit f"]
  by (auto simp: f4_fetching_def f4_distance_def bus_distance_def split: option.splits)

text \<open>The branch unit: a taken branch is found by the expectation, and a branch that goes where it was
  expected is not flushed.\<close>

lemma mvp4_resolved_law:
  assumes "f4_asserted app i pc f"
    and run: "Run (runner i noForward) ctx (Labels app) p memory = Inr (ctx', exe)"
    and "instructionType i \<noteq> Bltu" and "PcChange exe \<longrightarrow> code_address app (NextPc exe)"
  shows "if PcChange exe
    then (case simple_shouldFlushPipeline (NextPc exe) (f4_branchUnit f) of (flush, bu) \<Rightarrow>
      if flush then True else f4_fetching app (NextPc exe) (f\<lparr>f4_branchUnit := bu\<rparr>))
    else f4_fetching app (pc + 4) f"
proof (cases "PcChange exe")
  case False
  with assms(1) show ?thesis by (simp add: f4_asserted_def)
next
  case True
  then have "IsUnconditionalBranch (instructionType i) \<or> IsConditionalBranch (instructionType i)"
    using run_class(4) [OF run] assms(3) by (auto simp: IsBranch_def)
  moreover have "NextPc exe \<noteq> -1"
    using assms(4) True by (auto simp: code_address_def)
  ultimately show ?thesis
    using assms(1) True
    by (auto simp: f4_asserted_def simple_shouldFlushPipeline_def f4_fetching_def f4_queue_def)
qed

interpretation mvp4: front_laws mvp4_fe app "f4_fetching app" "\<lambda>i pc. f4_fetching app (pc + 4)"
    "f4_asserted app"
    "\<lambda>f. supported app \<and> fu_cyclesMemoryAccess (f4_fetchUnit f) = 50" f4_distance for app
proof (unfold_locales, goal_cases)
  case (1 i pc f)
  then show ?case by (simp add: f4_fetching_def)
next
  case (2 pc f u mem)
  from mvp4_fetching_law [OF 2] show ?case
    unfolding mvp4_fe_def front_end.simps .
next
  case (3 i pc f u mem)
  from mvp4_front_cycle_result [OF 3] show ?case by (auto simp: mvp4_fe_def)
next
  case (4 i pc f u mem)
  then have "f4_fetching app (pc + 4) f" by (simp add: f4_asserted_def)
  from mvp4_front_cycle_result [OF this 4(2)] 4(1) show ?case
    by (auto simp: mvp4_fe_def f4_asserted_def)
next
  case (5 i pc f)
  then show ?case
    by (auto simp: mvp4_fe_def f4_asserted_def simple_assert_def f4_fetching_def f4_queue_def Let_def
        instruction_class_defs)
next
  case (6 i pc f)
  then show ?case by (simp add: f4_asserted_def)
next
  case (7 i pc f)
  then show ?case by (simp add: f4_asserted_def)
next
  case (8 i pc f ctx memory ctx' exe)
  then have "supported app \<and> fu_cyclesMemoryAccess (f4_fetchUnit f) = 50"
    by (simp add: f4_asserted_def f4_fetching_def fetch_ok_def)
  with mvp4_resolved_law [OF 8] show ?case
    by (auto simp: mvp4_fe_def split: prod.splits if_splits)
next
  case (9 f pc)
  then show ?case
    by (simp add: mvp4_fe_def mvp4_front_flush_def f4_fetching_def f4_queue_def fetch_ok_def
        fetchUnit_flush_def code_address_def)
next
  case (10 pc f)
  then show ?case using f4_fetching_end(1) by (simp add: mvp4_fe_def)
next
  case (11 pc f)
  then show ?case by (rule f4_distance_bound)
next
  case (12 eu)
  then show ?case by (simp add: mvp4_fe_def)
qed

lemma mvp4_run_follows:
  assumes "n < 2 ^ 31" and "mvp4_NewCPU debug n = Inr m" and "supported app" and "Instructions app \<noteq> []"
    and "along (pipeline_disciplined mvp4_fe app) (mvp4_step app) (fuel * 400) (Running, m)"
    and "run_loop (arch_step Done app) fuel (0, NewContext debug n) = Some (Inr ctx)"
  shows "\<exists>m'. mvp4_Run (fuel * 400) m app = Some (Inr m')
    \<and> map_get (Registers (pl_ctx m')) = map_get (Registers ctx) \<and> Memory (pl_ctx m') = Memory ctx"
proof -
  let ?ctx = "NewContext debug n"
  from newMemoryManagementUnit_ok [of "Memory ?ctx"] assms(1) obtain u where
    u: "newMemoryManagementUnit = Inr u" "mmu_ok u (Memory ?ctx)" "seen u (Memory ?ctx) = Memory ?ctx"
    by (auto simp: NewContext_def)
  have "sint (of_nat (length (Instructions app)) :: int32) = int (length (Instructions app))"
    using assms(3) by (intro sint32_of_nat) (simp add: supported_def)
  then have "pc_in_app app 0"
    using assms(4) by (simp add: pc_in_app_def word_sless_alt quot32_def)
  then have "f4_fetching app 0 \<lparr>f4_fetchUnit = mvp4_newFetchUnit, f4_decodeBus = newSimpleBus,
      f4_executeBus = newSimpleBus, f4_branchUnit = \<lparr>bu_toCheck = False, bu_expectation = 0\<rparr>\<rparr>"
    using assms(3) by (simp add: f4_fetching_def f4_queue_def mvp4_newFetchUnit_def newSimpleBus_def
        SimpleBus_contents_def fetch_ok_def cyclesMemoryAccess_def)
  moreover have m: "m = \<lparr>pl_ctx = ?ctx, pl_front = \<lparr>f4_fetchUnit = mvp4_newFetchUnit,
      f4_decodeBus = newSimpleBus, f4_executeBus = newSimpleBus,
      f4_branchUnit = \<lparr>bu_toCheck = False, bu_expectation = 0\<rparr>\<rparr>,
      pl_executeUnit = newExecuteUnit, pl_writeBus = newSimpleBus,
      pl_writeUnit = newWriteUnit, pl_mmu = u, pl_cycle = 0\<rparr>"
    using assms(2) by (simp add: mvp4_NewCPU_def u(1))
  ultimately have "mvp4.sim app (Running, m) (0, ?ctx)"
    using mvp4.sim_start [OF u(2,3)] by (simp add: NewContext_def)
  from mvp4.runs.run_follows [OF this _ assms(6)] assms(5) show ?thesis
    by (auto simp: mvp4_Run_def mvp4_step_def mvp4.result_ok_def)
qed

end
