(* ===== verification/Mvp5.thy ===== *)
theory Mvp5
  imports Mvp4 Btb
begin

text \<open>
  MVP-5 (\<open>src/proc/mvp5\<close>): MVP-4 with a branch target buffer. The decode unit stops at an unconditional
  jump until the execute unit has resolved it, and the branch unit redirects the fetch unit, first to
  the predicted target, then to the real one. While the decode unit does not wait, the front is that of
  MVP-4 (\<open>mvp5_front_as_mvp4\<close>), so that its laws are proved from those of \<open>Mvp4\<close>.
\<close>

section \<open>The fetch unit\<close>

record mvp5_fetchUnit = fetchUnit +
  fu_toCleanPending :: bool

definition mvp5_newFetchUnit :: mvp5_fetchUnit where
  "mvp5_newFetchUnit = \<lparr>fu_pc = 0, fu_remainingCycles = 0, fu_complete = False, fu_processing = False,
     fu_cyclesMemoryAccess = cyclesMemoryAccess, fu_toCleanPending = False\<rparr>"

definition fetchUnit_reset :: "int32 \<Rightarrow> bool \<Rightarrow> mvp5_fetchUnit \<Rightarrow> mvp5_fetchUnit" where
  "fetchUnit_reset pc cleanPending fu =
     fu\<lparr>fu_complete := False, fu_pc := pc, fu_toCleanPending := cleanPending\<rparr>"

definition mvp5_fetchUnit_cycle :: "app \<Rightarrow> mvp5_fetchUnit \<Rightarrow> memoryManagementUnit \<Rightarrow> int32 SimpleBus \<Rightarrow>
    (mvp5_fetchUnit \<times> memoryManagementUnit \<times> int32 SimpleBus) result" where
  "mvp5_fetchUnit_cycle app fu u outBus =
     (if fu_toCleanPending fu
      then fetchUnit_cycle app (fu\<lparr>fu_toCleanPending := False\<rparr>) u (SimpleBus_Clean outBus)
      else fetchUnit_cycle app fu u outBus)"

section \<open>The decode unit\<close>

record decodeUnit =
  du_pendingBranchResolution :: bool

definition mvp5_decodeUnit_cycle :: "app \<Rightarrow> decodeUnit \<Rightarrow> int32 SimpleBus \<Rightarrow> InstructionRunnerPc SimpleBus \<Rightarrow>
    (decodeUnit \<times> int32 SimpleBus \<times> InstructionRunnerPc SimpleBus) result" where
  "mvp5_decodeUnit_cycle app du inBus outBus =
     (if du_pendingBranchResolution du then Inr (du, inBus, outBus)
      else if \<not> SimpleBus_CanAdd outBus then Inr (du, inBus, outBus)
      else case SimpleBus_Get inBus of (pc, inBus) \<Rightarrow> (case pc of
        None \<Rightarrow> Inr (du, inBus, outBus)
      | Some pc \<Rightarrow> rbind (instruction_at app pc) (\<lambda>i.
          let du = (if IsUnconditionalBranch (instructionType i)
                    then du\<lparr>du_pendingBranchResolution := True\<rparr> else du)
          in Inr (du, inBus, SimpleBus_Add outBus \<lparr>rp_Runner = i, rp_Pc = pc\<rparr>))))"

definition decodeUnit_notifyBranchResolved :: "decodeUnit \<Rightarrow> decodeUnit" where
  "decodeUnit_notifyBranchResolved du = du\<lparr>du_pendingBranchResolution := False\<rparr>"

definition decodeUnit_flush :: "decodeUnit \<Rightarrow> decodeUnit" where
  "decodeUnit_flush du = du\<lparr>du_pendingBranchResolution := False\<rparr>"

section \<open>The branch unit\<close>

text \<open>The branch unit holds pointers to the fetch unit and the decode unit: its operations are functions
  on the whole front.\<close>

record mvp5_front =
  f5_fetchUnit :: mvp5_fetchUnit
  f5_decodeBus :: "int32 SimpleBus"
  f5_decodeUnit :: decodeUnit
  f5_executeBus :: "InstructionRunnerPc SimpleBus"
  bu_btb :: branchTargetBuffer
  bu5_toCheck :: bool
  bu5_expectation :: int32
  f5_counterFlush :: int

definition btb_assert :: "InstructionRunnerPc \<Rightarrow> mvp5_front \<Rightarrow> mvp5_front" where
  "btb_assert r f =
     (let t = instructionType (rp_Runner r) in
      if IsUnconditionalBranch t then (case btb_get (bu_btb f) (rp_Pc r) of
        None \<Rightarrow> f\<lparr>bu5_toCheck := True, bu5_expectation := -1\<rparr>
      | Some nextPc \<Rightarrow> f\<lparr>bu5_toCheck := False,
          f5_fetchUnit := fetchUnit_reset nextPc True (f5_fetchUnit f)\<rparr>)
      else if IsConditionalBranch t then f\<lparr>bu5_toCheck := True, bu5_expectation := rp_Pc r + 4\<rparr>
      else f\<lparr>bu5_toCheck := False\<rparr>)"

definition btb_shouldFlushPipeline :: "int32 \<Rightarrow> mvp5_front \<Rightarrow> bool \<times> mvp5_front" where
  "btb_shouldFlushPipeline pc f =
     (if \<not> bu5_toCheck f then (False, f)
      else (bu5_expectation f \<noteq> pc, f\<lparr>bu5_toCheck := False\<rparr>))"

definition notifyJumpAddressResolved :: "int32 \<Rightarrow> int32 \<Rightarrow> mvp5_front \<Rightarrow> mvp5_front result" where
  "notifyJumpAddressResolved pc pcTo f =
     rbind (btb_add (bu_btb f) pc pcTo) (\<lambda>btb.
     Inr (f\<lparr>bu_btb := btb, f5_fetchUnit := fetchUnit_reset pcTo True (f5_fetchUnit f),
            f5_decodeUnit := decodeUnit_notifyBranchResolved (f5_decodeUnit f)\<rparr>))"

section \<open>The processor\<close>

definition mvp5_front_cycle :: "app \<Rightarrow> mvp5_front \<Rightarrow> memoryManagementUnit \<Rightarrow>
    (mvp5_front \<times> memoryManagementUnit) result" where
  "mvp5_front_cycle app f u =
     rbind (mvp5_fetchUnit_cycle app (f5_fetchUnit f) u (f5_decodeBus f)) (\<lambda>(fu, u, decodeBus).
     rbind (mvp5_decodeUnit_cycle app (f5_decodeUnit f) decodeBus (f5_executeBus f)) (\<lambda>(du, decodeBus, executeBus).
     Inr (f\<lparr>f5_fetchUnit := fu, f5_decodeBus := decodeBus, f5_decodeUnit := du,
            f5_executeBus := executeBus\<rparr>, u)))"

definition mvp5_front_get :: "mvp5_front \<Rightarrow> InstructionRunnerPc option \<times> mvp5_front" where
  "mvp5_front_get f =
     (case SimpleBus_Get (f5_executeBus f) of (r, b) \<Rightarrow> (r, f\<lparr>f5_executeBus := b\<rparr>))"

definition mvp5_front_resolved :: "InstructionRunnerPc \<Rightarrow> Execution \<Rightarrow> mvp5_front \<Rightarrow> mvp5_front result" where
  "mvp5_front_resolved r exe f =
     (if IsUnconditionalBranch (instructionType (rp_Runner r))
      then notifyJumpAddressResolved (rp_Pc r) (NextPc exe) f
      else Inr f)"

definition mvp5_front_flush :: "int32 \<Rightarrow> mvp5_front \<Rightarrow> mvp5_front" where
  "mvp5_front_flush pc f =
     f\<lparr>f5_fetchUnit := fetchUnit_flush pc (f5_fetchUnit f),
       f5_decodeUnit := decodeUnit_flush (f5_decodeUnit f),
       f5_decodeBus := SimpleBus_Flush (f5_decodeBus f),
       f5_executeBus := SimpleBus_Flush (f5_executeBus f),
       f5_counterFlush := f5_counterFlush f + 1\<rparr>"

definition mvp5_front_isEmpty :: "mvp5_front \<Rightarrow> bool" where
  "mvp5_front_isEmpty f \<longleftrightarrow>
     fu_complete (f5_fetchUnit f) \<and> SimpleBus_IsEmpty (f5_decodeBus f) \<and> SimpleBus_IsEmpty (f5_executeBus f)"

definition executeUnit_flush :: "executeUnit \<Rightarrow> executeUnit" where
  "executeUnit_flush eu = eu\<lparr>eu_processing := False, eu_remainingCycles := 0\<rparr>"

definition mvp5_fe :: "mvp5_front front_end" where
  "mvp5_fe =
     \<lparr>fe_cycle = mvp5_front_cycle,
      fe_get = mvp5_front_get,
      fe_assert = btb_assert,
      fe_resolved = mvp5_front_resolved,
      fe_shouldFlush = btb_shouldFlushPipeline,
      fe_flush = mvp5_front_flush,
      fe_isEmpty = mvp5_front_isEmpty,
      fe_flushExecuteUnit = executeUnit_flush\<rparr>"

type_synonym mvp5 = "mvp5_front pipeline"

definition mvp5_newFront :: mvp5_front where
  "mvp5_newFront =
     \<lparr>f5_fetchUnit = mvp5_newFetchUnit, f5_decodeBus = newSimpleBus,
      f5_decodeUnit = \<lparr>du_pendingBranchResolution = False\<rparr>, f5_executeBus = newSimpleBus,
      bu_btb = newBranchTargetBuffer 4, bu5_toCheck = False, bu5_expectation = 0, f5_counterFlush = 0\<rparr>"

definition mvp5_NewCPU :: "bool \<Rightarrow> nat \<Rightarrow> mvp5 result" where
  "mvp5_NewCPU debug memoryBytes =
     rbind newMemoryManagementUnit (\<lambda>u.
     Inr \<lparr>pl_ctx = NewContext debug memoryBytes, pl_front = mvp5_newFront,
          pl_executeUnit = newExecuteUnit, pl_writeBus = newSimpleBus,
          pl_writeUnit = newWriteUnit, pl_mmu = u, pl_cycle = 0\<rparr>)"

definition mvp5_executeUnit_cycle :: "app \<Rightarrow> mvp5 \<Rightarrow> (eu_signal \<times> mvp5) result" where
  "mvp5_executeUnit_cycle = eu_cycle mvp5_fe"

definition mvp5_writeUnit_cycle :: "mvp5 \<Rightarrow> mvp5 result" where
  "mvp5_writeUnit_cycle = wu_cycle"

definition mvp5_flush :: "int32 \<Rightarrow> mvp5 \<Rightarrow> mvp5" where
  "mvp5_flush = pipeline_flush mvp5_fe"

definition mvp5_isComplete :: "mvp5 \<Rightarrow> bool" where
  "mvp5_isComplete = pipeline_isComplete mvp5_fe"

definition mvp5_step :: "app \<Rightarrow> cpu_mode \<times> mvp5 \<Rightarrow> (cpu_mode \<times> mvp5, mvp5) outcome result" where
  "mvp5_step = pipeline_step mvp5_fe"

definition mvp5_Run :: "nat \<Rightarrow> mvp5 \<Rightarrow> app \<Rightarrow> mvp5 result option" where
  "mvp5_Run fuel m app = run_loop (mvp5_step app) fuel (Running, m)"

section \<open>The front as that of MVP-4\<close>

text \<open>What the decode unit will see of the decode bus.\<close>

definition f5_decoding :: "mvp5_front \<Rightarrow> int32 SimpleBus" where
  "f5_decoding f = (if fu_toCleanPending (f5_fetchUnit f) then newSimpleBus else f5_decodeBus f)"

definition f5_view :: "mvp5_front \<Rightarrow> mvp4_front" where
  "f5_view f =
     \<lparr>f4_fetchUnit = fetchUnit.truncate (f5_fetchUnit f), f4_decodeBus = f5_decoding f,
      f4_executeBus = f5_executeBus f, f4_branchUnit = \<lparr>bu_toCheck = False, bu_expectation = 0\<rparr>\<rparr>"

abbreviation f5_pending :: "mvp5_front \<Rightarrow> bool" where
  "f5_pending f \<equiv> du_pendingBranchResolution (f5_decodeUnit f)"

lemma f5_view_simps [simp]:
  "fu_pc (f4_fetchUnit (f5_view f)) = fu_pc (f5_fetchUnit f)"
  "fu_complete (f4_fetchUnit (f5_view f)) = fu_complete (f5_fetchUnit f)"
  "f4_decodeBus (f5_view f) = f5_decoding f" "f4_executeBus (f5_view f) = f5_executeBus f"
  "fetch_ok app (f4_fetchUnit (f5_view f)) = fetch_ok app (f5_fetchUnit f)"
  by (simp_all add: f5_view_def fetchUnit.truncate_def fetch_ok_def)

lemma fetchUnit_truncate_update [simp]:
  "fetchUnit.truncate (fu\<lparr>fu_processing := b\<rparr>) = (fetchUnit.truncate fu)\<lparr>fu_processing := b\<rparr>"
  "fetchUnit.truncate (fu\<lparr>fu_remainingCycles := k\<rparr>) = (fetchUnit.truncate fu)\<lparr>fu_remainingCycles := k\<rparr>"
  "fetchUnit.truncate (fu\<lparr>fu_pc := pc\<rparr>) = (fetchUnit.truncate fu)\<lparr>fu_pc := pc\<rparr>"
  "fetchUnit.truncate (fu\<lparr>fu_complete := b\<rparr>) = (fetchUnit.truncate fu)\<lparr>fu_complete := b\<rparr>"
  "fetchUnit.truncate ((fu' :: mvp5_fetchUnit)\<lparr>fu_toCleanPending := b\<rparr>) = fetchUnit.truncate fu'"
  "fu_pc (fetchUnit.truncate fu) = fu_pc fu" "fu_complete (fetchUnit.truncate fu) = fu_complete fu"
  "fu_processing (fetchUnit.truncate fu) = fu_processing fu"
  "fu_remainingCycles (fetchUnit.truncate fu) = fu_remainingCycles fu"
  "fu_cyclesMemoryAccess (fetchUnit.truncate fu) = fu_cyclesMemoryAccess fu"
  by (simp_all add: fetchUnit.truncate_def)

text \<open>The fetch unit does not look at the fields that MVP-5 adds.\<close>

lemma map_sum_rbind: "map_sum id g (rbind m h) = rbind m (\<lambda>x. map_sum id g (h x))"
  by (cases m) simp_all

lemma fetch_start_truncate:
  "fetch_start (fetchUnit.truncate fu) u =
     map_sum id (\<lambda>(fu', u'). (fetchUnit.truncate fu', u')) (fetch_start fu u)"
proof (cases "getFromL1I u [fu_pc fu]")
  case (Inl e)
  then show ?thesis by (simp add: fetch_start_def Let_def)
next
  case (Inr r)
  then show ?thesis
    by (cases r) (simp add: fetch_start_def Let_def map_sum_rbind)
qed

lemma fetchUnit_cycle_truncate:
  "fetchUnit_cycle app (fetchUnit.truncate fu) u b =
     map_sum id (\<lambda>(fu', u', b'). (fetchUnit.truncate fu', u', b')) (fetchUnit_cycle app fu u b)"
proof (cases "fetch_start fu u")
  case (Inl e)
  then show ?thesis by (simp add: fetchUnit_cycle_def fetch_start_truncate)
next
  case (Inr r)
  then show ?thesis
    by (cases r) (simp add: fetchUnit_cycle_def fetch_start_truncate fetch_advance_def Let_def)
qed

lemma mvp5_fetch_as_mvp4:
  "fetchUnit_cycle app (f4_fetchUnit (f5_view f)) u (f5_decoding f) =
     map_sum id (\<lambda>(fu', u', b'). (fetchUnit.truncate fu', u', b'))
       (mvp5_fetchUnit_cycle app (f5_fetchUnit f) u (f5_decodeBus f))"
proof -
  have "fetchUnit.truncate (f5_fetchUnit f) =
      fetchUnit.truncate ((f5_fetchUnit f)\<lparr>fu_toCleanPending := False\<rparr>)" by simp
  moreover have "SimpleBus_Clean (f5_decodeBus f) = newSimpleBus"
    by (simp add: SimpleBus_Clean_def newSimpleBus_def)
  ultimately show ?thesis
    using fetchUnit_cycle_truncate [of app "f5_fetchUnit f"]
      fetchUnit_cycle_truncate [of app "(f5_fetchUnit f)\<lparr>fu_toCleanPending := False\<rparr>"]
    by (simp add: mvp5_fetchUnit_cycle_def f5_decoding_def f5_view_def)
qed

lemma mvp5_fetch_result:
  assumes "fetch_ok app fu" and "mmu_ok u mem" and "length (Instructions app) < 2 ^ 29"
  shows "\<exists>fu' u' b'. mvp5_fetchUnit_cycle app fu u b = Inr (fu', u', b') \<and> mmu_ok u' mem
    \<and> l1d u' = l1d u \<and> fetch_ok app fu' \<and> \<not> fu_toCleanPending fu'"
proof -
  let ?fu = "fu\<lparr>fu_toCleanPending := False\<rparr>"
  let ?b = "if fu_toCleanPending fu then SimpleBus_Clean b else b"
  have "fetch_ok app ?fu"
    using assms(1) by (simp add: fetch_ok_def)
  from fetch_result [OF this assms(2,3), of ?b] obtain fu' u' b' where
    cycle: "fetchUnit_cycle app ?fu u ?b = Inr (fu', u', b')" "mmu_ok u' mem" "l1d u' = l1d u"
      "fetch_ok app fu'" "fetchUnit.more fu' = fetchUnit.more ?fu"
    by blast
  have "\<not> fu_toCleanPending fu'"
    using cycle(5) by (cases fu'; cases fu) simp
  moreover have "mvp5_fetchUnit_cycle app fu u b = fetchUnit_cycle app ?fu u ?b"
    by (cases fu) (simp add: mvp5_fetchUnit_cycle_def)
  ultimately show ?thesis
    using cycle by auto
qed

text \<open>While it is not waiting, the decode unit is that of MVP-4, but that it remembers a jump.\<close>

definition is_jump :: "InstructionRunnerPc \<Rightarrow> bool" where
  "is_jump r \<longleftrightarrow> IsUnconditionalBranch (instructionType (rp_Runner r))"

text \<open>A jump on the execute bus is the last element there, and the decode unit waits for it.\<close>

definition jumps_last :: "bool \<Rightarrow> InstructionRunnerPc list \<Rightarrow> bool" where
  "jumps_last waits rs \<longleftrightarrow>
     (if waits then rs \<noteq> [] \<and> is_jump (last rs) \<and> (\<forall>r \<in> set (butlast rs). \<not> is_jump r)
      else \<forall>r \<in> set rs. \<not> is_jump r)"

lemma mvp5_decode_as_mvp4:
  assumes "\<not> du_pendingBranchResolution du" and "mvp4_decodeUnit_cycle app b e = Inr (b', e')"
    and "jumps_last False (SimpleBus_contents e)"
  shows "\<exists>du'. mvp5_decodeUnit_cycle app du b e = Inr (du', b', e')
    \<and> jumps_last (du_pendingBranchResolution du') (SimpleBus_contents e')"
proof -
  obtain r b1 where get: "SimpleBus_Get b = (r, b1)" by force
  show ?thesis
  proof (cases "SimpleBus_CanAdd e \<and> r \<noteq> None")
    case False
    with assms get show ?thesis
      by (cases r) (auto simp: mvp4_decodeUnit_cycle_def mvp5_decodeUnit_cycle_def split: if_splits)
  next
    case True
    with assms(2) get obtain pc i where "r = Some pc" "instruction_at app pc = Inr i" "b' = b1"
      "e' = SimpleBus_Add e \<lparr>rp_Runner = i, rp_Pc = pc\<rparr>"
      by (auto simp: mvp4_decodeUnit_cycle_def)
    with True assms(1,3) get show ?thesis
      by (auto simp: mvp5_decodeUnit_cycle_def jumps_last_def is_jump_def contents_Add)
  qed
qed

section \<open>The invariant of the front\<close>

definition targets_ok :: "app \<Rightarrow> branchTargetBuffer \<Rightarrow> bool" where
  "targets_ok app b \<longleftrightarrow> btb_ok b \<and> (\<forall>pc t. btb_get b pc = Some t \<longrightarrow> code_address app t)"

lemma targets_ok_add:
  assumes "targets_ok app b" and "code_address app t"
  shows "\<exists>b'. btb_add b pc t = Inr b' \<and> targets_ok app b'"
proof -
  from assms(1) have ok: "btb_ok b" by (simp add: targets_ok_def)
  from btb_add_returns [OF this] obtain b' where b': "btb_add b pc t = Inr b'" by blast
  have "code_address app w" if "btb_get b' k = Some w" for k w
    using btb_get_add_same [OF ok b'] btb_get_add_other [OF ok b', of k w] that assms
    by (cases "k = pc") (auto simp: targets_ok_def)
  with b' btb_ok_add [OF ok b'] show ?thesis by (simp add: targets_ok_def)
qed

definition f5_ok :: "app \<Rightarrow> mvp5_front \<Rightarrow> bool" where
  "f5_ok app f \<longleftrightarrow> supported app \<and> targets_ok app (bu_btb f) \<and> fetch_ok app (f5_fetchUnit f)"

fun chained :: "int32 \<Rightarrow> int32 list \<Rightarrow> bool" where
  "chained pc [] \<longleftrightarrow> True"
| "chained pc (p # ps) \<longleftrightarrow> p = pc \<and> chained (pc + 4) ps"

lemma chain_appendD: "chain pc (xs @ ys) e \<Longrightarrow> chained pc xs"
  by (induction xs arbitrary: pc) auto

definition f5_fetching :: "app \<Rightarrow> int32 \<Rightarrow> mvp5_front \<Rightarrow> bool" where
  "f5_fetching app pc f \<longleftrightarrow> f5_ok app f
     \<and> jumps_last (f5_pending f) (SimpleBus_contents (f5_executeBus f))
     \<and> (\<forall>r \<in> set (SimpleBus_contents (f5_executeBus f)). decoded_ok app r)
     \<and> (if f5_pending f then chained pc (map rp_Pc (SimpleBus_contents (f5_executeBus f)))
        else f4_fetching app pc (f5_view f))"

text \<open>A jump that is executed has nothing behind it.\<close>

definition f5_issued :: "app \<Rightarrow> instr \<Rightarrow> int32 \<Rightarrow> mvp5_front \<Rightarrow> bool" where
  "f5_issued app i pc f \<longleftrightarrow>
     (if IsUnconditionalBranch (instructionType i)
      then f5_ok app f \<and> f5_pending f \<and> SimpleBus_contents (f5_executeBus f) = []
      else f5_fetching app (pc + 4) f)"

definition f5_asserted :: "app \<Rightarrow> instr \<Rightarrow> int32 \<Rightarrow> mvp5_front \<Rightarrow> bool" where
  "f5_asserted app i pc f \<longleftrightarrow> f5_issued app i pc f
     \<and> (IsConditionalBranch (instructionType i) \<longrightarrow> bu5_toCheck f \<and> bu5_expectation f = pc + 4)"

definition f5_flushable :: "app \<Rightarrow> mvp5_front \<Rightarrow> bool" where
  "f5_flushable app f \<longleftrightarrow> supported app \<and> targets_ok app (bu_btb f)
     \<and> fu_cyclesMemoryAccess (f5_fetchUnit f) = 50"

definition f5_distance :: "mvp5_front \<Rightarrow> nat" where
  "f5_distance f = f4_distance (f5_view f)"

definition same_branch_unit :: "mvp5_front \<Rightarrow> mvp5_front \<Rightarrow> bool" where
  "same_branch_unit f' f \<longleftrightarrow> bu_btb f' = bu_btb f \<and> bu5_toCheck f' = bu5_toCheck f
     \<and> bu5_expectation f' = bu5_expectation f"

text \<open>While the decode unit waits, only the fetch unit works.\<close>

lemma mvp5_waiting_cycle:
  assumes "f5_pending f" and "f5_ok app f" and "mmu_ok u mem"
  shows "\<exists>f' u'. mvp5_front_cycle app f u = Inr (f', u') \<and> mmu_ok u' mem \<and> l1d u' = l1d u
    \<and> f5_ok app f' \<and> f5_pending f' \<and> f5_executeBus f' = f5_executeBus f \<and> same_branch_unit f' f
    \<and> \<not> fu_toCleanPending (f5_fetchUnit f')"
proof -
  have "length (Instructions app) < 2 ^ 29" using assms(2) by (simp add: f5_ok_def supported_def)
  with mvp5_fetch_result [of app "f5_fetchUnit f" u mem "f5_decodeBus f"] assms obtain fu u' b where
    "mvp5_fetchUnit_cycle app (f5_fetchUnit f) u (f5_decodeBus f) = Inr (fu, u', b)"
    "mmu_ok u' mem" "l1d u' = l1d u" "fetch_ok app fu" "\<not> fu_toCleanPending fu"
    by (auto simp: f5_ok_def)
  with assms(1,2) show ?thesis
    by (simp add: mvp5_front_cycle_def mvp5_decodeUnit_cycle_def f5_ok_def same_branch_unit_def)
qed

text \<open>Otherwise the front works as that of MVP-4.\<close>

lemma mvp5_front_as_mvp4:
  assumes "\<not> f5_pending f" and "f5_ok app f" and "mmu_ok u mem"
    and "jumps_last False (SimpleBus_contents (f5_executeBus f))"
    and "mvp4_front_cycle app (f5_view f) u = Inr (g, u')"
  shows "\<exists>f'. mvp5_front_cycle app f u = Inr (f', u') \<and> f5_view f' = g \<and> f5_ok app f'
    \<and> jumps_last (f5_pending f') (SimpleBus_contents (f5_executeBus f'))
    \<and> same_branch_unit f' f \<and> \<not> fu_toCleanPending (f5_fetchUnit f')"
proof -
  have "length (Instructions app) < 2 ^ 29" using assms(2) by (simp add: f5_ok_def supported_def)
  with mvp5_fetch_result [of app "f5_fetchUnit f" u mem "f5_decodeBus f"] assms(2,3) obtain fu v b where
    fu: "mvp5_fetchUnit_cycle app (f5_fetchUnit f) u (f5_decodeBus f) = Inr (fu, v, b)"
      "fetch_ok app fu" "\<not> fu_toCleanPending fu"
    by (auto simp: f5_ok_def)
  with mvp5_fetch_as_mvp4 [of app f u]
  have "fetchUnit_cycle app (f4_fetchUnit (f5_view f)) u (f5_decoding f) = Inr (fetchUnit.truncate fu, v, b)"
    by simp
  with assms(5) obtain b' e' where dec: "mvp4_decodeUnit_cycle app b (f5_executeBus f) = Inr (b', e')"
    and g: "g = (f5_view f)\<lparr>f4_fetchUnit := fetchUnit.truncate fu, f4_decodeBus := b', f4_executeBus := e'\<rparr>"
      "u' = v"
    by (auto simp: mvp4_front_cycle_def)
  from mvp5_decode_as_mvp4 [OF assms(1) dec assms(4)] obtain du where
    "mvp5_decodeUnit_cycle app (f5_decodeUnit f) b (f5_executeBus f) = Inr (du, b', e')"
    "jumps_last (du_pendingBranchResolution du) (SimpleBus_contents e')"
    by blast
  with fu g assms(2) show ?thesis
    by (simp add: mvp5_front_cycle_def f5_view_def f5_decoding_def f5_ok_def same_branch_unit_def)
qed

lemma mvp5_front_cycle_result:
  assumes "f5_fetching app pc f" and "mmu_ok u mem"
  shows "\<exists>f' u'. mvp5_front_cycle app f u = Inr (f', u') \<and> mmu_ok u' mem \<and> l1d u' = l1d u
    \<and> f5_fetching app pc f' \<and> same_branch_unit f' f \<and> \<not> fu_toCleanPending (f5_fetchUnit f')"
proof (cases "f5_pending f")
  case True
  with assms(1) mvp5_waiting_cycle [OF True _ assms(2)] show ?thesis
    by (fastforce simp: f5_fetching_def)
next
  case False
  then have f: "f5_ok app f" "jumps_last False (SimpleBus_contents (f5_executeBus f))"
      "f4_fetching app pc (f5_view f)"
    using assms(1) by (simp_all add: f5_fetching_def)
  from mvp4_front_cycle_result [OF f(3) assms(2)] obtain g u' where
    g: "mvp4_front_cycle app (f5_view f) u = Inr (g, u')" "mmu_ok u' mem" "l1d u' = l1d u" "f4_fetching app pc g"
    by blast
  from mvp5_front_as_mvp4 [OF False f(1) assms(2) f(2) g(1)] obtain f' where
    f': "mvp5_front_cycle app f u = Inr (f', u')" "f5_view f' = g" "f5_ok app f'"
      "jumps_last (f5_pending f') (SimpleBus_contents (f5_executeBus f'))"
      "same_branch_unit f' f" "\<not> fu_toCleanPending (f5_fetchUnit f')"
    by blast
  moreover have "chained pc (map rp_Pc (SimpleBus_contents (f5_executeBus f')))"
    using g(4) f'(2) by (auto simp: f4_fetching_def f4_queue_def intro: chain_appendD)
  ultimately show ?thesis
    using g by (auto simp: f5_fetching_def f4_fetching_def)
qed

section \<open>The front keeps its contract\<close>

lemma bus_distance_contents:
  "SimpleBus_contents (f5_executeBus f) \<noteq> [] \<Longrightarrow> f5_distance f = the (bus_distance (f5_executeBus f))"
  using bus_distance_None [of "f5_executeBus f"]
  by (auto simp: f5_distance_def f4_distance_def split: option.splits)

lemma mvp5_not_empty:
  assumes "f5_fetching app pc f" and "pc_in_app app pc"
  shows "\<not> mvp5_front_isEmpty f"
proof
  assume "mvp5_front_isEmpty f"
  then have empty: "fu_complete (f5_fetchUnit f)" "SimpleBus_contents (f5_decodeBus f) = []"
      "SimpleBus_contents (f5_executeBus f) = []"
    by (simp_all add: mvp5_front_isEmpty_def SimpleBus_IsEmpty_def SimpleBus_contents_def)
  then have "\<not> f5_pending f" using assms(1) by (auto simp: f5_fetching_def jumps_last_def)
  then have "f4_fetching app pc (f5_view f)" using assms(1) by (simp add: f5_fetching_def)
  moreover have "SimpleBus_contents (f5_decoding f) = []"
    using empty(2) by (simp add: f5_decoding_def SimpleBus_contents_def newSimpleBus_def)
  ultimately show False
    using empty assms(2) f4_fetching_end(2) [of app pc "f5_view f"] by (simp add: f4_queue_def)
qed

lemma mvp5_empty:
  assumes "f5_fetching app pc f" and "\<not> pc_in_app app pc" and "\<not> fu_toCleanPending (f5_fetchUnit f)"
  shows "mvp5_front_isEmpty f"
proof -
  have "\<not> f5_pending f"
  proof
    assume "f5_pending f"
    with assms(1) obtain r rs where "SimpleBus_contents (f5_executeBus f) = r # rs"
        "chained pc (map rp_Pc (r # rs))" "decoded_ok app r"
      by (cases "SimpleBus_contents (f5_executeBus f)") (auto simp: f5_fetching_def jumps_last_def)
    with assms(2) show False by (simp add: decoded_ok_def code_address_def)
  qed
  with assms f4_fetching_end(1) [of app pc "f5_view f"] show ?thesis
    by (simp add: f5_fetching_def mvp4_front_isEmpty_def mvp5_front_isEmpty_def f5_decoding_def)
qed

text \<open>\<open>Get\<close> on the execute bus.\<close>

lemma f5_view_get:
  assumes "mvp5_front_get f = (r, g)"
  shows "mvp4_front_get (f5_view f) = (r, f5_view g)"
    and "SimpleBus_Get (f5_executeBus f) = (r, f5_executeBus g)"
    and "f5_pending g = f5_pending f" and "f5_ok app g = f5_ok app f" and "same_branch_unit g f"
    and "fu_toCleanPending (f5_fetchUnit g) = fu_toCleanPending (f5_fetchUnit f)"
  using assms
  by (auto simp: mvp5_front_get_def mvp4_front_get_def f5_view_def f5_decoding_def f5_ok_def
      same_branch_unit_def split: prod.splits)

lemma mvp5_get_None:
  assumes "f5_fetching app pc f" and "mvp5_front_get f = (None, g)"
  shows "f5_fetching app pc g"
proof -
  note view = f5_view_get [OF assms(2)]
  note contents = contents_Get [OF view(2)]
  have "f4_fetching app pc (f5_view f) \<Longrightarrow> f4_fetching app pc (f5_view g)"
    using mvp4_get_result [OF _ view(1)] by simp
  with assms(1) contents view(3,4) show ?thesis by (auto simp: f5_fetching_def)
qed

lemma mvp5_get_Some:
  assumes "f5_fetching app pc f" and "mvp5_front_get f = (Some r, g)"
  shows "rp_Pc r = pc" and "decoded_ok app r" and "f5_issued app (rp_Runner r) pc g"
proof -
  note view = f5_view_get [OF assms(2)]
  have contents: "SimpleBus_contents (f5_executeBus f) = r # SimpleBus_contents (f5_executeBus g)"
    using contents_Get [OF view(2)] by simp
  have next_front: "f4_fetching app pc (f5_view f) \<Longrightarrow> f4_fetching app (pc + 4) (f5_view g) \<and> rp_Pc r = pc"
    using mvp4_get_result [OF _ view(1)] by simp
  show "rp_Pc r = pc" and "decoded_ok app r"
    using assms(1) contents next_front by (auto simp: f5_fetching_def split: if_splits)
  have fetching: "f5_ok app f"
      "jumps_last (f5_pending f) (r # SimpleBus_contents (f5_executeBus g))"
      "\<forall>r \<in> set (SimpleBus_contents (f5_executeBus g)). decoded_ok app r"
    using assms(1) contents by (auto simp: f5_fetching_def)
  show "f5_issued app (rp_Runner r) pc g"
  proof (cases "is_jump r")
    case True
    with fetching view(3,4) show ?thesis
      by (auto simp: f5_issued_def is_jump_def jumps_last_def split: if_splits)
  next
    case False
    have "if f5_pending f then chained (pc + 4) (map rp_Pc (SimpleBus_contents (f5_executeBus g)))
      else f4_fetching app (pc + 4) (f5_view g)"
      using assms(1) contents next_front by (auto simp: f5_fetching_def)
    with False fetching view(3,4) show ?thesis
      by (auto simp: f5_issued_def f5_fetching_def is_jump_def jumps_last_def split: if_splits)
  qed
qed

lemma mvp5_distance:
  assumes "f5_fetching app pc f" and "mmu_ok u mem"
    and "mvp5_front_cycle app f u = Inr (f', u')" and "mvp5_front_get f' = (None, g)"
  shows "f5_distance g \<le> f5_distance f" and "pc_in_app app pc \<Longrightarrow> f5_distance g < f5_distance f"
proof -
  note view = f5_view_get [OF assms(4)]
  have ok: "f5_ok app f" "jumps_last (f5_pending f) (SimpleBus_contents (f5_executeBus f))"
    using assms(1) by (simp_all add: f5_fetching_def)
  have "f5_distance g \<le> f5_distance f \<and> (pc_in_app app pc \<longrightarrow> f5_distance g < f5_distance f)"
  proof (cases "f5_pending f")
    case True
    with mvp5_waiting_cycle [OF True ok(1) assms(2)] assms(3)
    have bus: "f5_executeBus f' = f5_executeBus f" by auto
    have "SimpleBus_contents (f5_executeBus f) \<noteq> []" using ok(2) True by (simp add: jumps_last_def)
    moreover from this have "SimpleBus_contents (f5_executeBus g) \<noteq> []"
      using contents_Get [OF view(2)] bus by simp
    moreover have "sb_current (f5_executeBus f) = None"
      "f5_executeBus g = (f5_executeBus f)\<lparr>sb_current := sb_pending (f5_executeBus f), sb_pending := None\<rparr>"
      using view(2) bus by (auto simp: SimpleBus_Get_def)
    ultimately show ?thesis
      by (auto simp: bus_distance_contents bus_distance_def SimpleBus_contents_def split: option.splits)
  next
    case False
    then have f4: "f4_fetching app pc (f5_view f)" and jumps: "jumps_last False (SimpleBus_contents (f5_executeBus f))"
      using assms(1) by (simp_all add: f5_fetching_def)
    from mvp4_front_cycle_result [OF f4 assms(2)] obtain h v where
      h: "mvp4_front_cycle app (f5_view f) u = Inr (h, v)" by blast
    from mvp5_front_as_mvp4 [OF False ok(1) assms(2) jumps h] assms(3) have "f5_view f' = h" by auto
    moreover have "fetch_ok app (f4_fetchUnit (f5_view f))" "length (Instructions app) < 2 ^ 29"
      using ok(1) by (simp_all add: f5_ok_def supported_def)
    ultimately show ?thesis
      using mvp4_front_get_None [OF h _ _ assms(2), of "f5_view g"] view(1) f4_fetching_end(2) [OF f4]
      by (auto simp: f5_distance_def)
  qed
  then show "f5_distance g \<le> f5_distance f" and "pc_in_app app pc \<Longrightarrow> f5_distance g < f5_distance f"
    by auto
qed

lemma mvp5_fetching_law:
  assumes "f5_fetching app pc f" and "mmu_ok u mem"
  shows "\<exists>f' u'. mvp5_front_cycle app f u = Inr (f', u') \<and> mmu_ok u' mem \<and> l1d u' = l1d u
    \<and> (case mvp5_front_get f' of
         (None, f'') \<Rightarrow> f5_fetching app pc f'' \<and> f5_distance f'' \<le> f5_distance f
           \<and> (if pc_in_app app pc then f5_distance f'' < f5_distance f else mvp5_front_isEmpty f'')
       | (Some r, f'') \<Rightarrow> rp_Pc r = pc \<and> pc_in_app app pc
           \<and> instruction_at app pc = Inr (rp_Runner r) \<and> f5_issued app (rp_Runner r) pc f'')"
proof -
  from mvp5_front_cycle_result [OF assms] obtain f' u' where
    f': "mvp5_front_cycle app f u = Inr (f', u')" "mmu_ok u' mem" "l1d u' = l1d u"
      "f5_fetching app pc f'" "\<not> fu_toCleanPending (f5_fetchUnit f')"
    by blast
  obtain r g where get: "mvp5_front_get f' = (r, g)" by force
  show ?thesis
  proof (cases r)
    case None
    note got = get [unfolded None]
    have "f5_fetching app pc g" using mvp5_get_None [OF f'(4) got] .
    with None f'(1-3,5) got mvp5_distance [OF assms f'(1) got] mvp5_empty [of app pc g]
      f5_view_get(6) [OF got] show ?thesis by auto
  next
    case (Some rp)
    from f'(1-3) get Some mvp5_get_Some [OF f'(4) get [unfolded Some]] show ?thesis
      by (auto simp: decoded_ok_def code_address_def)
  qed
qed

lemma f5_distance_bound:
  assumes "f5_fetching app pc f"
  shows "f5_distance f \<le> 60"
proof (cases "f5_pending f")
  case True
  with assms bus_distance_contents [of f] show ?thesis
    by (auto simp: f5_fetching_def jumps_last_def bus_distance_def SimpleBus_contents_def)
next
  case False
  with assms f4_distance_bound show ?thesis by (auto simp: f5_fetching_def f5_distance_def)
qed

lemma mvp5_issued_cycle:
  assumes "f5_issued app i pc f" and "mmu_ok u mem"
  shows "\<exists>f' u'. mvp5_front_cycle app f u = Inr (f', u') \<and> mmu_ok u' mem \<and> l1d u' = l1d u
    \<and> f5_issued app i pc f' \<and> same_branch_unit f' f"
proof (cases "IsUnconditionalBranch (instructionType i)")
  case True
  with mvp5_waiting_cycle [OF _ _ assms(2), of f] assms(1) show ?thesis
    by (fastforce simp: f5_issued_def)
next
  case False
  with mvp5_front_cycle_result [of app "pc + 4" f, OF _ assms(2)] assms(1) show ?thesis
    by (fastforce simp: f5_issued_def)
qed

lemma fetch_ok_reset:
  "fetch_ok app fu \<Longrightarrow> code_address app pc \<Longrightarrow> fetch_ok app (fetchUnit_reset pc c fu)"
  by (simp add: fetch_ok_def fetchUnit_reset_def code_address_def)

lemma mvp5_assert_law:
  assumes "f5_issued app i pc f"
  shows "f5_asserted app i pc (btb_assert \<lparr>rp_Runner = i, rp_Pc = pc\<rparr> f)"
proof (cases "IsUnconditionalBranch (instructionType i)")
  case True
  then have cond: "\<not> IsConditionalBranch (instructionType i)"
    by (auto simp: instruction_class_defs)
  show ?thesis
  proof (cases "btb_get (bu_btb f) pc")
    case None
    with True cond assms show ?thesis
      by (simp add: f5_asserted_def f5_issued_def btb_assert_def f5_ok_def)
  next
    case (Some t)
    then have "code_address app t" using assms True by (auto simp: f5_issued_def f5_ok_def targets_ok_def)
    with Some True cond assms show ?thesis
      by (simp add: f5_asserted_def f5_issued_def btb_assert_def f5_ok_def fetch_ok_reset)
  qed
next
  case False
  have view: "f5_view (f\<lparr>bu5_toCheck := b, bu5_expectation := e\<rparr>) = f5_view f"
    "f5_view (f\<lparr>bu5_toCheck := b\<rparr>) = f5_view f" for b e
    by (simp_all add: f5_view_def f5_decoding_def)
  from False assms show ?thesis
    by (simp add: f5_asserted_def f5_issued_def btb_assert_def f5_fetching_def f5_ok_def view)
qed

text \<open>A resolved jump leaves an empty front that fetches from its target.\<close>

lemma mvp5_restart:
  assumes "f5_ok app f" and "\<not> f5_pending f" and "SimpleBus_contents (f5_executeBus f) = []"
    and "SimpleBus_contents (f5_decoding f) = []"
  shows "f5_fetching app (fu_pc (f5_fetchUnit f)) f"
  using assms
  by (simp add: f5_fetching_def jumps_last_def f4_fetching_def f4_queue_def f5_ok_def)

lemma mvp5_jump_resolved:
  assumes "f5_issued app i pc f" and "IsUnconditionalBranch (instructionType i)"
    and "code_address app (NextPc exe)"
  shows "\<exists>f'. mvp5_front_resolved \<lparr>rp_Runner = i, rp_Pc = pc\<rparr> exe f = Inr f'
    \<and> f5_fetching app (NextPc exe) f'"
proof -
  have f: "f5_ok app f" "SimpleBus_contents (f5_executeBus f) = []"
    using assms(1,2) by (simp_all add: f5_issued_def)
  then have "targets_ok app (bu_btb f)" by (simp add: f5_ok_def)
  from targets_ok_add [OF this assms(3)] obtain b where
    b: "btb_add (bu_btb f) pc (NextPc exe) = Inr b" "targets_ok app b" by blast
  let ?f = "f\<lparr>bu_btb := b, f5_fetchUnit := fetchUnit_reset (NextPc exe) True (f5_fetchUnit f),
      f5_decodeUnit := decodeUnit_notifyBranchResolved (f5_decodeUnit f)\<rparr>"
  have "f5_fetching app (fu_pc (f5_fetchUnit ?f)) ?f"
    using f b(2) assms(3) fetch_ok_reset [of app "f5_fetchUnit f" "NextPc exe"]
    by (intro mvp5_restart)
      (simp_all add: f5_ok_def decodeUnit_notifyBranchResolved_def f5_decoding_def fetchUnit_reset_def
        SimpleBus_contents_def newSimpleBus_def)
  with b(1) assms(2) show ?thesis
    by (simp add: mvp5_front_resolved_def notifyJumpAddressResolved_def fetchUnit_reset_def)
qed

lemma f5_fetching_check [simp]: "f5_fetching app pc (f\<lparr>bu5_toCheck := b\<rparr>) = f5_fetching app pc f"
proof -
  have "f5_view (f\<lparr>bu5_toCheck := b\<rparr>) = f5_view f"
    by (simp add: f5_view_def f5_decoding_def)
  then show ?thesis by (simp add: f5_fetching_def f5_ok_def)
qed

lemma f5_fetching_flushable: "f5_fetching app pc f \<Longrightarrow> f5_flushable app f"
  by (simp add: f5_fetching_def f5_ok_def f5_flushable_def fetch_ok_def)

lemma mvp5_resolved_law:
  assumes "f5_asserted app i pc f"
    and run: "Run (runner i noForward) ctx (Labels app) pc memory = Inr (ctx', exe)"
    and "instructionType i \<noteq> Bltu" and "PcChange exe \<longrightarrow> code_address app (NextPc exe)"
  shows "\<exists>f'. mvp5_front_resolved \<lparr>rp_Runner = i, rp_Pc = pc\<rparr> exe f = Inr f'
    \<and> (if PcChange exe
       then (case btb_shouldFlushPipeline (NextPc exe) f' of (flush, f'') \<Rightarrow>
         if flush then f5_flushable app f'' else f5_fetching app (NextPc exe) f'')
       else f5_fetching app (pc + 4) f')"
proof (cases "IsUnconditionalBranch (instructionType i)")
  case True
  then have change: "PcChange exe" by (rule run_class(5) [OF run])
  have "f5_issued app i pc f" using assms(1) by (simp add: f5_asserted_def)
  from mvp5_jump_resolved [OF this True, of exe] assms(4) change obtain f' where
    f': "mvp5_front_resolved \<lparr>rp_Runner = i, rp_Pc = pc\<rparr> exe f = Inr f'" "f5_fetching app (NextPc exe) f'"
    by blast
  then have "f5_flushable app (f'\<lparr>bu5_toCheck := False\<rparr>)"
    using f5_fetching_flushable [of app "NextPc exe" "f'\<lparr>bu5_toCheck := False\<rparr>"] by simp
  with f' change show ?thesis
    by (simp add: btb_shouldFlushPipeline_def)
next
  case False
  have same: "mvp5_front_resolved \<lparr>rp_Runner = i, rp_Pc = pc\<rparr> exe f = Inr f"
    using False by (simp add: mvp5_front_resolved_def)
  have fetching: "f5_fetching app (pc + 4) f"
    using assms(1) False by (simp add: f5_asserted_def f5_issued_def)
  show ?thesis
  proof (cases "PcChange exe")
    case False
    with same fetching show ?thesis by simp
  next
    case True
    then have "IsConditionalBranch (instructionType i)"
      using run_class(4) [OF run] assms(3) False by (simp add: IsBranch_def)
    then have "bu5_toCheck f" "bu5_expectation f = pc + 4"
      using assms(1) by (simp_all add: f5_asserted_def)
    moreover have "f5_flushable app (f\<lparr>bu5_toCheck := False\<rparr>)"
      using f5_fetching_flushable [of app "pc + 4" "f\<lparr>bu5_toCheck := False\<rparr>"] fetching by simp
    ultimately show ?thesis
      using same fetching True by (auto simp: btb_shouldFlushPipeline_def)
  qed
qed

lemma mvp5_flush_law:
  assumes "f5_flushable app f" and "code_address app pc"
  shows "f5_fetching app pc (mvp5_front_flush pc f)"
proof -
  have "f5_fetching app (fu_pc (f5_fetchUnit (mvp5_front_flush pc f))) (mvp5_front_flush pc f)"
    using assms
    by (intro mvp5_restart)
      (simp_all add: f5_ok_def f5_flushable_def mvp5_front_flush_def fetch_ok_def fetchUnit_flush_def
        code_address_def decodeUnit_flush_def f5_decoding_def SimpleBus_contents_def newSimpleBus_def
        SimpleBus_Flush_def)
  then show ?thesis by (simp add: mvp5_front_flush_def fetchUnit_flush_def)
qed

interpretation mvp5: front_laws mvp5_fe app "f5_fetching app" "f5_issued app" "f5_asserted app"
    "f5_flushable app" f5_distance for app
proof (unfold_locales, goal_cases)
  case (1 i pc f)
  then show ?case by (auto simp: f5_issued_def f5_fetching_def f5_ok_def split: if_splits)
next
  case (2 pc f u mem)
  from mvp5_fetching_law [OF 2] show ?case
    unfolding mvp5_fe_def front_end.simps .
next
  case (3 i pc f u mem)
  from mvp5_issued_cycle [OF 3] show ?case by (auto simp: mvp5_fe_def)
next
  case (4 i pc f u mem)
  then have "f5_issued app i pc f" by (simp add: f5_asserted_def)
  from mvp5_issued_cycle [OF this 4(2)] 4(1) show ?case
    by (auto simp: mvp5_fe_def f5_asserted_def same_branch_unit_def)
next
  case (5 i pc f)
  then show ?case by (simp add: mvp5_fe_def mvp5_assert_law)
next
  case (6 i pc f)
  then show ?case by (simp add: f5_asserted_def)
next
  case (7 i pc f)
  then show ?case by (simp add: f5_asserted_def f5_issued_def)
next
  case (8 i pc f ctx memory ctx' exe)
  from mvp5_resolved_law [OF 8] show ?case
    unfolding mvp5_fe_def front_end.simps .
next
  case (9 f pc)
  then show ?case by (simp add: mvp5_fe_def mvp5_flush_law)
next
  case (10 pc f)
  then show ?case by (simp add: mvp5_fe_def mvp5_not_empty)
next
  case (11 pc f)
  then show ?case by (rule f5_distance_bound)
next
  case (12 eu)
  then show ?case by (simp add: mvp5_fe_def executeUnit_flush_def eu_idle_def)
qed

lemma mvp5_newFront_fetching:
  assumes "supported app" and "Instructions app \<noteq> []"
  shows "f5_fetching app 0 mvp5_newFront"
proof -
  have "sint (of_nat (length (Instructions app)) :: int32) = int (length (Instructions app))"
    using assms(1) by (intro sint32_of_nat) (simp add: supported_def)
  then have "pc_in_app app 0"
    using assms(2) by (simp add: pc_in_app_def word_sless_alt quot32_def)
  then have "f5_fetching app (fu_pc (f5_fetchUnit mvp5_newFront)) mvp5_newFront"
    using assms(1)
    by (intro mvp5_restart)
      (simp_all add: f5_ok_def mvp5_newFront_def mvp5_newFetchUnit_def newSimpleBus_def f5_decoding_def
        SimpleBus_contents_def fetch_ok_def cyclesMemoryAccess_def targets_ok_def btb_ok_new
        newBranchTargetBuffer_def btb_ok_def btb_get_def)
  then show ?thesis
    by (simp add: mvp5_newFront_def mvp5_newFetchUnit_def)
qed

lemma mvp5_run_follows:
  assumes "n < 2 ^ 31" and "mvp5_NewCPU debug n = Inr m" and "supported app" and "Instructions app \<noteq> []"
    and "along (pipeline_disciplined mvp5_fe app) (mvp5_step app) (fuel * 400) (Running, m)"
    and "run_loop (arch_step Done app) fuel (0, NewContext debug n) = Some (Inr ctx)"
  shows "\<exists>m'. mvp5_Run (fuel * 400) m app = Some (Inr m')
    \<and> map_get (Registers (pl_ctx m')) = map_get (Registers ctx) \<and> Memory (pl_ctx m') = Memory ctx"
proof -
  let ?ctx = "NewContext debug n"
  from newMemoryManagementUnit_ok [of "Memory ?ctx"] assms(1) obtain u where
    u: "newMemoryManagementUnit = Inr u" "mmu_ok u (Memory ?ctx)" "seen u (Memory ?ctx) = Memory ?ctx"
    by (auto simp: NewContext_def)
  note front = mvp5_newFront_fetching [OF assms(3,4)]
  have m: "m = \<lparr>pl_ctx = ?ctx, pl_front = mvp5_newFront, pl_executeUnit = newExecuteUnit,
      pl_writeBus = newSimpleBus, pl_writeUnit = newWriteUnit, pl_mmu = u, pl_cycle = 0\<rparr>"
    using assms(2) by (simp add: mvp5_NewCPU_def u(1))
  have "mvp5.sim app (Running, m) (0, ?ctx)"
    using mvp5.sim_start [OF u(2,3) _ front] by (simp add: NewContext_def m)
  from mvp5.runs.run_follows [OF this _ assms(6)] assms(5) show ?thesis
    by (auto simp: mvp5_Run_def mvp5_step_def mvp5.result_ok_def)
qed

end
