(* ===== verification/PipelineRuns.thy ===== *)
theory PipelineRuns
  imports Mvp5
begin

text \<open>
  Concrete runs of MVP-4 and MVP-5. Every run starts with a miss in the instruction cache, a wait of 50
  cycles in which only a counter changes; \<open>run_after_wait\<close> skips it, and the rest of a run is evaluated.
\<close>

section \<open>Waiting for the first instruction\<close>

definition front_waits :: "'f pipeline \<Rightarrow> bool" where
  "front_waits m \<longleftrightarrow> \<not> eu_processing (pl_executeUnit m) \<and> \<not> eu_pendingMemoryRead (pl_executeUnit m)
     \<and> pl_writeBus m = newSimpleBus \<and> \<not> wu_pendingMemoryWrite (pl_writeUnit m)"

lemma pipeline_waits:
  assumes "front_waits m" and "fe_cycle fe app (pl_front m) (pl_mmu m) = Inr (f, pl_mmu m)"
    and "fe_get fe f = (None, g)" and "\<not> fe_isEmpty fe g"
  shows "pipeline_step fe app (Running, m) =
      Inr (Continue (Running, m\<lparr>pl_cycle := pl_cycle m + 1, pl_front := g\<rparr>))"
    and "pipeline_disciplined fe app (Running, m)"
  using assms
  by (simp_all add: front_waits_def pipeline_step_def pipeline_front_def pipeline_disciplined_def
      eu_cycle_def eu_prepare_def eu_take_def read_disciplined_def wu_cycle_def Let_def
      SimpleBus_Get_def newSimpleBus_def pipeline_isComplete_def)

text \<open>\<open>tick k f\<close> is the front that still waits for \<open>k\<close> cycles.\<close>

definition counts_down :: "'f front_end \<Rightarrow> app \<Rightarrow> (int \<Rightarrow> 'f \<Rightarrow> 'f) \<Rightarrow> 'f pipeline \<Rightarrow> bool" where
  "counts_down fe app tick m \<longleftrightarrow> front_waits m \<and> tick 49 (pl_front m) = pl_front m
     \<and> (\<forall>k > 1. fe_cycle fe app (tick k (pl_front m)) (pl_mmu m) = Inr (tick (k - 1) (pl_front m), pl_mmu m))
     \<and> (\<forall>k. fe_get fe (tick k (pl_front m)) = (None, tick k (pl_front m))
          \<and> \<not> fe_isEmpty fe (tick k (pl_front m)))"

definition after_wait :: "(int \<Rightarrow> 'f \<Rightarrow> 'f) \<Rightarrow> int \<Rightarrow> int \<Rightarrow> 'f pipeline \<Rightarrow> 'f pipeline" where
  "after_wait tick k c m = m\<lparr>pl_cycle := c, pl_front := tick k (pl_front m)\<rparr>"

lemma after_wait_step:
  assumes "counts_down fe app tick m" and "1 < k"
  shows "pipeline_step fe app (Running, after_wait tick k c m) =
      Inr (Continue (Running, after_wait tick (k - 1) (c + 1) m))"
    and "pipeline_disciplined fe app (Running, after_wait tick k c m)"
proof -
  have "front_waits (after_wait tick k c m)"
    using assms(1) by (simp add: counts_down_def front_waits_def after_wait_def)
  from pipeline_waits [OF this, of fe app "tick (k - 1) (pl_front m)" "tick (k - 1) (pl_front m)"] assms
  show "pipeline_step fe app (Running, after_wait tick k c m) =
      Inr (Continue (Running, after_wait tick (k - 1) (c + 1) m))"
    and "pipeline_disciplined fe app (Running, after_wait tick k c m)"
    by (simp_all add: counts_down_def after_wait_def)
qed

lemma disciplined_wait:
  assumes "counts_down fe app tick m"
    and "along_ends (pipeline_disciplined fe app) (pipeline_step fe app) n
      (Running, after_wait tick 1 (c + int k) m)"
  shows "along_ends (pipeline_disciplined fe app) (pipeline_step fe app) (k + n)
    (Running, after_wait tick (1 + int k) c m)"
  using assms(2)
proof (induction k arbitrary: c)
  case (Suc k)
  have "1 < 1 + int (Suc k)" by simp
  note step = after_wait_step [OF assms(1) this, of c]
  from Suc.IH [of "c + 1"] Suc.prems step show ?case
    by (simp add: ac_simps)
qed simp

lemma run_wait:
  assumes "counts_down fe app tick m"
  shows "run_loop (pipeline_step fe app) (k + n) (Running, after_wait tick (1 + int k) c m) =
    run_loop (pipeline_step fe app) n (Running, after_wait tick 1 (c + int k) m)"
proof (induction k arbitrary: c)
  case (Suc k)
  have "1 < 1 + int (Suc k)" by simp
  note step = after_wait_step [OF assms(1) this, of c]
  from Suc.IH [of "c + 1"] step show ?case
    by (simp add: ac_simps)
qed simp

lemma first_wait:
  assumes "pipeline_step fe app (Running, m) = Inr (Continue (Running, w))" and "counts_down fe app tick w"
  shows "run_loop (pipeline_step fe app) (49 + n) (Running, m) =
      run_loop (pipeline_step fe app) n (Running, after_wait tick 1 (pl_cycle w + 48) w)"
    and "pipeline_disciplined fe app (Running, m) \<Longrightarrow>
      along_ends (pipeline_disciplined fe app) (pipeline_step fe app) n
        (Running, after_wait tick 1 (pl_cycle w + 48) w) \<Longrightarrow>
      along_ends (pipeline_disciplined fe app) (pipeline_step fe app) (49 + n) (Running, m)"
proof -
  have w: "after_wait tick 49 (pl_cycle w) w = w"
    using assms(2) by (simp add: counts_down_def after_wait_def)
  have n: "49 + n = Suc (48 + n)" by simp
  show "run_loop (pipeline_step fe app) (49 + n) (Running, m) =
      run_loop (pipeline_step fe app) n (Running, after_wait tick 1 (pl_cycle w + 48) w)"
    using run_wait [OF assms(2), of 48 n "pl_cycle w"] w
    by (simp only: n run_loop.simps assms(1)) simp
  show "pipeline_disciplined fe app (Running, m) \<Longrightarrow>
      along_ends (pipeline_disciplined fe app) (pipeline_step fe app) n
        (Running, after_wait tick 1 (pl_cycle w + 48) w) \<Longrightarrow>
      along_ends (pipeline_disciplined fe app) (pipeline_step fe app) (49 + n) (Running, m)"
    using disciplined_wait [OF assms(2), of n "pl_cycle w" 48] w
    by (simp only: n along_ends.simps assms(1)) simp
qed

section \<open>The fronts count down\<close>

definition tick4 :: "int \<Rightarrow> mvp4_front \<Rightarrow> mvp4_front" where
  "tick4 k f = f\<lparr>f4_fetchUnit := (f4_fetchUnit f)\<lparr>fu_remainingCycles := k\<rparr>\<rparr>"

definition waiting4 :: "mvp4 \<Rightarrow> bool" where
  "waiting4 m \<longleftrightarrow> (let f = pl_front m; fu = f4_fetchUnit f in
     front_waits m \<and> fu_remainingCycles fu = 49 \<and> fu_processing fu \<and> \<not> fu_complete fu
     \<and> f4_decodeBus f = newSimpleBus \<and> f4_executeBus f = newSimpleBus)"

definition tick5 :: "int \<Rightarrow> mvp5_front \<Rightarrow> mvp5_front" where
  "tick5 k f = f\<lparr>f5_fetchUnit := (f5_fetchUnit f)\<lparr>fu_remainingCycles := k\<rparr>\<rparr>"

definition waiting5 :: "mvp5 \<Rightarrow> bool" where
  "waiting5 m \<longleftrightarrow> (let f = pl_front m; fu = f5_fetchUnit f in
     front_waits m \<and> fu_remainingCycles fu = 49 \<and> fu_processing fu \<and> \<not> fu_complete fu
     \<and> \<not> fu_toCleanPending fu \<and> f5_decodeBus f = newSimpleBus \<and> f5_executeBus f = newSimpleBus)"

lemmas waiting_defs =
  counts_down_def Let_def fetchUnit_cycle_def fetch_start_def fetch_advance_def
  SimpleBus_Get_def SimpleBus_CanAdd_def newSimpleBus_def

lemma waiting4_counts_down: "waiting4 m \<Longrightarrow> counts_down mvp4_fe app tick4 m"
  by (simp add: waiting_defs waiting4_def tick4_def mvp4_fe_def mvp4_front_cycle_def
      mvp4_decodeUnit_cycle_def mvp4_front_get_def mvp4_front_isEmpty_def)

lemma waiting5_counts_down: "waiting5 m \<Longrightarrow> counts_down mvp5_fe app tick5 m"
  by (simp add: waiting_defs waiting5_def tick5_def mvp5_fe_def mvp5_front_cycle_def
      mvp5_fetchUnit_cycle_def mvp5_decodeUnit_cycle_def mvp5_front_get_def mvp5_front_isEmpty_def)

section \<open>Programs\<close>

definition jump_demo :: app where
  "jump_demo =
     \<lparr>Instructions = [I_li T0 7, I_j ''a'', I_li T0 9, I_add T1 T0 T0], Labels = [''a'' \<mapsto> 12]\<rparr>"

lemma jump_demo_ok: "supported jump_demo" "Instructions jump_demo \<noteq> []"
  by (simp_all add: jump_demo_def supported_def op_defs)

lemma jump_demo_arch:
  "\<exists>ctx. run_loop (arch_step Done jump_demo) 4 (0, NewContext False 8) = Some (Inr ctx)"
proof -
  have "case run_loop (arch_step Done jump_demo) 4 (0, NewContext False 8) of
      Some (Inr ctx) \<Rightarrow> True | _ \<Rightarrow> False"
    by code_simp
  then show ?thesis by (auto split: option.splits sum.splits)
qed

lemma jump_demo_mvp4:
  "\<exists>m. mvp4_NewCPU False 8 = Inr m
    \<and> along (pipeline_disciplined mvp4_fe jump_demo) (mvp4_step jump_demo) (4 * 400) (Running, m)"
proof -
  have "case mvp4_NewCPU False 8 of
      Inr m \<Rightarrow> pipeline_disciplined mvp4_fe jump_demo (Running, m)
        \<and> (case pipeline_step mvp4_fe jump_demo (Running, m) of
            Inr (Continue (mode, w)) \<Rightarrow> mode = Running \<and> waiting4 w
              \<and> along_ends (pipeline_disciplined mvp4_fe jump_demo) (pipeline_step mvp4_fe jump_demo) 20
                (Running, after_wait tick4 1 (pl_cycle w + 48) w)
          | _ \<Rightarrow> False)
    | Inl _ \<Rightarrow> False"
    by code_simp
  then obtain m w where m: "mvp4_NewCPU False 8 = Inr m" "pipeline_disciplined mvp4_fe jump_demo (Running, m)"
    and w: "pipeline_step mvp4_fe jump_demo (Running, m) = Inr (Continue (Running, w))" "waiting4 w"
      "along_ends (pipeline_disciplined mvp4_fe jump_demo) (pipeline_step mvp4_fe jump_demo) 20
        (Running, after_wait tick4 1 (pl_cycle w + 48) w)"
    by (auto split: sum.splits outcome.splits prod.splits)
  from first_wait(2) [OF w(1) waiting4_counts_down [OF w(2)] m(2) w(3)]
    along_ends [of _ _ "49 + 20" _ "4 * 400"] m(1) show ?thesis
    by (auto simp: mvp4_step_def)
qed

lemma jump_demo_mvp5:
  "\<exists>m. mvp5_NewCPU False 8 = Inr m
    \<and> along (pipeline_disciplined mvp5_fe jump_demo) (mvp5_step jump_demo) (4 * 400) (Running, m)"
proof -
  have "case mvp5_NewCPU False 8 of
      Inr m \<Rightarrow> pipeline_disciplined mvp5_fe jump_demo (Running, m)
        \<and> (case pipeline_step mvp5_fe jump_demo (Running, m) of
            Inr (Continue (mode, w)) \<Rightarrow> mode = Running \<and> waiting5 w
              \<and> along_ends (pipeline_disciplined mvp5_fe jump_demo) (pipeline_step mvp5_fe jump_demo) 20
                (Running, after_wait tick5 1 (pl_cycle w + 48) w)
          | _ \<Rightarrow> False)
    | Inl _ \<Rightarrow> False"
    by code_simp
  then obtain m w where m: "mvp5_NewCPU False 8 = Inr m" "pipeline_disciplined mvp5_fe jump_demo (Running, m)"
    and w: "pipeline_step mvp5_fe jump_demo (Running, m) = Inr (Continue (Running, w))" "waiting5 w"
      "along_ends (pipeline_disciplined mvp5_fe jump_demo) (pipeline_step mvp5_fe jump_demo) 20
        (Running, after_wait tick5 1 (pl_cycle w + 48) w)"
    by (auto split: sum.splits outcome.splits prod.splits)
  from first_wait(2) [OF w(1) waiting5_counts_down [OF w(2)] m(2) w(3)]
    along_ends [of _ _ "49 + 20" _ "4 * 400"] m(1) show ?thesis
    by (auto simp: mvp5_step_def)
qed

section \<open>Departures from the architecture\<close>

text \<open>\<open>ret\<close> leaves the main loop while writes are in flight.\<close>

definition ret_demo :: app where
  "ret_demo = \<lparr>Instructions = [I_li T0 1, I_sw T0 0 Zero, I_li T1 3, I_ret], Labels = Map.empty\<rparr>"

definition returns_with :: "RegisterType \<Rightarrow> int32 \<Rightarrow> 'f pipeline result option \<Rightarrow> bool" where
  "returns_with r v res \<longleftrightarrow>
     (case res of Some (Inr m) \<Rightarrow> map_get (Registers (pl_ctx m)) r = v | _ \<Rightarrow> False)"

lemma ret_loses_write:
  "\<exists>m. mvp4_NewCPU False 8 = Inr m \<and> returns_with T1 0 (mvp4_Run (49 + 12) m ret_demo)"
proof -
  have "case mvp4_NewCPU False 8 of
      Inr m \<Rightarrow> (case pipeline_step mvp4_fe ret_demo (Running, m) of
          Inr (Continue (mode, w)) \<Rightarrow> mode = Running \<and> waiting4 w
            \<and> returns_with T1 0 (run_loop (pipeline_step mvp4_fe ret_demo) 12
                (Running, after_wait tick4 1 (pl_cycle w + 48) w))
        | _ \<Rightarrow> False)
    | Inl _ \<Rightarrow> False"
    by code_simp
  then obtain m w where "mvp4_NewCPU False 8 = Inr m"
      "pipeline_step mvp4_fe ret_demo (Running, m) = Inr (Continue (Running, w))" "waiting4 w"
      "returns_with T1 0 (run_loop (pipeline_step mvp4_fe ret_demo) 12
        (Running, after_wait tick4 1 (pl_cycle w + 48) w))"
    by (auto split: sum.splits outcome.splits prod.splits)
  with first_wait(1) [OF _ waiting4_counts_down, of ret_demo m w 12] show ?thesis
    by (auto simp: mvp4_Run_def mvp4_step_def)
qed

lemma ret_keeps_write:
  "\<exists>ctx. run_loop (arch_step Done ret_demo) 4 (0, NewContext False 8) = Some (Inr ctx)
    \<and> map_get (Registers ctx) T1 = 3"
proof -
  have "case run_loop (arch_step Done ret_demo) 4 (0, NewContext False 8) of
      Some (Inr ctx) \<Rightarrow> map_get (Registers ctx) T1 = 3 | _ \<Rightarrow> False"
    by code_simp
  then show ?thesis by (auto split: option.splits sum.splits)
qed

text \<open>After a flush the fetch unit delivers the address of a label at the end of the program, and the
  decode unit reads the program there.\<close>

definition end_demo :: app where
  "end_demo = \<lparr>Instructions = [I_j ''end'', I_nop], Labels = [''end'' \<mapsto> 8]\<rparr>"

definition index_panic :: "'f pipeline result option \<Rightarrow> bool" where
  "index_panic res \<longleftrightarrow> (case res of Some (Inl e) \<Rightarrow> e = Panic IndexOutOfRange | _ \<Rightarrow> False)"

lemma index_panic_iff [simp]: "index_panic res \<longleftrightarrow> res = Some (Inl (Panic IndexOutOfRange))"
  by (simp add: index_panic_def split: option.splits sum.splits)

lemma end_panics_mvp4:
  "\<exists>m. mvp4_NewCPU False 8 = Inr m \<and> index_panic (mvp4_Run (49 + 20) m end_demo)"
proof -
  have "case mvp4_NewCPU False 8 of
      Inr m \<Rightarrow> (case pipeline_step mvp4_fe end_demo (Running, m) of
          Inr (Continue (mode, w)) \<Rightarrow> mode = Running \<and> waiting4 w
            \<and> index_panic (run_loop (pipeline_step mvp4_fe end_demo) 20
                (Running, after_wait tick4 1 (pl_cycle w + 48) w))
        | _ \<Rightarrow> False)
    | Inl _ \<Rightarrow> False"
    by code_simp
  then obtain m w where "mvp4_NewCPU False 8 = Inr m"
      "pipeline_step mvp4_fe end_demo (Running, m) = Inr (Continue (Running, w))" "waiting4 w"
      "index_panic (run_loop (pipeline_step mvp4_fe end_demo) 20
        (Running, after_wait tick4 1 (pl_cycle w + 48) w))"
    by (auto split: sum.splits outcome.splits prod.splits)
  with first_wait(1) [OF _ waiting4_counts_down, of end_demo m w 20] show ?thesis
    by (auto simp: mvp4_Run_def mvp4_step_def)
qed

lemma end_panics_mvp5:
  "\<exists>m. mvp5_NewCPU False 8 = Inr m \<and> index_panic (mvp5_Run (49 + 20) m end_demo)"
proof -
  have "case mvp5_NewCPU False 8 of
      Inr m \<Rightarrow> (case pipeline_step mvp5_fe end_demo (Running, m) of
          Inr (Continue (mode, w)) \<Rightarrow> mode = Running \<and> waiting5 w
            \<and> index_panic (run_loop (pipeline_step mvp5_fe end_demo) 20
                (Running, after_wait tick5 1 (pl_cycle w + 48) w))
        | _ \<Rightarrow> False)
    | Inl _ \<Rightarrow> False"
    by code_simp
  then obtain m w where "mvp5_NewCPU False 8 = Inr m"
      "pipeline_step mvp5_fe end_demo (Running, m) = Inr (Continue (Running, w))" "waiting5 w"
      "index_panic (run_loop (pipeline_step mvp5_fe end_demo) 20
        (Running, after_wait tick5 1 (pl_cycle w + 48) w))"
    by (auto split: sum.splits outcome.splits prod.splits)
  with first_wait(1) [OF _ waiting5_counts_down, of end_demo m w 20] show ?thesis
    by (auto simp: mvp5_Run_def mvp5_step_def)
qed

lemma end_returns:
  "\<exists>ctx. run_loop (arch_step Done end_demo) 2 (0, NewContext False 8) = Some (Inr ctx)"
proof -
  have "case run_loop (arch_step Done end_demo) 2 (0, NewContext False 8) of
      Some (Inr ctx) \<Rightarrow> True | _ \<Rightarrow> False"
    by code_simp
  then show ?thesis by (auto split: option.splits sum.splits)
qed

end
