(* ===== verification/Mvp60Runs.thy ===== *)
theory Mvp60Runs
  imports Flights60 Waiting PipelineRuns
begin

text \<open>
  Runs of MVP-6.0: the loop after a \<open>ret\<close> ends, and concrete programs on which the processor departs
  from the architecture. As in \<open>PipelineRuns\<close>, the first 50 cycles, in which only counters change, are
  skipped by a lemma.
\<close>

section \<open>The times on the write bus\<close>

lemma on_cu60_later [simp]: "later (on_cu60 g m) m"
  by (simp add: on_cu60_def later_def)

interpretation later_control: control60_property "\<lambda>m'. later m' m" for m
proof
  fix m1 :: cpu60 and g b r
  assume m1: "later m1 m"
  then show "later (on_cu60 g m1) m" and "later (m1\<lparr>c_controlBus := b\<rparr>) m" and "later (pushRunner60 r m1) m"
    by (simp_all add: later_def on_cu60_def pushRunner60_def)
qed

interpretation later60: unit_steps60 later
  by unfold_locales (simp add: later_def)

interpretation w60: writing_units units60
proof
  fix app :: app and m m' :: cpu60 and k r
  show "un_decode units60 app m = Inr m' \<Longrightarrow> later m' m"
    using decodeUnit6_later [of "\<lambda>pc m. m"] by (simp add: units60_def)
  show "later (un_control units60 m) m"
    by (simp add: units60_def later_control.cycle)
  show "later (un_flushControl units60 m) m"
    by (simp add: units60_def controlUnit60_flush_def)
  show "un_execute units60 k app m = Inr (r, m') \<Longrightarrow> later m' m"
    by (simp add: units60_def later60.executeUnit60_step)
qed

lemma mvp60_new_times:
  "mvp60_NewCPU debug n = Inr m \<Longrightarrow> times_ok m"
  by (auto simp: mvp60_NewCPU_def newCPU6_def times_ok_def NewBufferedBus_def)

lemma mvp60_reaches_modes: "mvp60_reaches app debug n s \<Longrightarrow> modes_ok s"
proof (induction rule: mvp60_reaches.induct)
  case (start m)
  then show ?case using mvp60_new_times by (simp add: modes_ok_def)
next
  case (step s s')
  from w60.step_modes_ok [OF step.IH step.hyps(2) [unfolded mvp60_step_def]] show ?case .
qed

section \<open>Waiting for the first instruction\<close>

definition idle_cu60 :: "controlUnit60 \<Rightarrow> bool" where
  "idle_cu60 cu \<longleftrightarrow> Queue_Iterator (cu_pendings cu) = []"

definition tick_cu60 :: "int \<Rightarrow> controlUnit60 \<Rightarrow> controlUnit60" where
  "tick_cu60 k cu = (let push = (\<lambda>g. g\<lparr>gauge_count := gauge_count g + k\<rparr>) in
     cu\<lparr>cu_pushed := push (cu_pushed cu), cu_pending := push (cu_pending cu),
        cu_pendingRead := push (cu_pendingRead cu), cu_blocked := push (cu_blocked cu),
        cu_total := cu_total cu + k\<rparr>)"

lemma incoming60_empty: "bb_queue (c_controlBus m) = [] \<Longrightarrow> incoming60_loop i n m = (n, m)"
  by (subst incoming60_loop.simps) (simp add: Get_empty)

interpretation idle60: idle_units units60 cu_pendings idle_cu60 tick_cu60
proof
  fix m :: cpu60 and app and i :: nat
  show "un_decode units60 app m = Inr (m\<lparr>c_decodeUnit := tick_du 1 (c_decodeUnit m)\<rparr>)"
    if "bb_queue (c_decodeBus m) = []"
    using that by (simp add: units60_def decodeUnit6_idle)
  show "un_control units60 m = m\<lparr>c_controlUnit := tick_cu60 1 (c_controlUnit m)\<rparr>"
    if "idle_cu60 (c_controlUnit m)" "bb_queue (c_controlBus m) = []" "BufferedBus_CanAdd (c_executeBus m)"
    using that
    by (simp add: units60_def controlUnit60_cycle_def controlUnit60_work_def incoming60_empty idle_cu60_def
        tick_cu60_def on_cu60_def BufferedBus_PendingRead_def BufferedBus_CanGet_def push_nothing Let_def
        Queue_Length_def Queue_Iterator_def)
  show "un_execute units60 i app m = Inr (noResp, m)"
    if "eu6_coroutine (c_executeUnits m ! i) = None" "bb_queue (c_executeBus m) = []"
    using that by (simp add: units60_def executeUnit60_cycle_def Get_empty Let_def)
qed (simp_all add: tick_cu60_def idle_cu60_def Let_def ac_simps)

definition state60_after :: "nat \<Rightarrow> app \<Rightarrow> (mode6 \<times> cpu60) option" where
  "state60_after = state_after (mvp60_NewCPU False 8) units60 cu_pendings idle_cu60 tick_cu60"

lemma reaches_continues:
  "mvp60_reaches app debug n s \<Longrightarrow> continues (mvp60_step app) k s = Some s' \<Longrightarrow> mvp60_reaches app debug n s'"
  by (induction k arbitrary: s) (auto split: sum.splits outcome.splits intro: mvp60_reaches.step)

lemma state60_after:
  assumes "state60_after k app = Some s"
  obtains m where "mvp60_NewCPU False 8 = Inr m" and "mvp60_reaches app False 8 s"
    and "\<And>n. mvp60_Run (50 + (k + n)) m app = run_loop (mvp60_step app) n s"
proof -
  from idle60.state_after [OF assms [unfolded state60_after_def]] obtain m where
    m: "mvp60_NewCPU False 8 = Inr m" and s: "continues (mvp60_step app) (50 + k) (Cycling, m) = Some s"
    and run: "\<And>n. mvp60_Run (50 + (k + n)) m app = run_loop (mvp60_step app) n s"
    by (auto simp: mvp60_step_def mvp60_Run_def)
  from reaches_continues [OF mvp60_reaches.start [OF m] s] m run that show thesis by blast
qed

section \<open>Programs\<close>

text \<open>A \<open>ret\<close> that is issued together with a branch before it: the branch is taken, but the processor
  returns.\<close>

definition spec_ret :: app where
  "spec_ret = \<lparr>Instructions = [I_nop, I_beqz Zero ''l'', I_ret, I_li T1 1, I_nop], Labels = [''l'' \<mapsto> 12]\<rparr>"

definition returns60 :: "RegisterType \<Rightarrow> int32 \<Rightarrow> cpu60 result option \<Rightarrow> bool" where
  "returns60 r v res \<longleftrightarrow> (case res of Some (Inr m) \<Rightarrow> map_get (Registers (c_ctx m)) r = v | _ \<Rightarrow> False)"

lemma returns60_iff: "returns60 r v res \<longleftrightarrow> (\<exists>m. res = Some (Inr m) \<and> map_get (Registers (c_ctx m)) r = v)"
  by (auto simp: returns60_def split: option.splits sum.splits)

lemma spec_ret_run:
  "case state60_after 5 spec_ret of None \<Rightarrow> False | Some (mode, m) \<Rightarrow> mode = Returning
    \<and> returns60 T1 0 (run_loop (mvp60_step spec_ret) 3 (mode, m))"
  by code_simp

lemma spec_ret_returns:
  "\<exists>m. mvp60_reaches spec_ret False 8 (Returning, m)"
  "\<exists>m m'. mvp60_NewCPU False 8 = Inr m \<and> mvp60_Run 58 m spec_ret = Some (Inr m')
    \<and> map_get (Registers (c_ctx m')) T1 = 0"
proof -
  from spec_ret_run obtain m1 m' where s: "state60_after 5 spec_ret = Some (Returning, m1)"
    and run: "run_loop (mvp60_step spec_ret) 3 (Returning, m1) = Some (Inr m')" "map_get (Registers (c_ctx m')) T1 = 0"
    by (auto simp: returns60_iff split: option.splits)
  from state60_after [OF s] obtain m where m: "mvp60_NewCPU False 8 = Inr m"
    and r: "mvp60_reaches spec_ret False 8 (Returning, m1)"
    and n: "mvp60_Run (50 + (5 + 3)) m spec_ret = run_loop (mvp60_step spec_ret) 3 (Returning, m1)"
    by blast
  from r show "\<exists>m. mvp60_reaches spec_ret False 8 (Returning, m)" ..
  from m n run show "\<exists>m m'. mvp60_NewCPU False 8 = Inr m \<and> mvp60_Run 58 m spec_ret = Some (Inr m')
      \<and> map_get (Registers (c_ctx m')) T1 = 0"
    by auto
qed

lemma spec_ret_arch:
  "\<exists>ctx. run_loop (arch_step Done spec_ret) 5 (0, NewContext False 8) = Some (Inr ctx) \<and> map_get (Registers ctx) T1 = 1"
proof -
  have "case run_loop (arch_step Done spec_ret) 5 (0, NewContext False 8) of
      Some (Inr ctx) \<Rightarrow> map_get (Registers ctx) T1 = 1 | _ \<Rightarrow> False"
    by code_simp
  then show ?thesis by (auto split: option.splits sum.splits)
qed

text \<open>A mispredicted branch flushes the execute units: a load before it that still waits for the memory is
  lost.\<close>

definition lost_load :: app where
  "lost_load = \<lparr>Instructions = [I_li T0 7, I_lw T0 0 Zero, I_beqz Zero ''l'', I_nop, I_nop], Labels = [''l'' \<mapsto> 16]\<rparr>"

lemma lost_load_run:
  "case state60_after 0 lost_load of None \<Rightarrow> False
    | Some s \<Rightarrow> returns60 T0 7 (run_loop (mvp60_step lost_load) 17 s)"
  by code_simp

lemma lost_load_returns:
  "\<exists>m m'. mvp60_NewCPU False 8 = Inr m \<and> mvp60_Run 67 m lost_load = Some (Inr m')
    \<and> map_get (Registers (c_ctx m')) T0 = 7"
proof -
  from lost_load_run obtain s m' where s: "state60_after 0 lost_load = Some s"
    and run: "run_loop (mvp60_step lost_load) 17 s = Some (Inr m')" "map_get (Registers (c_ctx m')) T0 = 7"
    by (auto simp: returns60_iff split: option.splits)
  from state60_after [OF s] obtain m where "mvp60_NewCPU False 8 = Inr m"
    and "mvp60_Run (50 + (0 + 17)) m lost_load = run_loop (mvp60_step lost_load) 17 s"
    by blast
  with run show ?thesis by auto
qed

lemma lost_load_arch:
  "\<exists>ctx. run_loop (arch_step Done lost_load) 5 (0, NewContext False 8) = Some (Inr ctx) \<and> map_get (Registers ctx) T0 = 0"
proof -
  have "case run_loop (arch_step Done lost_load) 5 (0, NewContext False 8) of
      Some (Inr ctx) \<Rightarrow> map_get (Registers ctx) T0 = 0 | _ \<Rightarrow> False"
    by code_simp
  then show ?thesis by (auto split: option.splits sum.splits)
qed

text \<open>Two stores keep both write units busy while a branch turns out to be mispredicted: the flush never
  ends.\<close>

definition flush_demo :: app where
  "flush_demo = \<lparr>Instructions = [I_sw Zero 0 Zero, I_sw Zero 4 Zero, I_nop, I_nop, I_beqz Zero ''e'', I_nop, I_nop],
     Labels = [''e'' \<mapsto> 24]\<rparr>"

lemma flush_demo_run:
  "case state60_after 7 flush_demo of None \<Rightarrow> False | Some (mode, m) \<Rightarrow> mode = Draining 0 16 24
    \<and> length (bb_buffer (c_writeBus m)) \<noteq> 0"
  by code_simp

lemma flush_demo_drains:
  "\<exists>m. mvp60_reaches flush_demo False 8 (Draining 0 16 24, m) \<and> bb_buffer (c_writeBus m) \<noteq> []"
  using flush_demo_run by (auto split: option.splits elim!: state60_after)

lemma flush_demo_arch:
  "\<exists>ctx. run_loop (arch_step Done flush_demo) 7 (0, NewContext False 8) = Some (Inr ctx)"
proof -
  have "case run_loop (arch_step Done flush_demo) 7 (0, NewContext False 8) of
      Some (Inr ctx) \<Rightarrow> True | _ \<Rightarrow> False"
    by code_simp
  then show ?thesis by (auto split: option.splits sum.splits)
qed

end
