(* ===== verification/Coroutine.thy ===== *)
theory Coroutine
  imports Prelude
begin

text \<open>
  \<open>src/common/coroutine/coroutine.go\<close>: the coroutines of MVP-6.1. A coroutine holds the function that it
  starts with and the one that the next \<open>Cycle\<close> calls. Functions are codes here, and \<open>call\<close> says what
  the function of a code does to the state. The processor keeps its coroutines as an option, \<open>None\<close> for
  the start function; \<open>checkpoint_of\<close> is that view, and each method is an operation on it.
\<close>

section \<open>Operations\<close>

record ('k, 'p) Coroutine =
  co_start :: 'k
  co_current :: 'k
  co_isStart :: bool
  co_pre :: "'p option"

definition co_New :: "'k \<Rightarrow> ('k, 'p) Coroutine" where
  "co_New f = \<lparr>co_start = f, co_current = f, co_isStart = True, co_pre = None\<rparr>"

definition co_Pre :: "'p \<Rightarrow> ('k, 'p) Coroutine \<Rightarrow> ('k, 'p) Coroutine" where
  "co_Pre f c = c\<lparr>co_pre := Some f\<rparr>"

definition co_Checkpoint :: "'k \<Rightarrow> ('k, 'p) Coroutine \<Rightarrow> ('k, 'p) Coroutine" where
  "co_Checkpoint f c = c\<lparr>co_current := f, co_isStart := False\<rparr>"

definition co_Reset :: "('k, 'p) Coroutine \<Rightarrow> ('k, 'p) Coroutine" where
  "co_Reset c = c\<lparr>co_current := co_start c, co_isStart := True\<rparr>"

definition co_IsStart :: "('k, 'p) Coroutine \<Rightarrow> bool" where
  "co_IsStart c = co_isStart c"

text \<open>\<open>coroutine\<close> and \<open>put\<close> access the coroutine in the state \<open>s\<close> of its owner. \<open>Cycle\<close> reads the current
  function after \<open>pre\<close> has run.\<close>

definition co_Cycle :: "('s \<Rightarrow> ('k, 'p) Coroutine) \<Rightarrow> ('k \<Rightarrow> 'a \<Rightarrow> 's \<Rightarrow> 'b \<times> 's) \<Rightarrow> ('p \<Rightarrow> 'a \<Rightarrow> 's \<Rightarrow> 's) \<Rightarrow>
    'a \<Rightarrow> 's \<Rightarrow> 'b \<times> 's" where
  "co_Cycle coroutine call call_pre a s =
     (let s = (case co_pre (coroutine s) of None \<Rightarrow> s | Some f \<Rightarrow> call_pre f a s)
      in call (co_current (coroutine s)) a s)"

definition co_ExecuteWithCheckpoint :: "((('k, 'p) Coroutine \<Rightarrow> ('k, 'p) Coroutine) \<Rightarrow> 's \<Rightarrow> 's) \<Rightarrow>
    ('k \<Rightarrow> 'a \<Rightarrow> 's \<Rightarrow> 'b \<times> 's) \<Rightarrow> 'a \<Rightarrow> 'k \<Rightarrow> 's \<Rightarrow> 'b \<times> 's" where
  "co_ExecuteWithCheckpoint on_coroutine call a f s =
     call f a (on_coroutine (\<lambda>c. c\<lparr>co_current := f, co_isStart := False\<rparr>) s)"

section \<open>The view as an option\<close>

definition checkpoint_of :: "('k, 'p) Coroutine \<Rightarrow> 'k option" where
  "checkpoint_of c = (if co_isStart c then None else Some (co_current c))"

text \<open>A coroutine that is at its start has the start function.\<close>

definition co_ok :: "('k, 'p) Coroutine \<Rightarrow> bool" where
  "co_ok c \<longleftrightarrow> (co_isStart c \<longrightarrow> co_current c = co_start c)"

text \<open>The contract of a coroutine, over its view: what the units of the processors rely on.\<close>

locale checkpoints =
  fixes view :: "'c \<Rightarrow> 'k option"
    and current :: "'c \<Rightarrow> 'k"
    and first :: "'c \<Rightarrow> 'k"
    and checkpoint :: "'k \<Rightarrow> 'c \<Rightarrow> 'c"
    and reset :: "'c \<Rightarrow> 'c"
    and idle :: "'c \<Rightarrow> bool"
    and invar :: "'c \<Rightarrow> bool"
  assumes view_checkpoint: "view (checkpoint k c) = Some k"
    and view_reset: "view (reset c) = None"
    and view_current: "invar c \<Longrightarrow> current c = (case view c of None \<Rightarrow> first c | Some k \<Rightarrow> k)"
    and view_idle: "idle c \<longleftrightarrow> view c = None"
    and first_checkpoint: "first (checkpoint k c) = first c"
    and first_reset: "first (reset c) = first c"
    and invar_checkpoint: "invar c \<Longrightarrow> invar (checkpoint k c)"
    and invar_reset: "invar c \<Longrightarrow> invar (reset c)"
begin

text \<open>What a sequence of checkpoints and resets leaves is decided by the last of them.\<close>

definition apply_all :: "'k option list \<Rightarrow> 'c \<Rightarrow> 'c" where
  "apply_all ops c = fold (\<lambda>op c. case op of None \<Rightarrow> reset c | Some k \<Rightarrow> checkpoint k c) ops c"

lemma apply_all_snoc:
  "apply_all (ops @ [op]) c = (case op of None \<Rightarrow> reset (apply_all ops c) | Some k \<Rightarrow> checkpoint k (apply_all ops c))"
  by (cases op) (simp_all add: apply_all_def)

lemma apply_all_invar:
  assumes "invar c"
  shows "invar (apply_all ops c) \<and> first (apply_all ops c) = first c"
proof (induction ops rule: rev_induct)
  case Nil
  with assms show ?case by (simp add: apply_all_def)
next
  case (snoc op ops)
  then show ?case
    by (cases op) (simp_all add: apply_all_snoc invar_checkpoint invar_reset first_checkpoint first_reset)
qed

lemma last_decides:
  assumes "invar c"
  shows "current (apply_all (ops @ [op]) c) = (case op of None \<Rightarrow> first c | Some k \<Rightarrow> k)"
    and "idle (apply_all (ops @ [op]) c) \<longleftrightarrow> op = None"
proof -
  have "view (apply_all (ops @ [op]) c) = op"
    by (cases op) (simp_all add: apply_all_snoc view_checkpoint view_reset)
  with view_current view_idle apply_all_invar [OF assms, of "ops @ [op]"]
  show "current (apply_all (ops @ [op]) c) = (case op of None \<Rightarrow> first c | Some k \<Rightarrow> k)"
    and "idle (apply_all (ops @ [op]) c) \<longleftrightarrow> op = None"
    by (cases op; simp)+
qed

end

interpretation co: checkpoints checkpoint_of co_current co_start co_Checkpoint co_Reset co_IsStart co_ok
  by unfold_locales (auto simp: checkpoint_of_def co_Checkpoint_def co_Reset_def co_IsStart_def co_ok_def)

lemma co_ok_New [simp]: "co_ok (co_New f)" "checkpoint_of (co_New f) = None" "co_start (co_New f) = f"
  by (simp_all add: co_ok_def co_New_def checkpoint_of_def)

text \<open>A cycle runs \<open>pre\<close>, then the checkpoint, or the start function if there is none.\<close>

lemma co_Cycle_view:
  assumes "co_ok (coroutine s)" and "\<And>f. coroutine (call_pre f a s) = coroutine s"
  shows "co_Cycle coroutine call call_pre a s =
    call (case checkpoint_of (coroutine s) of None \<Rightarrow> co_start (coroutine s) | Some k \<Rightarrow> k) a
      (case co_pre (coroutine s) of None \<Rightarrow> s | Some f \<Rightarrow> call_pre f a s)"
  by (cases "co_pre (coroutine s)") (simp_all add: co_Cycle_def Let_def co.view_current [OF assms(1)] assms(2))

end
