(* ===== verification/Mvp61.thy ===== *)
theory Mvp61
  imports Superscalar Coroutine
begin

text \<open>
  MVP-6.1 (\<open>src/proc/mvp6-1\<close>): MVP-6.0 with forwarding. An instruction that waits for the result of one
  that was issued in the previous cycle is issued at once; a channel carries the result from execute
  unit to execute unit. Three things are shared by reference here, and the processor's record is
  extended by a store for each: the cells that the pointers on the execute bus point to
  (\<open>c_runners\<close>), the channels (\<open>c_channels\<close>, of capacity 1), and the field \<open>forward\<close> of the instructions of
  the program (\<open>c_forwards\<close>, by their index in the program). A cell or channel is named by its index;
  nothing is removed.
\<close>

section \<open>The state\<close>

text \<open>The fields of \<open>InstructionRunnerPc\<close> that the other processors do not use.\<close>

record runner61 = InstructionRunnerPc +
  rp_Forwarder :: "nat option"
  rp_Receiver :: "nat option"
  rp_ForwardRegister :: RegisterType

definition runner61_of :: "InstructionRunnerPc \<Rightarrow> runner61" where
  "runner61_of r = \<lparr>rp_Runner = rp_Runner r, rp_Pc = rp_Pc r, rp_Forwarder = None, rp_Receiver = None,
     rp_ForwardRegister = Zero\<rparr>"

text \<open>The keys of the two maps of pushed runners, in the order of insertion. \<open>routeSecond\<close> is never used.\<close>

record controlUnit61 =
  cu1_pendings :: "runner61 Queue"
  cu1_pushedRunnersInPreviousCycle :: "nat list"
  cu1_pushedRunnersInCurrentCycle :: "nat list"
  cu1_skippedInCurrentCycle :: "runner61 list"
  cu1_pushed :: Gauge
  cu1_pending :: Gauge
  cu1_pendingRead :: Gauge
  cu1_blocked :: Gauge
  cu1_forwarding :: int
  cu1_total :: int
  cu1_cantAdd :: int
  cu1_blockedBranch :: int
  cu1_blockedDataHazard :: int

record cpu61 = "(nat, runner61, controlUnit61) cpu6" +
  c_runners :: "runner61 list"
  c_channels :: "int32 option list"
  c_forwards :: "int \<Rightarrow> Forward"

definition mvp61_pendingLength :: nat where "mvp61_pendingLength = 10"

definition newControlUnit61 :: controlUnit61 where
  "newControlUnit61 = \<lparr>cu1_pendings = NewQueue mvp61_pendingLength,
     cu1_pushedRunnersInPreviousCycle = [], cu1_pushedRunnersInCurrentCycle = [],
     cu1_skippedInCurrentCycle = [], cu1_pushed = newGauge, cu1_pending = newGauge,
     cu1_pendingRead = newGauge, cu1_blocked = newGauge, cu1_forwarding = 0, cu1_total = 0,
     cu1_cantAdd = 0, cu1_blockedBranch = 0, cu1_blockedDataHazard = 0\<rparr>"

definition mvp61_NewCPU :: "bool \<Rightarrow> nat \<Rightarrow> cpu61 result" where
  "mvp61_NewCPU debug memoryBytes =
     rbind (newCPU6 newControlUnit61 debug memoryBytes) (\<lambda>m.
     Inr (cpu6.extend m (cpu61.fields [] [] (\<lambda>_. noForward))))"

definition on_cu61 :: "(controlUnit61 \<Rightarrow> controlUnit61) \<Rightarrow> cpu61 \<Rightarrow> cpu61" where
  "on_cu61 g m = m\<lparr>c_controlUnit := g (c_controlUnit m)\<rparr>"

text \<open>The methods of an instruction, with the value that has been forwarded to it.\<close>

definition instruction_index :: "int32 \<Rightarrow> int" where
  "instruction_index pc = sint (quot32 pc 4)"

definition methods61 :: "cpu61 \<Rightarrow> 'b InstructionRunnerPc_scheme \<Rightarrow> InstructionRunner" where
  "methods61 m r = runner (rp_Runner r) (c_forwards m (instruction_index (rp_Pc r)))"

definition setForward :: "instr \<Rightarrow> int32 \<Rightarrow> Forward \<Rightarrow> cpu61 \<Rightarrow> cpu61" where
  "setForward i pc f m =
     m\<lparr>c_forwards := (c_forwards m)(instruction_index pc := ForwardField (runner i (c_forwards m (instruction_index pc))) f)\<rparr>"

section \<open>The decode unit\<close>

text \<open>\<open>runner.Forward(risc.Forward{})\<close> for every instruction that is decoded.\<close>

definition clearForward :: "app \<Rightarrow> int32 \<Rightarrow> cpu61 \<Rightarrow> cpu61" where
  "clearForward app pc m = (case instruction_at app pc of
     Inl e \<Rightarrow> m | Inr i \<Rightarrow> setForward i pc noForward m)"

definition mvp61_decodeUnit_cycle :: "app \<Rightarrow> cpu61 \<Rightarrow> cpu61 result" where
  "mvp61_decodeUnit_cycle app = decodeUnit6_cycle (clearForward app) app"

section \<open>The control unit\<close>

definition hazard_registers :: "RegisterType list \<Rightarrow> RegisterType list \<Rightarrow> bool" where
  "hazard_registers rs skipped \<longleftrightarrow> (\<exists>r \<in> set rs. r \<noteq> Zero \<and> (\<exists>s \<in> set skipped. s \<noteq> Zero \<and> r = s))"

definition isDataHazardWithSkippedRunners :: "runner61 \<Rightarrow> cpu61 \<Rightarrow> bool" where
  "isDataHazardWithSkippedRunners r m \<longleftrightarrow>
     (\<exists>skipped \<in> set (cu1_skippedInCurrentCycle (c_controlUnit m)).
        let new = methods61 m r; old = methods61 m skipped in
        hazard_registers (ReadRegisters new) (WriteRegisters old)
        \<or> hazard_registers (WriteRegisters new) (WriteRegisters old)
        \<or> hazard_registers (WriteRegisters new) (ReadRegisters old))"

text \<open>The registers of \<open>runner\<close> that a runner pushed in the previous cycle writes, in the order of the
  loops; the first one is taken.\<close>

definition forward_matches :: "runner61 \<Rightarrow> cpu61 \<Rightarrow> nat \<Rightarrow> RegisterType list" where
  "forward_matches r m previous =
     concat (map (\<lambda>w. filter (\<lambda>register. register \<noteq> Zero \<and> register = w) (ReadRegisters (methods61 m r)))
       (WriteRegisters (methods61 m (c_runners m ! previous))))"

definition shouldUseForwarding :: "runner61 \<Rightarrow> Hazard list \<Rightarrow> HazardType set \<Rightarrow> cpu61 \<Rightarrow>
    (nat \<times> RegisterType) option" where
  "shouldUseForwarding r hazards hazardTypes m =
     (if 1 < card hazardTypes \<or> ReadAfterWrite \<notin> hazardTypes \<or> 1 < length hazards then None
      else case concat (map (\<lambda>previous. map (Pair previous) (forward_matches r m previous))
          (cu1_pushedRunnersInPreviousCycle (c_controlUnit m))) of
        [] \<Rightarrow> None
      | match # _ \<Rightarrow> Some match)"

text \<open>The cells: \<open>a\<close> is the address of a runner.\<close>

definition pushRunner61 :: "nat \<Rightarrow> cpu61 \<Rightarrow> bool \<times> cpu61" where
  "pushRunner61 a m =
     (if \<not> BufferedBus_CanAdd (c_executeBus m) then (False, m)
      else (True, m\<lparr>c_executeBus := BufferedBus_Add (c_executeBus m) a (c_cycle m),
        c_ctx := AddPendingRegisters (c_ctx m) (methods61 m (c_runners m ! a))\<rparr>))"

definition notePushed :: "nat \<Rightarrow> cpu61 \<Rightarrow> cpu61" where
  "notePushed a = on_cu61 (\<lambda>cu. cu\<lparr>cu1_pushedRunnersInCurrentCycle := cu1_pushedRunnersInCurrentCycle cu @ [a]\<rparr>)"

text \<open>A new channel between the previous runner and \<open>a\<close>.\<close>

definition linkRunners :: "nat \<Rightarrow> RegisterType \<Rightarrow> nat \<Rightarrow> cpu61 \<Rightarrow> cpu61" where
  "linkRunners previous register a m =
     (let ch = length (c_channels m);
          cells = c_runners m;
          cells = cells[previous := (cells ! previous)\<lparr>rp_Forwarder := Some ch, rp_ForwardRegister := register\<rparr>];
          cells = cells[a := (cells ! a)\<lparr>rp_Receiver := Some ch, rp_ForwardRegister := register\<rparr>]
      in m\<lparr>c_channels := c_channels m @ [None], c_runners := cells\<rparr>)"

definition handleRunner61 :: "int \<Rightarrow> nat \<Rightarrow> cpu61 \<Rightarrow> bool \<times> bool \<times> cpu61" where
  "handleRunner61 pushedCount a m =
     (let r = c_runners m ! a in
      if 0 < pushedCount \<and> IsBranch (instructionType (rp_Runner r))
      then (False, True, on_cu61 (\<lambda>cu. cu\<lparr>cu1_blockedBranch := cu1_blockedBranch cu + 1\<rparr>) m)
      else if isDataHazardWithSkippedRunners r m then (False, False, m)
      else case IsDataHazard3 (c_ctx m) (methods61 m r) of (hazards, hazardTypes) \<Rightarrow>
        if hazards = []
        then (case pushRunner61 a m of (pushed, m) \<Rightarrow>
          if pushed then (True, False, notePushed a m) else (False, True, m))
        else if isDataHazardWithSkippedRunners r m then (False, False, m)
        else (case shouldUseForwarding r hazards hazardTypes m of
          Some (previous, register) \<Rightarrow> (case pushRunner61 a (linkRunners previous register a m) of (pushed, m) \<Rightarrow>
            if pushed
            then (True, True, on_cu61 (\<lambda>cu. cu\<lparr>cu1_forwarding := cu1_forwarding cu + 1\<rparr>) (notePushed a m))
            else (False, True, m))
        | None \<Rightarrow> (False, True,
            on_cu61 (\<lambda>cu. cu\<lparr>cu1_blockedDataHazard := cu1_blockedDataHazard cu + 1\<rparr>) m)))"

definition newCell :: "runner61 \<Rightarrow> cpu61 \<Rightarrow> cpu61" where
  "newCell r m = m\<lparr>c_runners := c_runners m @ [r]\<rparr>"

definition skip61 :: "runner61 \<Rightarrow> controlUnit61 \<Rightarrow> controlUnit61" where
  "skip61 r cu = cu\<lparr>cu1_skippedInCurrentCycle := cu1_skippedInCurrentCycle cu @ [r]\<rparr>"

fun pendings61_loop :: "runner61 element list \<Rightarrow> int \<Rightarrow> cpu61 \<Rightarrow> bool \<times> int \<times> cpu61" where
  "pendings61_loop [] pushedCount m = (False, pushedCount, m)"
| "pendings61_loop (elem # elems) pushedCount m =
     (let a = length (c_runners m) in
      case handleRunner61 pushedCount a (newCell (Queue_Value elem) m) of (push, stop, m) \<Rightarrow>
        let (pushedCount, m) =
              (if push
               then (pushedCount + 1, on_cu61 (\<lambda>cu. cu\<lparr>cu1_pendings := Queue_Remove (cu1_pendings cu) elem\<rparr>) m)
               else (pushedCount, on_cu61 (skip61 (c_runners m ! a)) m))
        in if stop then (True, pushedCount, m) else pendings61_loop elems pushedCount m)"

function incoming61_loop :: "int \<Rightarrow> cpu61 \<Rightarrow> int \<times> cpu61" where
  "incoming61_loop pushedCount m =
     (if \<not> Queue_IsFull (cu1_pendings (c_controlUnit m))
      then case BufferedBus_Get (c_controlBus m) of (got, inBus) \<Rightarrow> (case got of
          None \<Rightarrow> (pushedCount, m)
        | Some r \<Rightarrow>
            let a = length (c_runners m) in
            case handleRunner61 pushedCount a (newCell (runner61_of r) (m\<lparr>c_controlBus := inBus\<rparr>)) of (push, stop, m') \<Rightarrow>
            let (pushedCount, m') =
                  (if push then (pushedCount + 1, m')
                   else (pushedCount, on_cu61 (\<lambda>cu. skip61 (c_runners m' ! a)
                     (cu\<lparr>cu1_pendings := Queue_Push (cu1_pendings cu) (c_runners m' ! a)\<rparr>)) m'))
            in if stop then (pushedCount, m') else incoming61_loop pushedCount m')
      else (pushedCount, m))"
  by pat_completeness auto
termination
  by (relation "measure (\<lambda>(pushedCount, m). length (bb_queue (c_controlBus m)))")
    (auto simp: BufferedBus_Get_def handleRunner61_def pushRunner61_def notePushed_def linkRunners_def
      newCell_def on_cu61_def Let_def split: list.splits if_splits prod.splits option.splits)

declare incoming61_loop.simps [simp del]

definition controlUnit61_work :: "cpu61 \<Rightarrow> int \<times> cpu61" where
  "controlUnit61_work m =
     (if \<not> BufferedBus_CanAdd (c_executeBus m)
      then (0, on_cu61 (\<lambda>cu. cu\<lparr>cu1_cantAdd := cu1_cantAdd cu + 1\<rparr>) m)
      else case pendings61_loop (Queue_Iterator (cu1_pendings (c_controlUnit m))) 0 m of
          (stopped, pushedCount, m) \<Rightarrow>
        if stopped then (pushedCount, m) else incoming61_loop pushedCount m)"

definition controlUnit61_cycle :: "cpu61 \<Rightarrow> cpu61" where
  "controlUnit61_cycle m =
     (let inBus = c_controlBus m;
          m = on_cu61 (\<lambda>cu. cu
            \<lparr>cu1_pushedRunnersInCurrentCycle := [], cu1_skippedInCurrentCycle := [],
             cu1_pendingRead := Gauge_Push (int (BufferedBus_PendingRead inBus)) (cu1_pendingRead cu),
             cu1_blocked := Gauge_Push (if BufferedBus_CanGet inBus then 1 else 0) (cu1_blocked cu),
             cu1_total := cu1_total cu + 1\<rparr>) m
      in case controlUnit61_work m of (pushedCount, m) \<Rightarrow>
        on_cu61 (\<lambda>cu. cu\<lparr>cu1_pushed := Gauge_Push pushedCount (cu1_pushed cu),
          cu1_pending := Gauge_Push (int (Queue_Length (cu1_pendings cu))) (cu1_pending cu),
          cu1_pushedRunnersInPreviousCycle := cu1_pushedRunnersInCurrentCycle cu\<rparr>) m)"

definition controlUnit61_flush :: "cpu61 \<Rightarrow> cpu61" where
  "controlUnit61_flush = on_cu61 (\<lambda>cu. cu\<lparr>cu1_pendings := NewQueue mvp61_pendingLength,
     cu1_pushedRunnersInPreviousCycle := []\<rparr>)"

section \<open>What the control unit preserves\<close>

text \<open>The control unit changes its own state, takes from its bus, stores an instruction in a new cell, and
  issues instructions that have no hazard or one that forwarding resolves. In its loops it changes the
  sets of pushed runners only when it issues.\<close>

definition quiet :: "(controlUnit61 \<Rightarrow> controlUnit61) \<Rightarrow> bool" where
  "quiet g \<longleftrightarrow> (\<forall>cu. cu1_pushedRunnersInCurrentCycle (g cu) = cu1_pushedRunnersInCurrentCycle cu
     \<and> cu1_pushedRunnersInPreviousCycle (g cu) = cu1_pushedRunnersInPreviousCycle cu)"

lemma quiet_simps [simp]:
  "quiet (\<lambda>cu. cu\<lparr>cu1_pendings := Queue_Remove (cu1_pendings cu) elem\<rparr>)" "quiet (skip61 r)"
  "quiet (\<lambda>cu. skip61 r (cu\<lparr>cu1_pendings := Queue_Push (cu1_pendings cu) r\<rparr>))"
  "quiet (\<lambda>cu. cu\<lparr>cu1_forwarding := cu1_forwarding cu + 1\<rparr>)"
  "quiet (\<lambda>cu. cu\<lparr>cu1_cantAdd := cu1_cantAdd cu + 1\<rparr>)"
  "quiet (\<lambda>cu. cu\<lparr>cu1_blockedBranch := cu1_blockedBranch cu + 1\<rparr>)"
  "quiet (\<lambda>cu. cu\<lparr>cu1_blockedDataHazard := cu1_blockedDataHazard cu + 1\<rparr>)"
  by (simp_all add: quiet_def skip61_def)

lemma in_new_cell: "length (c_runners m) < length (c_runners (newCell r m))"
  by (simp add: newCell_def)

locale control61_property =
  fixes P :: "cpu61 \<Rightarrow> bool"
  assumes own_state: "P m \<Longrightarrow> quiet g \<Longrightarrow> P (on_cu61 g m)"
    and take_from_bus: "P m \<Longrightarrow> P (m\<lparr>c_controlBus := b\<rparr>)"
    and new_cell: "P m \<Longrightarrow> P (newCell r m)"
    and issue: "P m \<Longrightarrow> a < length (c_runners m) \<Longrightarrow> fst (IsDataHazard3 (c_ctx m) (methods61 m (c_runners m ! a))) = [] \<Longrightarrow>
      pushRunner61 a m = (True, m') \<Longrightarrow> P (notePushed a m')"
    and forward: "P m \<Longrightarrow> a < length (c_runners m) \<Longrightarrow> IsDataHazard3 (c_ctx m) (methods61 m (c_runners m ! a)) = (hazards, hazardTypes) \<Longrightarrow>
      shouldUseForwarding (c_runners m ! a) hazards hazardTypes m = Some (previous, register) \<Longrightarrow>
      pushRunner61 a (linkRunners previous register a m) = (pushed, m') \<Longrightarrow>
      P (if pushed then notePushed a m' else m')"
begin

lemma handleRunner:
  assumes "P m" and "handleRunner61 n a m = (push, stop, m')" and "a < length (c_runners m)"
  shows "P m'"
proof -
  obtain hazards hazardTypes where h: "IsDataHazard3 (c_ctx m) (methods61 m (c_runners m ! a)) = (hazards, hazardTypes)"
    by force
  note own = own_state [OF assms(1)] own_state
  show ?thesis
  proof (cases "hazards = []")
    case True
    have "m1 = m" if "pushRunner61 a m = (False, m1)" for m1
      using that by (auto simp: pushRunner61_def split: if_splits)
    with True assms h own issue [OF assms(1,3)] show ?thesis
      by (auto simp: handleRunner61_def Let_def split: if_splits prod.splits)
  next
    case False
    show ?thesis
    proof (cases "shouldUseForwarding (c_runners m ! a) hazards hazardTypes m")
      case None
      with False assms h own show ?thesis
        by (auto simp: handleRunner61_def Let_def split: if_splits)
    next
      case (Some pair)
      then obtain previous register where pair: "shouldUseForwarding (c_runners m ! a) hazards hazardTypes m = Some (previous, register)"
        by (cases pair) auto
      obtain pushed m1 where m1: "pushRunner61 a (linkRunners previous register a m) = (pushed, m1)" by force
      from forward [OF assms(1,3) h pair m1] False pair m1 assms h own show ?thesis
        by (auto simp: handleRunner61_def Let_def split: if_splits)
    qed
  qed
qed

lemma pendings:
  "P m \<Longrightarrow> pendings61_loop elems n m = (stop, n', m') \<Longrightarrow> P m'"
proof (induction elems arbitrary: n m)
  case (Cons elem elems)
  let ?a = "length (c_runners m)"
  obtain push halt m1 where handle: "handleRunner61 n ?a (newCell (Queue_Value elem) m) = (push, halt, m1)"
    by (metis prod_cases3)
  define m2 where "m2 = (if push then on_cu61 (\<lambda>cu. cu\<lparr>cu1_pendings := Queue_Remove (cu1_pendings cu) elem\<rparr>) m1
    else on_cu61 (skip61 (c_runners m1 ! ?a)) m1)"
  have "P m2"
    using own_state [OF handleRunner [OF new_cell [OF Cons.prems(1)] handle in_new_cell]] by (simp add: m2_def)
  moreover from Cons.prems(2) handle obtain k where "m' = m2 \<or> pendings61_loop elems k m2 = (stop, n', m')"
    by (cases push; cases halt) (auto simp: Let_def m2_def)
  ultimately show ?case using Cons.IH by blast
qed simp

lemma incoming:
  "P m \<Longrightarrow> incoming61_loop n m = (n', m') \<Longrightarrow> P m'"
proof (induction "length (bb_queue (c_controlBus m))" arbitrary: n m rule: less_induct)
  case less
  obtain got b where get: "BufferedBus_Get (c_controlBus m) = (got, b)" by force
  note loop = less.prems(2) [unfolded incoming61_loop.simps [of n m]]
  show ?case
  proof (cases "\<not> Queue_IsFull (cu1_pendings (c_controlUnit m)) \<and> got \<noteq> None")
    case False
    with loop less.prems(1) get show ?thesis by (auto split: if_splits)
  next
    case True
    then obtain r where r: "got = Some r" by auto
    let ?a = "length (c_runners m)"
    obtain push halt m1 where
      handle: "handleRunner61 n ?a (newCell (runner61_of r) (m\<lparr>c_controlBus := b\<rparr>)) = (push, halt, m1)"
      by (metis prod_cases3)
    have ok: "P m1"
      using handleRunner [OF new_cell [OF take_from_bus [OF less.prems(1)]] handle] in_new_cell [of "m\<lparr>c_controlBus := b\<rparr>"] by simp
    have bus: "c_controlBus m1 = b"
      using handle by (auto simp: handleRunner61_def pushRunner61_def notePushed_def linkRunners_def newCell_def
          on_cu61_def Let_def split: if_splits prod.splits option.splits)
    define m2 where "m2 = (if push then m1 else on_cu61 (\<lambda>cu. skip61 (c_runners m1 ! ?a)
      (cu\<lparr>cu1_pendings := Queue_Push (cu1_pendings cu) (c_runners m1 ! ?a)\<rparr>)) m1)"
    have "P m2" "c_controlBus m2 = b"
      using own_state [OF ok] ok bus by (simp_all add: m2_def) (simp add: on_cu61_def)
    moreover from loop True get r handle obtain k where "m' = m2 \<or> incoming61_loop k m2 = (n', m')"
      by (cases push; cases halt) (auto simp: Let_def m2_def)
    ultimately show ?thesis
      using less.hyps [of m2] Get_shorter [of "c_controlBus m" r b] get r by auto
  qed
qed

lemma work: "P m \<Longrightarrow> P (snd (controlUnit61_work m))"
proof -
  assume "P m"
  obtain stopped n m1 where
    loop: "pendings61_loop (Queue_Iterator (cu1_pendings (c_controlUnit m))) 0 m = (stopped, n, m1)"
    by (metis prod_cases3)
  have "P m1" by (rule pendings [OF \<open>P m\<close> loop])
  then have "P (snd (incoming61_loop n m1))"
    using incoming [of m1 n] by (cases "incoming61_loop n m1") auto
  with \<open>P m\<close> \<open>P m1\<close> loop own_state show ?thesis
    by (simp add: controlUnit61_work_def)
qed

end

text \<open>A property that does not depend on the control unit's own state is kept by a cycle.\<close>

locale control61_invariant = control61_property +
  assumes any_own_state: "P m \<Longrightarrow> P (on_cu61 g m)"
begin

lemma cycle: "P m \<Longrightarrow> P (controlUnit61_cycle m)"
  by (simp add: controlUnit61_cycle_def Let_def split_beta work any_own_state)

end

section \<open>The execute units\<close>

text \<open>Receiving does not wait: without a value in the channel the unit tries again in the next cycle.\<close>

definition receive61 :: "runner61 \<Rightarrow> cpu61 \<Rightarrow> cpu61 option" where
  "receive61 r m = (case rp_Receiver r of
       None \<Rightarrow> Some m
     | Some ch \<Rightarrow> (case c_channels m ! ch of
         None \<Rightarrow> None
       | Some v \<Rightarrow> Some (setForward (rp_Runner r) (rp_Pc r) \<lparr>FwdRegister = rp_ForwardRegister r, FwdValue = v\<rparr>
           (m\<lparr>c_channels := (c_channels m)[ch := None]\<rparr>))))"

text \<open>Sending to a full channel blocks the processor.\<close>

definition send61 :: "nat \<Rightarrow> int32 \<Rightarrow> cpu61 \<Rightarrow> cpu61 result" where
  "send61 ch v m =
     (if c_channels m ! ch = None then Inr (m\<lparr>c_channels := (c_channels m)[ch := Some v]\<rparr>)
      else Inl (Panic Deadlock))"

definition finishRun61 :: "runner61 \<Rightarrow> Execution \<Rightarrow> cpu61 \<Rightarrow> (euResp \<times> cpu61) result" where
  "finishRun61 r exe m =
     (let m = m\<lparr>c_writeBus := BufferedBus_Add (c_writeBus m) (writeContext6 (methods61 m r) (rp_Pc r) exe) (c_cycle m)\<rparr>
      in case rp_Forwarder r of
        None \<Rightarrow> reportBranch6 (rp_Runner r) (rp_Pc r) exe m
      | Some ch \<Rightarrow> rbind (send61 ch (RegisterValue exe) m) (\<lambda>m.
          if IsBranch (instructionType (rp_Runner r)) then Inl (Panic ShouldNotBeBranch)
          else Inr (noResp, m)))"

definition run61 :: "nat \<Rightarrow> runner61 \<Rightarrow> app \<Rightarrow> cpu61 \<Rightarrow> (euResp \<times> cpu61) result" where
  "run61 k r app m = run6 (methods61 m r) (finishRun61 r) k (rp_Pc r) app m"

definition prepareRun61 :: "nat \<Rightarrow> runner61 \<Rightarrow> app \<Rightarrow> cpu61 \<Rightarrow> (euResp \<times> cpu61) result" where
  "prepareRun61 k r app m =
     (if \<not> BufferedBus_CanAdd (c_writeBus m) then Inr (noResp, m)
      else case receive61 r m of
        None \<Rightarrow> Inr (noResp, m)
      | Some m \<Rightarrow>
          let m = btb6_assert (rp_Runner r) (rp_Pc r) m;
              addrs = MemoryRead (methods61 m r) (c_ctx m)
          in if length addrs \<noteq> 0 then load6 k addrs m else run61 k r app m)"

definition executeUnit61_resume :: "nat \<Rightarrow> execute_checkpoint \<Rightarrow> runner61 \<Rightarrow> app \<Rightarrow> cpu61 \<Rightarrow>
    (euResp \<times> cpu61) result" where
  "executeUnit61_resume k co r app m = resume6 (prepareRun61 k r app) (run61 k r app) k co m"

text \<open>The unit copies the cell that the pointer from the bus points to.\<close>

definition executeUnit61_cycle :: "nat \<Rightarrow> app \<Rightarrow> cpu61 \<Rightarrow> (euResp \<times> cpu61) result" where
  "executeUnit61_cycle k app m =
     (let eu = c_executeUnits m ! k in
      case eu6_coroutine eu of
        Some co \<Rightarrow> (case eu6_runner eu of
            None \<Rightarrow> Inl (Panic NilDereference)
          | Some r \<Rightarrow> executeUnit61_resume k co r app m)
      | None \<Rightarrow> (case BufferedBus_Get (c_executeBus m) of (got, inBus) \<Rightarrow>
          let m = m\<lparr>c_executeBus := inBus\<rparr> in (case got of
            None \<Rightarrow> Inr (noResp, m)
          | Some a \<Rightarrow> let r = c_runners m ! a in prepareRun61 k r app
              (on_eu6 k (\<lambda>eu. eu\<lparr>eu6_runner := Some r, eu6_coroutine := Some PrepareRun\<rparr>) m))))"

text \<open>What the small changes of \<open>unit_steps\<close> obey, a cycle of an execute unit obeys, if taking an
  instruction from the bus, forwarding and the channels do.\<close>

locale unit_steps61 = unit_steps R for R :: "cpu61 \<Rightarrow> cpu61 \<Rightarrow> bool" +
  assumes take_step: "BufferedBus_Get (c_executeBus m) = (got, b) \<Longrightarrow> R (m\<lparr>c_executeBus := b\<rparr>) m"
    and forward_step: "R (setForward i pc f m) m"
    and channel_step: "R (m\<lparr>c_channels := x\<rparr>) m"
begin

lemma receive61_step: "receive61 r m = Some m' \<Longrightarrow> R m' m"
  using trans [OF forward_step channel_step] by (auto simp: receive61_def refl split: option.splits)

lemma finishRun61_step:
  assumes "finishRun61 r exe m = Inr (resp, m')"
  shows "R m' m"
proof -
  let ?m1 = "m\<lparr>c_writeBus := BufferedBus_Add (c_writeBus m) (writeContext6 (methods61 m r) (rp_Pc r) exe) (c_cycle m)\<rparr>"
  from assms have "R m' ?m1"
    by (auto simp: finishRun61_def send61_def channel_step Let_def split: option.splits if_splits
        intro: reportBranch6_step)
  then show "R m' m" by (rule trans [OF _ write_step])
qed

lemma run61_step: "run61 k r app m = Inr (resp, m') \<Longrightarrow> R m' m"
  unfolding run61_def by (rule run6_step [OF finishRun61_step])

lemma prepareRun61_step:
  assumes "prepareRun61 k r app m = Inr (resp, m')"
  shows "R m' m"
proof (cases "\<not> BufferedBus_CanAdd (c_writeBus m) \<or> receive61 r m = None")
  case True
  with assms show ?thesis by (auto simp: prepareRun61_def refl split: option.splits)
next
  case False
  then obtain m1 where m1: "receive61 r m = Some m1" by auto
  with assms False have "R m' (btb6_assert (rp_Runner r) (rp_Pc r) m1)"
    by (auto simp: prepareRun61_def Let_def split: if_splits dest: run61_step load6_step)
  from trans [OF trans [OF this btb6_assert_step] receive61_step [OF m1]] show ?thesis .
qed

lemma executeUnit61_step:
  assumes "executeUnit61_cycle k app m = Inr (resp, m')"
  shows "R m' m"
proof (cases "eu6_coroutine (c_executeUnits m ! k)")
  case (Some co)
  with assms obtain r where "resume6 (prepareRun61 k r app) (run61 k r app) k co m = Inr (resp, m')"
    by (auto simp: executeUnit61_cycle_def executeUnit61_resume_def Let_def split: option.splits)
  then show ?thesis
    by (rule resume6_step [rotated 2]) (erule prepareRun61_step, erule run61_step)
next
  case None
  obtain got b where get: "BufferedBus_Get (c_executeBus m) = (got, b)" by force
  have "R m' (m\<lparr>c_executeBus := b\<rparr>)"
    using assms None get trans [OF prepareRun61_step on_eu6_step]
    by (auto simp: executeUnit61_cycle_def Let_def refl split: option.splits)
  from trans [OF this take_step [OF get]] show ?thesis .
qed

end

section \<open>The processor\<close>

definition units61 :: "cpu61 units6" where
  "units61 =
     \<lparr>un_decode = mvp61_decodeUnit_cycle, un_control = controlUnit61_cycle,
      un_flushControl = controlUnit61_flush, un_execute = executeUnit61_cycle\<rparr>"

definition mvp61_fetchUnit_cycle :: "app \<Rightarrow> cpu61 \<Rightarrow> cpu61 result" where
  "mvp61_fetchUnit_cycle = fetchUnit6_cycle"

definition mvp61_assert :: "instr \<Rightarrow> int32 \<Rightarrow> cpu61 \<Rightarrow> cpu61" where
  "mvp61_assert = btb6_assert"

definition mvp61_shouldFlushPipeline :: "int32 \<Rightarrow> cpu61 \<Rightarrow> bool \<times> cpu61" where
  "mvp61_shouldFlushPipeline = btb6_shouldFlushPipeline"

definition mvp61_notifyJumpAddressResolved :: "int32 \<Rightarrow> int32 \<Rightarrow> cpu61 \<Rightarrow> cpu61 result" where
  "mvp61_notifyJumpAddressResolved = btb6_notifyJumpAddressResolved"

definition mvp61_writeUnit_cycle :: "int32 \<Rightarrow> nat \<Rightarrow> cpu61 \<Rightarrow> cpu61 result" where
  "mvp61_writeUnit_cycle = writeUnit6_cycle"

definition mvp61_flush :: "int32 \<Rightarrow> cpu61 \<Rightarrow> cpu61" where
  "mvp61_flush = cpu6_flush units61"

definition mvp61_isEmpty :: "cpu61 \<Rightarrow> bool" where
  "mvp61_isEmpty = cpu6_isEmpty cu1_pendings"

definition mvp61_step :: "app \<Rightarrow> mode6 \<times> cpu61 \<Rightarrow> (mode6 \<times> cpu61, cpu61) outcome result" where
  "mvp61_step = cpu6_step units61 cu1_pendings"

definition mvp61_Run :: "nat \<Rightarrow> cpu61 \<Rightarrow> app \<Rightarrow> cpu61 result option" where
  "mvp61_Run fuel m app = run_loop (mvp61_step app) fuel (Cycling, m)"

end
