(* ===== verification/IssueOrder.thy ===== *)
theory IssueOrder
  imports Mvp60 Mvp61
begin

text \<open>
  The control units of MVP-6.0 and MVP-6.1 issue the instructions in the order of the program: an
  instruction that is not issued stops the cycle. The instructions on the execute bus, in the queue
  of the control unit and on its input bus, in this order, are the same before and after a cycle.
\<close>

section \<open>MVP-6.0\<close>

definition issue_order60 :: "cpu60 \<Rightarrow> InstructionRunnerPc list" where
  "issue_order60 m = BufferedBus_contents (c_executeBus m)
     @ map Queue_Value (q_list (cu_pendings (c_controlUnit m))) @ BufferedBus_contents (c_controlBus m)"

lemma handleRunner60_issues:
  assumes "handleRunner60 n r m = (push, stop, m')"
  shows "BufferedBus_contents (c_executeBus m') = BufferedBus_contents (c_executeBus m) @ (if push then [r] else [])"
    and "\<not> push \<Longrightarrow> stop" and "c_controlBus m' = c_controlBus m"
    and "cu_pendings (c_controlUnit m') = cu_pendings (c_controlUnit m)"
  using assms by (auto simp: handleRunner60_def pushRunner60_def on_cu60_def contents_bus(1) split: if_splits)

lemma Queue_Remove_head:
  "Queue_ok q \<Longrightarrow> q_list q = e # es \<Longrightarrow> q_list (Queue_Remove q e) = es"
  using Queue_Remove_split [of q "[]" e es] by simp

lemma pendings60_issues:
  "pendings60_loop elems remaining n m = (stopped, remaining', n', m') \<Longrightarrow>
    Queue_ok (cu_pendings (c_controlUnit m)) \<Longrightarrow> q_list (cu_pendings (c_controlUnit m)) = elems \<Longrightarrow>
    issue_order60 m' = issue_order60 m \<and> Queue_ok (cu_pendings (c_controlUnit m'))
    \<and> (\<not> stopped \<longrightarrow> q_list (cu_pendings (c_controlUnit m')) = [])"
proof (induction elems arbitrary: remaining n m)
  case (Cons elem elems)
  obtain push stop m1 where handle: "handleRunner60 n (Queue_Value elem) m = (push, stop, m1)"
    by (metis prod_cases3)
  note issues = handleRunner60_issues [OF handle]
  show ?case
  proof (cases push)
    case False
    with issues(2) have stop by simp
    with False Cons.prems handle issues show ?thesis
      by (auto simp: issue_order60_def on_cu60_def)
  next
    case True
    define m2 where "m2 = on_cu60 (\<lambda>cu. cu\<lparr>cu_pendings := Queue_Remove (cu_pendings cu) elem\<rparr>) m1"
    have order: "issue_order60 m2 = issue_order60 m" and queue: "q_list (cu_pendings (c_controlUnit m2)) = elems"
        "Queue_ok (cu_pendings (c_controlUnit m2))"
      using Cons.prems(2,3) issues True Queue_Remove_head [OF Cons.prems(2,3)]
      by (simp_all add: m2_def issue_order60_def on_cu60_def Queue_ok_Remove)
    show ?thesis
    proof (cases stop)
      case True
      with Cons.prems(1) handle \<open>push\<close> order queue show ?thesis by (auto simp: m2_def)
    next
      case False
      with Cons.prems(1) handle \<open>push\<close>
      have "pendings60_loop elems (remaining - 1) (n + 1) m2 = (stopped, remaining', n', m')" by (simp add: m2_def)
      from Cons.IH [OF this queue(2,1)] order show ?thesis by simp
    qed
  qed
qed simp

lemma incoming60_issues:
  "incoming60_loop remaining n m = (n', m') \<Longrightarrow> Queue_ok (cu_pendings (c_controlUnit m)) \<Longrightarrow>
    q_list (cu_pendings (c_controlUnit m)) = [] \<Longrightarrow>
    issue_order60 m' = issue_order60 m \<and> Queue_ok (cu_pendings (c_controlUnit m'))"
proof (induction "length (bb_queue (c_controlBus m))" arbitrary: remaining n m rule: less_induct)
  case less
  obtain got b where get: "BufferedBus_Get (c_controlBus m) = (got, b)" by force
  note loop = less.prems(1) [unfolded incoming60_loop.simps [of remaining n m]]
  show ?case
  proof (cases "0 < remaining \<and> \<not> Queue_IsFull (cu_pendings (c_controlUnit m)) \<and> got \<noteq> None")
    case False
    with loop less.prems(2) get show ?thesis by (auto split: if_splits)
  next
    case True
    then obtain r where r: "got = Some r" by auto
    obtain push stop m1 where handle: "handleRunner60 n r (m\<lparr>c_controlBus := b\<rparr>) = (push, stop, m1)"
      by (metis prod_cases3)
    note issues = handleRunner60_issues [OF handle]
    have bus: "BufferedBus_contents (c_controlBus m) = r # BufferedBus_contents b"
      by (rule contents_bus(2) [OF get [unfolded r]])
    show ?thesis
    proof (cases push)
      case False
      with issues(2) have stop by simp
      with False loop True get r handle issues less.prems(2,3) bus show ?thesis
        by (auto simp: issue_order60_def on_cu60_def Queue_values_Push Queue_ok_Push Queue_Value_def [abs_def])
    next
      case True
      have m1: "issue_order60 m1 = issue_order60 m" "Queue_ok (cu_pendings (c_controlUnit m1))"
        "q_list (cu_pendings (c_controlUnit m1)) = []"
        using issues True less.prems(2,3) bus by (simp_all add: issue_order60_def)
      show ?thesis
      proof (cases stop)
        case True
        with loop \<open>0 < remaining \<and> _ \<and> got \<noteq> None\<close> get r handle \<open>push\<close> m1 show ?thesis by (auto simp: Let_def)
      next
        case False
        with loop \<open>0 < remaining \<and> _ \<and> got \<noteq> None\<close> get r handle \<open>push\<close>
        have "incoming60_loop (remaining - 1) (n + 1) m1 = (n', m')" by (simp add: Let_def)
        from less.hyps [OF _ this m1(2,3)] Get_shorter [of "c_controlBus m" r b] get r issues(3) m1(1)
        show ?thesis by simp
      qed
    qed
  qed
qed

lemma control60_issues:
  assumes "Queue_ok (cu_pendings (c_controlUnit m))"
  shows "issue_order60 (controlUnit60_cycle m) = issue_order60 m"
    and "Queue_ok (cu_pendings (c_controlUnit (controlUnit60_cycle m)))"
proof -
  have own: "issue_order60 (on_cu60 g m) = issue_order60 m"
      "cu_pendings (c_controlUnit (on_cu60 g m)) = cu_pendings (c_controlUnit m)"
    if "\<And>cu. cu_pendings (g cu) = cu_pendings cu" for g m
    using that by (simp_all add: issue_order60_def on_cu60_def)
  have work: "issue_order60 (snd (controlUnit60_work m)) = issue_order60 m
      \<and> Queue_ok (cu_pendings (c_controlUnit (snd (controlUnit60_work m))))"
    if ok: "Queue_ok (cu_pendings (c_controlUnit m))" for m
  proof (cases "BufferedBus_CanAdd (c_executeBus m)")
    case False
    with ok own show ?thesis by (simp add: controlUnit60_work_def)
  next
    case True
    obtain stopped remaining pushed m1 where
      loop: "pendings60_loop (Queue_Iterator (cu_pendings (c_controlUnit m)))
        (BufferedBus_RemainingToAdd (c_executeBus m)) 0 m = (stopped, remaining, pushed, m1)"
      by (metis prod_cases4)
    note first = pendings60_issues [OF this ok] 
    obtain n m2 where "incoming60_loop remaining pushed m1 = (n, m2)" by force
    with first loop True incoming60_issues [of remaining pushed m1 n m2] show ?thesis
      by (cases stopped) (simp_all add: controlUnit60_work_def Queue_Iterator_def)
  qed
  show "issue_order60 (controlUnit60_cycle m) = issue_order60 m"
    and "Queue_ok (cu_pendings (c_controlUnit (controlUnit60_cycle m)))"
    using work assms by (simp_all add: controlUnit60_cycle_def Let_def split_beta own)
qed

section \<open>MVP-6.1\<close>

text \<open>The links between the instructions are left out: \<open>unlinked\<close> is the instruction of a cell.\<close>

definition unlinked :: "runner61 \<Rightarrow> InstructionRunnerPc" where
  "unlinked r = InstructionRunnerPc.truncate r"

definition issue_order61 :: "cpu61 \<Rightarrow> InstructionRunnerPc list" where
  "issue_order61 m = map (\<lambda>a. unlinked (c_runners m ! a)) (BufferedBus_contents (c_executeBus m))
     @ map (\<lambda>e. unlinked (Queue_Value e)) (q_list (cu1_pendings (c_controlUnit m)))
     @ BufferedBus_contents (c_controlBus m)"

text \<open>The addresses on the execute bus are those of cells, and no instruction has been skipped.\<close>

definition cells_ok :: "cpu61 \<Rightarrow> bool" where
  "cells_ok m \<longleftrightarrow> (\<forall>a \<in> set (BufferedBus_contents (c_executeBus m)). a < length (c_runners m))
     \<and> Queue_ok (cu1_pendings (c_controlUnit m))"

definition none_skipped :: "cpu61 \<Rightarrow> bool" where
  "none_skipped m \<longleftrightarrow> cu1_skippedInCurrentCycle (c_controlUnit m) = []"

lemma unlinked_of [simp]: "unlinked (runner61_of r) = r"
  by (simp add: unlinked_def runner61_of_def InstructionRunnerPc.defs)

lemma map_unlinked_update:
  "unlinked r = unlinked (cells ! i) \<Longrightarrow> map unlinked (cells[i := r]) = map unlinked cells"
  by (cases "i < length cells") (simp_all add: map_update list_update_same_conv list_update_beyond)

lemma linkRunners_unlinked:
  "map unlinked (c_runners (linkRunners previous register a m)) = map unlinked (c_runners m)"
proof -
  have [simp]: "unlinked (r\<lparr>rp_Forwarder := f, rp_ForwardRegister := x\<rparr>) = unlinked r"
    "unlinked (r\<lparr>rp_Receiver := f, rp_ForwardRegister := x\<rparr>) = unlinked r" for r f x
    by (simp_all add: unlinked_def InstructionRunnerPc.defs)
  show ?thesis by (simp add: linkRunners_def Let_def map_unlinked_update)
qed

lemma handleRunner61_issues:
  assumes "handleRunner61 n a m = (push, stop, m')" and "none_skipped m"
  shows "BufferedBus_contents (c_executeBus m') = BufferedBus_contents (c_executeBus m) @ (if push then [a] else [])"
    and "\<not> push \<Longrightarrow> stop" and "c_controlBus m' = c_controlBus m"
    and "cu1_pendings (c_controlUnit m') = cu1_pendings (c_controlUnit m)"
    and "none_skipped m'" and "map unlinked (c_runners m') = map unlinked (c_runners m)"
proof -
  have "BufferedBus_contents (c_executeBus m') = BufferedBus_contents (c_executeBus m) @ (if push then [a] else [])
      \<and> (\<not> push \<longrightarrow> stop) \<and> c_controlBus m' = c_controlBus m
      \<and> cu1_pendings (c_controlUnit m') = cu1_pendings (c_controlUnit m)
      \<and> none_skipped m' \<and> map unlinked (c_runners m') = map unlinked (c_runners m)"
    if "isDataHazardWithSkippedRunners (c_runners m ! a) m = False"
    using assms that
    by (auto simp: handleRunner61_def pushRunner61_def notePushed_def on_cu61_def none_skipped_def contents_bus(1)
        linkRunners_unlinked Let_def split: if_splits prod.splits option.splits)
      (auto simp: linkRunners_def Let_def contents_bus(1))
  moreover have "isDataHazardWithSkippedRunners (c_runners m ! a) m = False"
    using assms(2) by (simp add: isDataHazardWithSkippedRunners_def none_skipped_def)
  ultimately show "BufferedBus_contents (c_executeBus m') = BufferedBus_contents (c_executeBus m) @ (if push then [a] else [])"
    and "\<not> push \<Longrightarrow> stop" and "c_controlBus m' = c_controlBus m"
    and "cu1_pendings (c_controlUnit m') = cu1_pendings (c_controlUnit m)"
    and "none_skipped m'" and "map unlinked (c_runners m') = map unlinked (c_runners m)"
    by blast+
qed

text \<open>The cells change by new cells and by links only, so the instructions in front stay the same.\<close>

lemma issued_same:
  assumes "\<forall>a \<in> set as. a < length (c_runners m)" and "map unlinked (c_runners m') = map unlinked (c_runners m) @ rs"
  shows "map (\<lambda>a. unlinked (c_runners m' ! a)) as = map (\<lambda>a. unlinked (c_runners m ! a)) as"
    and "\<forall>a \<in> set as. a < length (c_runners m')"
proof -
  have length: "length (c_runners m') = length (c_runners m) + length rs"
    using assms(2) by (metis length_append length_map)
  show "\<forall>a \<in> set as. a < length (c_runners m')"
    using assms(1) by (simp add: length trans_less_add1)
  have "unlinked (c_runners m' ! a) = unlinked (c_runners m ! a)" if "a < length (c_runners m)" for a
    using that assms(2) length by (metis nth_append nth_map length_map trans_less_add1)
  with assms(1) show "map (\<lambda>a. unlinked (c_runners m' ! a)) as = map (\<lambda>a. unlinked (c_runners m ! a)) as"
    by simp
qed

text \<open>One instruction, that is in a new cell: it goes to the execute bus or stays what it was.\<close>

lemma handle_new61:
  assumes handle: "handleRunner61 n (length (c_runners m)) (newCell r m) = (push, stop, m')"
    and skipped: "none_skipped m" and ok: "cells_ok m"
  shows "map (\<lambda>a. unlinked (c_runners m' ! a)) (BufferedBus_contents (c_executeBus m')) =
      map (\<lambda>a. unlinked (c_runners m ! a)) (BufferedBus_contents (c_executeBus m)) @ (if push then [unlinked r] else [])"
    and "cells_ok m'" and "none_skipped m'" and "\<not> push \<Longrightarrow> stop" and "c_controlBus m' = c_controlBus m"
    and "cu1_pendings (c_controlUnit m') = cu1_pendings (c_controlUnit m)"
    and "unlinked (c_runners m' ! length (c_runners m)) = unlinked r"
proof -
  have [simp]: "c_executeBus (newCell r m) = c_executeBus m" "c_controlBus (newCell r m) = c_controlBus m"
    "c_controlUnit (newCell r m) = c_controlUnit m" "c_runners (newCell r m) = c_runners m @ [r]"
    by (simp_all add: newCell_def)
  have "none_skipped (newCell r m)" using skipped by (simp add: none_skipped_def)
  note issues = handleRunner61_issues [OF handle this, simplified]
  have in_front: "\<forall>a \<in> set (BufferedBus_contents (c_executeBus m)). a < length (c_runners m)"
    using ok by (simp add: cells_ok_def)
  note same = issued_same [OF in_front issues(6)]
  have length: "length (c_runners m') = Suc (length (c_runners m))"
    using issues(6) by (metis length_append_singleton length_map)
  show new: "unlinked (c_runners m' ! length (c_runners m)) = unlinked r"
    using issues(6) length by (metis nth_append_length nth_map length_map lessI)
  show "map (\<lambda>a. unlinked (c_runners m' ! a)) (BufferedBus_contents (c_executeBus m')) =
      map (\<lambda>a. unlinked (c_runners m ! a)) (BufferedBus_contents (c_executeBus m)) @ (if push then [unlinked r] else [])"
    using same(1) new by (simp add: issues(1))
  show "cells_ok m'" using same(2) length ok by (auto simp: cells_ok_def issues(1,4))
  show "none_skipped m'" "\<not> push \<Longrightarrow> stop" "c_controlBus m' = c_controlBus m"
    "cu1_pendings (c_controlUnit m') = cu1_pendings (c_controlUnit m)"
    using issues by auto
qed

lemma pendings61_issues:
  "pendings61_loop elems n m = (stopped, n', m') \<Longrightarrow> cells_ok m \<Longrightarrow> none_skipped m \<Longrightarrow>
    q_list (cu1_pendings (c_controlUnit m)) = elems \<Longrightarrow>
    issue_order61 m' = issue_order61 m \<and> cells_ok m'
    \<and> (\<not> stopped \<longrightarrow> none_skipped m' \<and> q_list (cu1_pendings (c_controlUnit m')) = [])"
proof (induction elems arbitrary: n m)
  case (Cons elem elems)
  obtain push stop m1 where
    handle: "handleRunner61 n (length (c_runners m)) (newCell (Queue_Value elem) m) = (push, stop, m1)"
    by (metis prod_cases3)
  note new = handle_new61 [OF this Cons.prems(3,2)]
  have own: "cells_ok (on_cu61 g m1)" if "Queue_ok (cu1_pendings (g (c_controlUnit m1)))" for g
    using that new(2) by (simp add: cells_ok_def on_cu61_def)
  show ?case
  proof (cases push)
    case False
    with new(4) have stop by simp
    with False Cons.prems handle new own show ?thesis
      by (auto simp: issue_order61_def on_cu61_def skip61_def Let_def cells_ok_def)
  next
    case True
    define m2 where "m2 = on_cu61 (\<lambda>cu. cu\<lparr>cu1_pendings := Queue_Remove (cu1_pendings cu) elem\<rparr>) m1"
    have queue: "Queue_ok (cu1_pendings (c_controlUnit m))" using Cons.prems(2) by (simp add: cells_ok_def)
    have order: "issue_order61 m2 = issue_order61 m" "q_list (cu1_pendings (c_controlUnit m2)) = elems"
      using Cons.prems(4) new True Queue_Remove_head [OF queue Cons.prems(4)]
      by (simp_all add: m2_def issue_order61_def on_cu61_def)
    have ok: "cells_ok m2" "none_skipped m2"
      using own [of "\<lambda>cu. cu\<lparr>cu1_pendings := Queue_Remove (cu1_pendings cu) elem\<rparr>"] new(3,6) queue
      by (simp_all add: m2_def Queue_ok_Remove none_skipped_def on_cu61_def)
    show ?thesis
    proof (cases stop)
      case True
      with Cons.prems(1) handle \<open>push\<close> order ok show ?thesis by (auto simp: m2_def Let_def)
    next
      case False
      with Cons.prems(1) handle \<open>push\<close> have "pendings61_loop elems (n + 1) m2 = (stopped, n', m')"
        by (simp add: m2_def Let_def)
      from Cons.IH [OF this ok order(2)] order(1) show ?thesis by simp
    qed
  qed
qed simp

lemma incoming61_issues:
  "incoming61_loop n m = (n', m') \<Longrightarrow> cells_ok m \<Longrightarrow> none_skipped m \<Longrightarrow>
    q_list (cu1_pendings (c_controlUnit m)) = [] \<Longrightarrow> issue_order61 m' = issue_order61 m \<and> cells_ok m'"
proof (induction "length (bb_queue (c_controlBus m))" arbitrary: n m rule: less_induct)
  case less
  obtain got b where get: "BufferedBus_Get (c_controlBus m) = (got, b)" by force
  note loop = less.prems(1) [unfolded incoming61_loop.simps [of n m]]
  show ?case
  proof (cases "\<not> Queue_IsFull (cu1_pendings (c_controlUnit m)) \<and> got \<noteq> None")
    case False
    with loop less.prems(2) get show ?thesis by (auto split: if_splits)
  next
    case True
    then obtain r where r: "got = Some r" by auto
    let ?m = "m\<lparr>c_controlBus := b\<rparr>"
    obtain push stop m1 where handle: "handleRunner61 n (length (c_runners m)) (newCell (runner61_of r) ?m) = (push, stop, m1)"
      by (metis prod_cases3)
    have "none_skipped ?m" "cells_ok ?m" using less.prems(2,3) by (simp_all add: none_skipped_def cells_ok_def)
    note new = handle_new61 [of n ?m, simplified, OF handle this]
    have bus: "BufferedBus_contents (c_controlBus m) = r # BufferedBus_contents b"
      by (rule contents_bus(2) [OF get [unfolded r]])
    show ?thesis
    proof (cases push)
      case False
      with new(4) have stop by simp
      with False loop True get r handle new less.prems(2,4) bus show ?thesis
        by (auto simp: issue_order61_def on_cu61_def skip61_def Let_def cells_ok_def Queue_ok_Push)
          (auto simp: Queue_Push_def Queue_Value_def)
    next
      case True
      have m1: "issue_order61 m1 = issue_order61 m"
        using new(1,5,6) True less.prems(4) bus by (simp add: issue_order61_def)
      show ?thesis
      proof (cases stop)
        case True
        with loop \<open>_ \<and> got \<noteq> None\<close> get r handle \<open>push\<close> m1 new(2) show ?thesis by (auto simp: Let_def)
      next
        case False
        with loop \<open>_ \<and> got \<noteq> None\<close> get r handle \<open>push\<close> have "incoming61_loop (n + 1) m1 = (n', m')"
          by (simp add: Let_def)
        from less.hyps [OF _ this new(2,3)] Get_shorter [of "c_controlBus m" r b] get r new(5,6) m1 less.prems(4)
        show ?thesis by simp
      qed
    qed
  qed
qed

lemma control61_issues:
  assumes "cells_ok m"
  shows "issue_order61 (controlUnit61_cycle m) = issue_order61 m" and "cells_ok (controlUnit61_cycle m)"
proof -
  have own: "issue_order61 (on_cu61 g m) = issue_order61 m" "cells_ok (on_cu61 g m) = cells_ok m"
    if "\<And>cu. cu1_pendings (g cu) = cu1_pendings cu" for g m
    using that by (simp_all add: issue_order61_def on_cu61_def cells_ok_def)
  have work: "issue_order61 (snd (controlUnit61_work m)) = issue_order61 m \<and> cells_ok (snd (controlUnit61_work m))"
    if ok: "cells_ok m" and skipped: "none_skipped m" for m
  proof (cases "BufferedBus_CanAdd (c_executeBus m)")
    case False
    with ok own show ?thesis by (simp add: controlUnit61_work_def)
  next
    case True
    obtain stopped pushed m1 where
      loop: "pendings61_loop (Queue_Iterator (cu1_pendings (c_controlUnit m))) 0 m = (stopped, pushed, m1)"
      by (metis prod_cases3)
    note first = pendings61_issues [OF this ok skipped]
    obtain n m2 where "incoming61_loop pushed m1 = (n, m2)" by force
    with first loop True incoming61_issues [of pushed m1 n m2] show ?thesis
      by (cases stopped) (simp_all add: controlUnit61_work_def Queue_Iterator_def)
  qed
  define g where "g = (\<lambda>cu :: controlUnit61. cu\<lparr>cu1_pushedRunnersInCurrentCycle := [], cu1_skippedInCurrentCycle := [],
    cu1_pendingRead := Gauge_Push (int (BufferedBus_PendingRead (c_controlBus m))) (cu1_pendingRead cu),
    cu1_blocked := Gauge_Push (if BufferedBus_CanGet (c_controlBus m) then 1 else 0) (cu1_blocked cu),
    cu1_total := cu1_total cu + 1\<rparr>)"
  have "none_skipped (on_cu61 g m)" by (simp add: none_skipped_def on_cu61_def g_def)
  moreover have "issue_order61 (on_cu61 g m) = issue_order61 m" "cells_ok (on_cu61 g m)"
    using assms own [of g m] by (simp_all add: g_def)
  ultimately show "issue_order61 (controlUnit61_cycle m) = issue_order61 m" and "cells_ok (controlUnit61_cycle m)"
    using work [of "on_cu61 g m"] by (simp_all add: controlUnit61_cycle_def Let_def split_beta own g_def)
qed

end
