(* ===== verification/Forwarding.thy ===== *)
theory Forwarding
  imports Mvp61 Waiting PipelineRuns
begin

text \<open>
  What holds of MVP-6.1: its units put their results on the write bus for the next cycle, so that the
  inner loops end as in MVP-6.0; a forwarded value is the one that the register gets; and a run in
  which a chain of forwards goes wrong.
\<close>

section \<open>The inner loops\<close>

lemma later_store [simp]:
  "later (m\<lparr>c_runners := x\<rparr>) m" "later (m\<lparr>c_channels := y\<rparr>) m" "later (m\<lparr>c_forwards := z\<rparr>) m"
  "later (on_cu61 g m) m" "later (newCell r m) m" "later (linkRunners p register a m) m"
  "later (setForward i pc f m) m" "later (clearForward app pc m) m"
  by (auto simp: on_cu61_def newCell_def linkRunners_def setForward_def clearForward_def Let_def
      intro!: later_frame split: sum.splits)

lemma pushRunner61_later: "later (snd (pushRunner61 a m)) m"
  by (auto simp: pushRunner61_def intro!: later_frame)

lemma notePushed_later [simp]: "later (notePushed a m) m"
  by (simp add: notePushed_def)

interpretation later_control61: control61_invariant "\<lambda>m'. later m' m" for m
proof
  fix m1 m2 :: cpu61 and g b r a previous register pushed
  assume m1: "later m1 m"
  note step = later_trans [OF _ m1]
  show "later (on_cu61 g m1) m" "later (newCell r m1) m"
    by (rule step; simp)+
  then show "later (on_cu61 g m1) m" by simp
  show "later (m1\<lparr>c_controlBus := b\<rparr>) m"
    using m1 by (simp add: later_def)
  show "later (notePushed a m2) m" if "pushRunner61 a m1 = (True, m2)"
    using that step [OF later_trans [OF notePushed_later pushRunner61_later [of a m1]]] by simp
  show "later (if pushed then notePushed a m2 else m2) m"
    if "pushRunner61 a (linkRunners previous register a m1) = (pushed, m2)"
  proof -
    have "later m2 (linkRunners previous register a m1)"
      using pushRunner61_later [of a "linkRunners previous register a m1"] that by simp
    then have "later m2 m1" by (rule later_trans) simp
    moreover have "later (if pushed then notePushed a m2 else m2) m2" by simp
    ultimately show ?thesis using step later_trans by blast
  qed
qed

interpretation later61: unit_steps61 later
  by unfold_locales (simp_all add: later_def setForward_def)

interpretation w61: writing_units units61
proof
  fix app :: app and m m' :: cpu61 and k r
  show "un_decode units61 app m = Inr m' \<Longrightarrow> later m' m"
    using decodeUnit6_later [of "clearForward app"] by (simp add: units61_def mvp61_decodeUnit_cycle_def)
  show "later (un_control units61 m) m"
    by (simp add: units61_def later_control61.cycle)
  show "later (un_flushControl units61 m) m"
    by (simp add: units61_def controlUnit61_flush_def)
  show "un_execute units61 k app m = Inr (r, m') \<Longrightarrow> later m' m"
    by (simp add: units61_def later61.executeUnit61_step)
qed

inductive mvp61_reaches :: "app \<Rightarrow> bool \<Rightarrow> nat \<Rightarrow> mode6 \<times> cpu61 \<Rightarrow> bool" for app debug n where
  start: "mvp61_NewCPU debug n = Inr m \<Longrightarrow> mvp61_reaches app debug n (Cycling, m)"
| step: "mvp61_reaches app debug n s \<Longrightarrow> mvp61_step app s = Inr (Continue s') \<Longrightarrow> mvp61_reaches app debug n s'"

lemma mvp61_new_times: "mvp61_NewCPU debug n = Inr m \<Longrightarrow> times_ok m"
  by (auto simp: mvp61_NewCPU_def newCPU6_def times_ok_def NewBufferedBus_def cpu6.defs cpu61.defs)

lemma mvp61_reaches_modes: "mvp61_reaches app debug n s \<Longrightarrow> modes_ok s"
proof (induction rule: mvp61_reaches.induct)
  case (start m)
  then show ?case using mvp61_new_times by (simp add: modes_ok_def)
next
  case (step s s')
  from w61.step_modes_ok [OF step.IH step.hyps(2) [unfolded mvp61_step_def]] show ?case .
qed

section \<open>Waiting for the first instruction\<close>

definition idle_cu61 :: "controlUnit61 \<Rightarrow> bool" where
  "idle_cu61 cu \<longleftrightarrow> Queue_Iterator (cu1_pendings cu) = [] \<and> cu1_skippedInCurrentCycle cu = []
     \<and> cu1_pushedRunnersInPreviousCycle cu = [] \<and> cu1_pushedRunnersInCurrentCycle cu = []"

definition tick_cu61 :: "int \<Rightarrow> controlUnit61 \<Rightarrow> controlUnit61" where
  "tick_cu61 k cu = (let push = (\<lambda>g. g\<lparr>gauge_count := gauge_count g + k\<rparr>) in
     cu\<lparr>cu1_pushed := push (cu1_pushed cu), cu1_pending := push (cu1_pending cu),
        cu1_pendingRead := push (cu1_pendingRead cu), cu1_blocked := push (cu1_blocked cu),
        cu1_total := cu1_total cu + k\<rparr>)"

lemma incoming61_empty: "bb_queue (c_controlBus m) = [] \<Longrightarrow> incoming61_loop n m = (n, m)"
  by (subst incoming61_loop.simps) (simp add: Get_empty)

lemma controlUnit61_idle:
  assumes "idle_cu61 (c_controlUnit m)" and "bb_queue (c_controlBus m) = []" and "BufferedBus_CanAdd (c_executeBus m)"
  shows "controlUnit61_cycle m = m\<lparr>c_controlUnit := tick_cu61 1 (c_controlUnit m)\<rparr>"
proof -
  have "cu\<lparr>cu1_skippedInCurrentCycle := [], cu1_pushedRunnersInPreviousCycle := [],
      cu1_pushedRunnersInCurrentCycle := []\<rparr> = cu" if "idle_cu61 cu" for cu
    using that by (cases cu) (simp add: idle_cu61_def)
  from this [of "tick_cu61 1 (c_controlUnit m)"] assms show ?thesis
    by (simp add: controlUnit61_cycle_def controlUnit61_work_def incoming61_empty idle_cu61_def
        tick_cu61_def on_cu61_def BufferedBus_PendingRead_def BufferedBus_CanGet_def push_nothing Let_def
        Queue_Length_def Queue_Iterator_def)
qed

interpretation idle61: idle_units units61 cu1_pendings idle_cu61 tick_cu61
proof
  fix m :: cpu61 and app and i :: nat
  show "un_decode units61 app m = Inr (m\<lparr>c_decodeUnit := tick_du 1 (c_decodeUnit m)\<rparr>)"
    if "bb_queue (c_decodeBus m) = []"
    using that by (simp add: units61_def mvp61_decodeUnit_cycle_def decodeUnit6_idle)
  show "un_control units61 m = m\<lparr>c_controlUnit := tick_cu61 1 (c_controlUnit m)\<rparr>"
    if "idle_cu61 (c_controlUnit m)" "bb_queue (c_controlBus m) = []" "BufferedBus_CanAdd (c_executeBus m)"
    using controlUnit61_idle [OF that] by (simp add: units61_def)
  show "un_execute units61 i app m = Inr (noResp, m)"
    if "eu6_coroutine (c_executeUnits m ! i) = None" "bb_queue (c_executeBus m) = []"
    using that by (simp add: units61_def executeUnit61_cycle_def Get_empty Let_def)
qed (simp_all add: tick_cu61_def idle_cu61_def Let_def ac_simps)

definition state61_after :: "nat \<Rightarrow> app \<Rightarrow> (mode6 \<times> cpu61) option" where
  "state61_after = state_after (mvp61_NewCPU False 8) units61 cu1_pendings idle_cu61 tick_cu61"

lemma reaches61_continues:
  "mvp61_reaches app debug n s \<Longrightarrow> continues (mvp61_step app) k s = Some s' \<Longrightarrow> mvp61_reaches app debug n s'"
  by (induction k arbitrary: s) (auto split: sum.splits outcome.splits intro: mvp61_reaches.step)

lemma state61_after:
  assumes "state61_after k app = Some s"
  obtains m where "mvp61_NewCPU False 8 = Inr m" and "mvp61_reaches app False 8 s"
    and "\<And>n. mvp61_Run (50 + (k + n)) m app = run_loop (mvp61_step app) n s"
proof -
  from idle61.state_after [OF assms [unfolded state61_after_def]] obtain m where
    m: "mvp61_NewCPU False 8 = Inr m" and s: "continues (mvp61_step app) (50 + k) (Cycling, m) = Some s"
    and run: "\<And>n. mvp61_Run (50 + (k + n)) m app = run_loop (mvp61_step app) n s"
    by (auto simp: mvp61_step_def mvp61_Run_def)
  from reaches61_continues [OF mvp61_reaches.start [OF m] s] m run that show thesis by blast
qed

section \<open>Programs\<close>

definition returns61 :: "RegisterType \<Rightarrow> int32 \<Rightarrow> cpu61 result option \<Rightarrow> bool" where
  "returns61 r v res \<longleftrightarrow> (case res of Some (Inr m) \<Rightarrow> map_get (Registers (c_ctx m)) r = v | _ \<Rightarrow> False)"

lemma returns61_iff: "returns61 r v res \<longleftrightarrow> (\<exists>m. res = Some (Inr m) \<and> map_get (Registers (c_ctx m)) r = v)"
  by (auto simp: returns61_def split: option.splits sum.splits)

text \<open>Three instructions in a row, each of which needs the result of the one before it: the second link
  overwrites the register for which the second instruction receives a value.\<close>

definition chain_demo :: app where
  "chain_demo = \<lparr>Instructions = [I_li T0 7, I_addi 1 T1 T0, I_addi 1 T2 T1], Labels = Map.empty\<rparr>"

lemma chain_demo_run:
  "case state61_after 0 chain_demo of None \<Rightarrow> False
    | Some s \<Rightarrow> returns61 T1 1 (run_loop (mvp61_step chain_demo) 7 s)"
  by code_simp

lemma chain_demo_returns:
  "\<exists>m m'. mvp61_NewCPU False 8 = Inr m \<and> mvp61_Run 57 m chain_demo = Some (Inr m')
    \<and> map_get (Registers (c_ctx m')) T1 = 1"
proof -
  from chain_demo_run obtain s m' where s: "state61_after 0 chain_demo = Some s"
    and run: "run_loop (mvp61_step chain_demo) 7 s = Some (Inr m')" "map_get (Registers (c_ctx m')) T1 = 1"
    by (auto simp: returns61_iff split: option.splits)
  from state61_after [OF s] obtain m where "mvp61_NewCPU False 8 = Inr m"
    and "mvp61_Run (50 + (0 + 7)) m chain_demo = run_loop (mvp61_step chain_demo) 7 s"
    by blast
  with run show ?thesis by auto
qed

lemma chain_demo_arch:
  "\<exists>ctx. run_loop (arch_step Done chain_demo) 4 (0, NewContext False 8) = Some (Inr ctx) \<and> map_get (Registers ctx) T1 = 8"
proof -
  have "case run_loop (arch_step Done chain_demo) 4 (0, NewContext False 8) of
      Some (Inr ctx) \<Rightarrow> map_get (Registers ctx) T1 = 8 | _ \<Rightarrow> False"
    by code_simp
  then show ?thesis by (auto split: option.splits sum.splits)
qed

section \<open>The forwarded value\<close>

text \<open>With a forwarded value a register reads as after the write-back of that value.\<close>

definition forward_of :: "Execution \<Rightarrow> Forward" where
  "forward_of exe = \<lparr>FwdRegister = Register exe, FwdValue = RegisterValue exe\<rparr>"

definition forwardable :: "Execution \<Rightarrow> bool" where
  "forwardable exe \<longleftrightarrow> (Register exe = Zero \<longrightarrow> RegisterValue exe = 0)"

lemma registerRead_forward:
  assumes "forwardable exe" and "map_get (Registers ctx) Zero = 0"
  shows "registerRead ctx (forward_of exe) r = registerRead (WriteRegister ctx exe) noForward r"
  using assms by (auto simp: registerRead_def forward_of_def noForward_def WriteRegister_def forwardable_def)

lemma forwarded_run:
  assumes "forwardable exe" and "map_get (Registers ctx) Zero = 0"
  shows "map_sum id snd (Run (runner i (ForwardField (runner i f) (forward_of exe))) ctx labels pc memory) =
      map_sum id snd (Run (runner i noForward) (WriteRegister ctx exe) labels pc memory)"
  by (cases i) (simp_all add: op_defs registerRead_forward [OF assms] Let_def map_sum_rbind split_beta
      branch_to_def split: option.splits)

lemma forwarded_read:
  assumes "forwardable exe" and "map_get (Registers ctx) Zero = 0"
  shows "MemoryRead (runner i (ForwardField (runner i f) (forward_of exe))) ctx =
      MemoryRead (runner i noForward) (WriteRegister ctx exe)"
  by (cases i) (simp_all add: op_defs registerRead_forward [OF assms] Let_def)

text \<open>An instruction that declares a register writes it.\<close>

lemma run_writes:
  assumes "Run (runner i f) ctx labels pc memory = Inr (ctx', exe)"
    and "register \<in> set (WriteRegisters (runner i f))" and "register \<noteq> Zero"
  shows "RegisterChange exe \<and> Register exe = register"
  using assms by (cases i) (auto simp: run_defs split: option.splits if_splits)

text \<open>The link goes from a runner that writes the register to one that reads it, through a channel of
  their own.\<close>

lemma shouldUseForwarding_Some:
  assumes "shouldUseForwarding r hazards hazardTypes m = Some (previous, register)"
  shows "previous \<in> set (cu1_pushedRunnersInPreviousCycle (c_controlUnit m))" and "register \<noteq> Zero"
    and "register \<in> set (ReadRegisters (methods61 m r))"
    and "register \<in> set (WriteRegisters (methods61 m (c_runners m ! previous)))"
proof -
  from assms obtain rest where
    "concat (map (\<lambda>previous. map (Pair previous) (forward_matches r m previous))
      (cu1_pushedRunnersInPreviousCycle (c_controlUnit m))) = (previous, register) # rest"
    by (auto simp: shouldUseForwarding_def split: if_splits list.splits)
  then have "(previous, register) \<in> set (concat (map (\<lambda>previous. map (Pair previous) (forward_matches r m previous))
      (cu1_pushedRunnersInPreviousCycle (c_controlUnit m))))"
    by simp
  then show "previous \<in> set (cu1_pushedRunnersInPreviousCycle (c_controlUnit m))" and "register \<noteq> Zero"
    and "register \<in> set (ReadRegisters (methods61 m r))"
    and "register \<in> set (WriteRegisters (methods61 m (c_runners m ! previous)))"
    by (auto simp: forward_matches_def)
qed

lemma linkRunners_cells:
  assumes "previous < length (c_runners m)" and "a < length (c_runners m)" and "previous \<noteq> a"
    and "m' = linkRunners previous register a m"
  shows "c_runners m' ! previous =
      (c_runners m ! previous)\<lparr>rp_Forwarder := Some (length (c_channels m)), rp_ForwardRegister := register\<rparr>"
    and "c_runners m' ! a =
      (c_runners m ! a)\<lparr>rp_Receiver := Some (length (c_channels m)), rp_ForwardRegister := register\<rparr>"
    and "c_channels m' = c_channels m @ [None]"
  using assms by (simp_all add: linkRunners_def Let_def)

lemma finishRun61_sends:
  assumes "finishRun61 r exe m = Inr (resp, m')" and "rp_Forwarder r = Some ch" and "ch < length (c_channels m)"
  shows "c_channels m' ! ch = Some (RegisterValue exe)"
  using assms by (auto simp: finishRun61_def send61_def Let_def split: if_splits)

lemma receive61_methods:
  assumes "receive61 r m = Some m'" and "rp_Receiver r = Some ch" and "c_channels m ! ch = Some v"
  shows "methods61 m' r = runner (rp_Runner r) (ForwardField (methods61 m r)
    \<lparr>FwdRegister = rp_ForwardRegister r, FwdValue = v\<rparr>)"
  using assms by (auto simp: receive61_def setForward_def methods61_def)

lemma methods61_runner: "\<exists>f. methods61 m r = runner (rp_Runner r) f"
  unfolding methods61_def by blast

text \<open>The whole way of a value: the control unit links \<open>previous\<close> and \<open>a\<close>, \<open>previous\<close> runs and sends, \<open>a\<close>
  receives.\<close>

lemma forwarding_delivers:
  assumes link: "shouldUseForwarding (c_runners m ! a) hazards hazardTypes m = Some (previous, register)"
    and cells: "previous < length (c_runners m)" "a < length (c_runners m)" "previous \<noteq> a"
    and p: "p = c_runners (linkRunners previous register a m) ! previous"
    and r: "r = c_runners (linkRunners previous register a m) ! a"
    and run: "Run (methods61 m1 p) ctx1 labels1 pc1 memory1 = Inr (ctx2, exe)"
    and sends: "finishRun61 p exe m1 = Inr (resp, m2)" "length (c_channels m) < length (c_channels m1)"
    and receives: "c_channels m3 ! length (c_channels m) = c_channels m2 ! length (c_channels m)"
      "receive61 r m3 = Some m4"
    and zero: "map_get (Registers ctx) Zero = 0"
  shows "RegisterChange exe \<and> Register exe = register
    \<and> map_sum id snd (Run (methods61 m4 r) ctx labels pc memory) =
        map_sum id snd (Run (runner (rp_Runner r) noForward) (WriteRegister ctx exe) labels pc memory)
    \<and> MemoryRead (methods61 m4 r) ctx = MemoryRead (runner (rp_Runner r) noForward) (WriteRegister ctx exe)"
proof -
  note linked = linkRunners_cells [OF cells refl, of register]
  note choice = shouldUseForwarding_Some [OF link]
  obtain f g where f: "methods61 m1 p = runner (rp_Runner p) f" and g: "methods61 m3 r = runner (rp_Runner r) g"
    using methods61_runner by blast
  have "WriteRegisters (methods61 m1 p) = WriteRegisters (methods61 m (c_runners m ! previous))"
    by (simp add: methods61_def p linked(1)) (rule static_fields(3))
  with choice(4) have "register \<in> set (WriteRegisters (runner (rp_Runner p) f))" by (simp add: f)
  from run_writes [OF run [unfolded f] this choice(2)] have written: "RegisterChange exe" "Register exe = register"
    by simp_all
  from run_register(2) [OF run [unfolded f] written(1)] have "forwardable exe"
    by (simp add: forwardable_def)
  note as_written = forwarded_run [OF this zero] forwarded_read [OF this zero]
  have "c_channels m3 ! length (c_channels m) = Some (RegisterValue exe)"
    using finishRun61_sends [OF sends(1) _ sends(2)] receives(1) by (simp add: p linked(1))
  from receive61_methods [OF receives(2) _ this] have
    "methods61 m4 r = runner (rp_Runner r) (ForwardField (runner (rp_Runner r) g) (forward_of exe))"
    by (simp add: r linked(2) forward_of_def written(2) g [unfolded r linked(2)])
  with as_written written show ?thesis by simp
qed

end
