(* ===== verification/Flights61.thy ===== *)
theory Flights61
  imports Flights Forwarding
begin

text \<open>
  The instructions in flight in MVP-6.1. An instruction may be issued although it reads a register that
  another one in flight writes, when it is linked to that one. So the instructions in flight are not
  independent any more, but no two of them write the same register, and of two of them at most one reads
  what the other writes.
\<close>

section \<open>One-way conflicts\<close>

text \<open>\<open>feeds f g\<close>: an instruction with footprint \<open>f\<close> writes a register that one with \<open>g\<close> reads.\<close>

definition feeds :: "footprint \<Rightarrow> footprint \<Rightarrow> bool" where
  "feeds f g \<longleftrightarrow> (\<exists>r. r \<noteq> Zero \<and> r \<in> set (snd f) \<and> r \<in> set (fst g))"

definition same_target :: "footprint \<Rightarrow> footprint \<Rightarrow> bool" where
  "same_target f g \<longleftrightarrow> (\<exists>r. r \<noteq> Zero \<and> r \<in> set (snd f) \<and> r \<in> set (snd g))"

definition one_way :: "footprint multiset \<Rightarrow> bool" where
  "one_way F \<longleftrightarrow> (\<forall>f g. {#f, g#} \<subseteq># F \<longrightarrow> \<not> same_target f g \<and> \<not> (feeds f g \<and> feeds g f))"

lemma one_way_empty [simp]: "one_way {#}"
  by (simp add: one_way_def)

lemma one_way_mono: "one_way F \<Longrightarrow> G \<subseteq># F \<Longrightarrow> one_way G"
  unfolding one_way_def using subset_mset.order_trans by blast

lemma one_way_targets: "one_way F \<Longrightarrow> {#f, g#} \<subseteq># F \<Longrightarrow> \<not> same_target f g"
  unfolding one_way_def by blast

lemma one_way_add:
  assumes "one_way F" and new: "\<forall>g \<in># F. \<not> same_target f g \<and> \<not> feeds f g"
  shows "one_way (add_mset f F)"
  unfolding one_way_def
proof (intro allI impI)
  fix g h
  assume "{#g, h#} \<subseteq># add_mset f F"
  from pair_subset_add [OF this] consider "g = f" "h \<in># F" | "h = f" "g \<in># F" | "{#g, h#} \<subseteq># F"
    by blast
  then show "\<not> same_target g h \<and> \<not> (feeds g h \<and> feeds h g)"
  proof cases
    case 1
    with new show ?thesis by blast
  next
    case 2
    with new have "\<not> same_target f g" "\<not> feeds f g" by blast+
    with 2 show ?thesis by (auto simp: same_target_def)
  next
    case 3
    with assms(1) show ?thesis unfolding one_way_def by blast
  qed
qed

text \<open>An instruction all of whose hazards are read-after-write writes nothing that another one in flight
  reads or writes.\<close>

lemma only_raw_no_write_hazard:
  assumes "IsDataHazard3 ctx run = (hazards, hazardTypes)" and "hazardTypes \<subseteq> {ReadAfterWrite}"
    and "r \<in> set (WriteRegisters run)" and "r \<noteq> Zero"
  shows "\<not> pending (PendingWriteRegisters ctx) r \<and> \<not> pending (PendingReadRegisters ctx) r"
proof -
  have "HazardKind ` set (write_hazards ctx r) \<subseteq> {ReadAfterWrite}"
    using assms(1-3) by (auto simp: IsDataHazard3_def Let_def)
  then have "write_hazards ctx r = []"
    using hazard_kinds(2) [of ctx r] by (cases "write_hazards ctx r") auto
  with assms(4) show ?thesis by (simp add: write_hazards_Nil)
qed

lemma no_write_hazard_new:
  assumes "exact ctx F" and "\<And>r. r \<in> set (WriteRegisters run) \<Longrightarrow> r \<noteq> Zero \<Longrightarrow>
      \<not> pending (PendingWriteRegisters ctx) r \<and> \<not> pending (PendingReadRegisters ctx) r"
  shows "\<forall>g \<in># F. \<not> same_target (ReadRegisters run, WriteRegisters run) g \<and> \<not> feeds (ReadRegisters run, WriteRegisters run) g"
proof
  fix g
  assume "g \<in># F"
  have pending: "r \<in># read_total F \<Longrightarrow> pending (PendingReadRegisters ctx) r"
    "r \<in># write_total F \<Longrightarrow> pending (PendingWriteRegisters ctx) r" for r
    using assms(1) by (simp_all add: exact_def pending_iff)
  have "r \<noteq> Zero \<Longrightarrow> r \<in> set (fst g) \<Longrightarrow> pending (PendingReadRegisters ctx) r"
    "r \<noteq> Zero \<Longrightarrow> r \<in> set (snd g) \<Longrightarrow> pending (PendingWriteRegisters ctx) r" for r
    using total_member [OF \<open>g \<in># F\<close>] pending by (auto dest!: set_mset_mono)
  with assms(2) show "\<not> same_target (ReadRegisters run, WriteRegisters run) g \<and> \<not> feeds (ReadRegisters run, WriteRegisters run) g"
    by (fastforce simp: same_target_def feeds_def)
qed

lemma shouldUseForwarding_only_raw:
  assumes "shouldUseForwarding r hazards hazardTypes m = Some (previous, register)"
  shows "hazardTypes \<subseteq> {ReadAfterWrite}"
proof -
  have types: "card hazardTypes \<le> 1" "ReadAfterWrite \<in> hazardTypes"
    using assms by (auto simp: shouldUseForwarding_def not_less split: if_splits)
  have "finite (UNIV :: HazardType set)"
    by (rule finite_subset [of _ "{ReadAfterWrite, WriteAfterWrite, WriteAfterRead}"])
      (use HazardType.exhaust in auto)
  then have "finite hazardTypes" by (rule rev_finite_subset) simp
  with types show ?thesis by (auto simp: card_le_Suc0_iff_eq)
qed

section \<open>The invariant\<close>

definition view61 :: "(nat, runner61, controlUnit61, unit cpu61_ext) flight_view" where
  "view61 = \<lparr>fv_ok = \<lambda>m a. a < length (c_runners m), fv_bus = \<lambda>m a. runner_footprint (c_runners m ! a),
     fv_unit = runner_footprint, fv_allowed = one_way\<rparr>"

interpretation rules61: flight_rules view61
proof
  fix m m' :: cpu61 and F G
  show "cpu6.more m' = cpu6.more m \<Longrightarrow> fv_ok view61 m' = fv_ok view61 m \<and> fv_bus view61 m' = fv_bus view61 m"
    by (cases m; cases m') (simp add: view61_def)
  show "fv_allowed view61 {#}" by (simp add: view61_def)
  show "fv_allowed view61 F \<Longrightarrow> G \<subseteq># F \<Longrightarrow> fv_allowed view61 G"
    using one_way_mono by (simp add: view61_def)
qed

lemma runner_footprint61: "runner_footprint r = (ReadRegisters (methods61 m r), WriteRegisters (methods61 m r))"
  unfolding runner_footprint_def methods61_def using static_fields(2,3) by blast

lemma list_update_field:
  "f y = f (xs ! i) \<Longrightarrow> f (xs[i := y] ! j) = f (xs ! j)"
  by (cases "i < length xs"; cases "i = j") (simp_all add: list_update_beyond)

lemma linkRunners_runner [simp]:
  "rp_Runner (c_runners (linkRunners p register a m) ! x) = rp_Runner (c_runners m ! x)"
  "length (c_runners (linkRunners p register a m)) = length (c_runners m)"
  "c_ctx (linkRunners p register a m) = c_ctx m"
  by (simp_all add: linkRunners_def Let_def list_update_field [of rp_Runner])

lemma linkRunners_same: "same_flight view61 (linkRunners p register a m) m"
  by (simp add: same_flight_def view61_def runner_footprint_def) (simp add: linkRunners_def Let_def)

lemma same61 [simp]:
  "same_flight view61 (on_cu61 g m) m" "same_flight view61 (newCell r m) m"
  "same_flight view61 (setForward i pc f m) m"
  "same_flight view61 (clearForward app pc m) m" "same_flight view61 (m\<lparr>c_channels := x\<rparr>) m"
  by (auto simp: same_flight_def view61_def on_cu61_def newCell_def setForward_def
      clearForward_def nth_append Let_def split: sum.splits)

lemma push61_flight_ok:
  assumes "flight_ok view61 m" and "a < length (c_runners m)"
    and "\<And>r. r \<in> set (WriteRegisters (methods61 m (c_runners m ! a))) \<Longrightarrow> r \<noteq> Zero \<Longrightarrow>
      \<not> pending (PendingWriteRegisters (c_ctx m)) r \<and> \<not> pending (PendingReadRegisters (c_ctx m)) r"
  shows "flight_ok view61 (snd (pushRunner61 a m))"
proof -
  have "flight_ok view61 (m\<lparr>c_executeBus := BufferedBus_Add (c_executeBus m) a (c_cycle m),
      c_ctx := AddPendingRegisters (c_ctx m) (methods61 m (c_runners m ! a))\<rparr>)"
  proof (rule rules61.issue_flight_ok [OF assms(1)])
    show "fv_ok view61 m a" using assms(2) by (simp add: view61_def)
    show footprint: "fv_bus view61 m a =
        (ReadRegisters (methods61 m (c_runners m ! a)), WriteRegisters (methods61 m (c_runners m ! a)))"
      using runner_footprint61 by (simp add: view61_def)
    have "one_way (flights view61 m)" "exact (c_ctx m) (flights view61 m)"
      using assms(1) by (simp_all add: flight_ok_def view61_def)
    with one_way_add no_write_hazard_new [OF _ assms(3)] have
      "one_way (add_mset (fv_bus view61 m a) (flights view61 m))"
      unfolding footprint by blast
    then show "fv_allowed view61 (add_mset (fv_bus view61 m a) (flights view61 m))"
      by (simp add: view61_def)
  qed
  with assms(1) show ?thesis by (simp add: pushRunner61_def)
qed

interpretation control61: control61_invariant "flight_ok view61"
proof
  fix m m' :: cpu61 and g b r a hazards hazardTypes previous register pushed
  assume ok: "flight_ok view61 m"
  show "flight_ok view61 (on_cu61 g m)" "flight_ok view61 (m\<lparr>c_controlBus := b\<rparr>)" "flight_ok view61 (newCell r m)"
    using ok by (simp_all add: same_flight_ok [OF same61(1)] same_flight_ok [OF same61(2)] rules61.flight_ok_update)
  then show "flight_ok view61 (on_cu61 g m)" by simp
  assume a: "a < length (c_runners m)"
  have noted: "flight_ok view61 (notePushed b m1)" if "flight_ok view61 m1" for b m1
    using same_flight_ok [OF same61(1) that] by (simp add: notePushed_def)
  show "flight_ok view61 (notePushed a m')" if "pushRunner61 a m = (True, m')"
    and no: "fst (IsDataHazard3 (c_ctx m) (methods61 m (c_runners m ! a))) = []"
  proof -
    have "flight_ok view61 (snd (pushRunner61 a m))"
      using push61_flight_ok [OF ok a] no unfolding IsDataHazard3_none by blast
    with noted that(1) show ?thesis by simp
  qed
  let ?m = "linkRunners previous register a m"
  assume h: "IsDataHazard3 (c_ctx m) (methods61 m (c_runners m ! a)) = (hazards, hazardTypes)"
    "shouldUseForwarding (c_runners m ! a) hazards hazardTypes m = Some (previous, register)"
  note free = only_raw_no_write_hazard [OF h(1) shouldUseForwarding_only_raw [OF h(2)]]
  have "runner_footprint (c_runners ?m ! a) = runner_footprint (c_runners m ! a)"
    by (simp add: runner_footprint_def)
  then have "WriteRegisters (methods61 ?m (c_runners ?m ! a)) = WriteRegisters (methods61 m (c_runners m ! a))"
    using runner_footprint61 [of "c_runners ?m ! a" ?m] runner_footprint61 [of "c_runners m ! a" m] by simp
  then have "\<not> pending (PendingWriteRegisters (c_ctx ?m)) r \<and> \<not> pending (PendingReadRegisters (c_ctx ?m)) r"
    if "r \<in> set (WriteRegisters (methods61 ?m (c_runners ?m ! a)))" "r \<noteq> Zero" for r
    using free [of r] that by simp
  with push61_flight_ok [OF same_flight_ok [OF linkRunners_same ok]] a
  have "flight_ok view61 (snd (pushRunner61 a ?m))" by simp
  with noted show "flight_ok view61 (if pushed then notePushed a m' else m')" if "pushRunner61 a ?m = (pushed, m')"
    using that by simp
qed

section \<open>The execute units\<close>

lemma finishRun61_flight_ok:
  assumes "holding view61 (fv_unit view61 r) m" and "finishRun61 r exe m = Inr (resp, m')"
  shows "flight_ok view61 m'"
proof -
  let ?e = "writeContext6 (methods61 m r) (rp_Pc r) exe"
  let ?m1 = "m\<lparr>c_writeBus := BufferedBus_Add (c_writeBus m) ?e (c_cycle m)\<rparr>"
  have ok: "flight_ok view61 ?m1"
    using rules61.holding_write_bus [of ?e m] assms(1) runner_footprint61 [of r m]
    by (simp add: context_footprint_def writeContext6_def view61_def)
  have "same_flight view61 m' ?m1"
    using assms(2) rules61.reportBranch6_same
    by (auto simp: finishRun61_def send61_def Let_def split: option.splits if_splits)
  from same_flight_ok [OF this ok] show ?thesis .
qed

lemma run61_flight_ok:
  assumes "flight_ok view61 m" and "executing k r m" and "run61 k r app m = Inr (resp, m')"
  shows "flight_ok view61 m'"
proof -
  have "fv_unit view61 r = (ReadRegisters (methods61 m r), WriteRegisters (methods61 m r))"
    using runner_footprint61 by (simp add: view61_def)
  from rules61.run6_flight_ok [OF assms(1,2) this [unfolded methods61_def] finishRun61_flight_ok
      assms(3) [unfolded run61_def methods61_def]] show ?thesis .
qed

lemma prepareRun61_flight_ok:
  assumes "flight_ok view61 m" and "executing k r m" and "prepareRun61 k r app m = Inr (resp, m')"
  shows "flight_ok view61 m'"
proof (cases "\<not> BufferedBus_CanAdd (c_writeBus m) \<or> receive61 r m = None")
  case True
  with assms show ?thesis by (auto simp: prepareRun61_def split: option.splits)
next
  case False
  then obtain m1 where m1: "receive61 r m = Some m1" by auto
  let ?m = "btb6_assert (rp_Runner r) (rp_Pc r) m1"
  have "same_flight view61 m1 m"
    using m1 same_flight_trans [OF same61(3) same61(5)] by (auto simp: receive61_def split: option.splits)
  then have same: "same_flight view61 ?m m"
    using same_flight_trans rules61.btb6_same(1) by blast
  note ready = same_flight_ok [OF same assms(1)] executing_same [OF same assms(2)]
  consider addrs where "load6 k addrs ?m = Inr (resp, m')" | "run61 k r app ?m = Inr (resp, m')"
    using assms(3) m1 False by (auto simp: prepareRun61_def Let_def split: if_splits)
  then show ?thesis
  proof cases
    case 1
    with rules61.load6_flight_ok [OF ready] show ?thesis by blast
  next
    case 2
    with run61_flight_ok [OF ready] show ?thesis by blast
  qed
qed

lemma executeUnit61_flight_ok:
  assumes "flight_ok view61 m" and "k < length (c_executeUnits m)"
    and "executeUnit61_cycle k app m = Inr (resp, m')"
  shows "flight_ok view61 m'"
proof (cases "eu6_coroutine (c_executeUnits m ! k)")
  case (Some co)
  with assms(1,2) obtain r where r: "eu6_runner (c_executeUnits m ! k) = Some r"
    by (auto simp: flight_ok_def places_ok_def busy_units_ok_def)
  then have busy: "executing k r m" using Some assms(2) by (simp add: executing_def)
  have "resume6 (prepareRun61 k r app) (run61 k r app) k co m = Inr (resp, m')"
    using assms(3) Some r by (simp add: executeUnit61_cycle_def executeUnit61_resume_def)
  from rules61.resume6_flight_ok [OF assms(1) busy _ _ this] prepareRun61_flight_ok run61_flight_ok
  show ?thesis by blast
next
  case None
  obtain got b where get: "BufferedBus_Get (c_executeBus m) = (got, b)" by force
  show ?thesis
  proof (cases got)
    case None
    with get contents_bus(4) have "b = c_executeBus m" by blast
    with get None \<open>eu6_coroutine (c_executeUnits m ! k) = None\<close> assms show ?thesis
      by (simp add: executeUnit61_cycle_def Let_def)
  next
    case (Some a)
    let ?r = "c_runners m ! a"
    have "holding view61 (fv_unit view61 ?r) (m\<lparr>c_executeBus := b\<rparr>)"
      using rules61.take_issued [OF assms(1) get [unfolded Some]] by (simp add: view61_def)
    from prepareRun61_flight_ok [OF rules61.holding_to_unit [OF this, of k PrepareRun]] assms(2,3) None get Some
    show ?thesis by (simp add: executeUnit61_cycle_def Let_def)
  qed
qed

interpretation flight61: flight_units view61 units61
proof
  fix app and m m' :: cpu61 and k resp
  show "un_decode units61 app m = Inr m' \<Longrightarrow> same_flight view61 m' m"
    using rules61.decodeUnit6_same [of "clearForward app"]
    by (simp add: units61_def mvp61_decodeUnit_cycle_def) (simp add: clearForward_def setForward_def split: sum.splits)
  show "flight_ok view61 m \<Longrightarrow> flight_ok view61 (un_control units61 m)"
    by (simp add: units61_def control61.cycle)
  show "same_flight view61 (un_flushControl units61 m) m"
    by (simp add: units61_def controlUnit61_flush_def)
  show "flight_ok view61 m \<Longrightarrow> k < length (c_executeUnits m) \<Longrightarrow> un_execute units61 k app m = Inr (resp, m')
      \<Longrightarrow> flight_ok view61 m'"
    by (simp add: units61_def executeUnit61_flight_ok)
qed

lemma mvp61_new_ok: "mvp61_NewCPU debug n = Inr m \<Longrightarrow> flight_ok view61 m"
  by (rule flight61.new_flight_ok) (auto simp: mvp61_NewCPU_def newCPU6_def cpu6.defs cpu61.defs)

lemma mvp61_reaches_ok: "mvp61_reaches app debug n s \<Longrightarrow> mode_flight_ok view61 s"
proof (induction rule: mvp61_reaches.induct)
  case (start m)
  then show ?case by (simp add: mode_flight_ok_def mvp61_new_ok)
next
  case (step s s')
  from flight61.step_flight_ok [OF step.IH step.hyps(2) [unfolded mvp61_step_def]] show ?case .
qed

end
