(* ===== verification/ForwardChoice.thy ===== *)
theory ForwardChoice
  imports Flights61
begin

text \<open>
  The producer that MVP-6.1 chooses for a forwarded register. The instructions that were pushed in the
  previous cycle are still on the execute bus when the control unit looks at them, so each of them is in
  flight. As at most one instruction in flight writes a register, and the instruction that is to be issued
  has only one hazard, there is one choice, whatever the order in which the map of pushed runners is
  iterated.
\<close>

section \<open>Pushed runners are still on the bus\<close>

definition buffered :: "('r, 'e, 'c, 'z) cpu6_scheme \<Rightarrow> 'r set" where
  "buffered m = entry_t ` set (bb_buffer (c_executeBus m))"

lemma buffered_contents: "buffered m \<subseteq> set (BufferedBus_contents (c_executeBus m))"
  by (auto simp: buffered_def BufferedBus_contents_def)

interpretation pushed61: control61_property
  "\<lambda>m. set (cu1_pushedRunnersInCurrentCycle (c_controlUnit m)) \<subseteq> buffered m"
proof
  fix m m' :: cpu61 and g b r a previous register pushed
  let ?P = "\<lambda>m :: cpu61. set (cu1_pushedRunnersInCurrentCycle (c_controlUnit m)) \<subseteq> buffered m"
  assume m: "?P m"
  have push: "?P (if pushed then notePushed a m' else m')" if "pushRunner61 a m1 = (pushed, m')" "?P m1" for m1 pushed
    using that by (auto simp: pushRunner61_def notePushed_def on_cu61_def buffered_def BufferedBus_Add_def split: if_splits)
  show "quiet g \<Longrightarrow> ?P (on_cu61 g m)"
    using m by (simp add: quiet_def on_cu61_def buffered_def)
  show "?P (m\<lparr>c_controlBus := b\<rparr>)" "?P (newCell r m)"
    using m by (simp_all add: buffered_def newCell_def)
  show "pushRunner61 a m = (True, m') \<Longrightarrow> ?P (notePushed a m')"
    using push [of m True] m by simp
  have "?P (linkRunners previous register a m)"
    using m by (simp add: linkRunners_def Let_def buffered_def)
  then show "pushRunner61 a (linkRunners previous register a m) = (pushed, m') \<Longrightarrow>
      ?P (if pushed then notePushed a m' else m')"
    using push by blast
qed

text \<open>After a cycle of the control unit they are in the buffer of the bus, which the execute units do not
  take from.\<close>

definition fresh :: "cpu61 \<Rightarrow> bool" where
  "fresh m \<longleftrightarrow> set (cu1_pushedRunnersInPreviousCycle (c_controlUnit m)) \<subseteq> buffered m"

lemma controlUnit61_fresh: "fresh (controlUnit61_cycle m)"
proof -
  define g where "g = (\<lambda>cu :: controlUnit61. cu\<lparr>cu1_pushedRunnersInCurrentCycle := [], cu1_skippedInCurrentCycle := [],
    cu1_pendingRead := Gauge_Push (int (BufferedBus_PendingRead (c_controlBus m))) (cu1_pendingRead cu),
    cu1_blocked := Gauge_Push (if BufferedBus_CanGet (c_controlBus m) then 1 else 0) (cu1_blocked cu),
    cu1_total := cu1_total cu + 1\<rparr>)"
  have "set (cu1_pushedRunnersInCurrentCycle (c_controlUnit (on_cu61 g m))) \<subseteq> buffered (on_cu61 g m)"
    by (simp add: g_def on_cu61_def)
  from pushed61.work [OF this] show ?thesis
    by (simp add: controlUnit61_cycle_def Let_def split_beta g_def [symmetric] fresh_def)
      (simp add: on_cu61_def buffered_def)
qed

definition keeps_fresh :: "('r, 'e, 'c, 'z) cpu6_scheme \<Rightarrow> ('r, 'e, 'c, 'z) cpu6_scheme \<Rightarrow> bool" where
  "keeps_fresh m' m \<longleftrightarrow> c_controlUnit m' = c_controlUnit m \<and> buffered m' = buffered m"

interpretation keeps6: unit_steps keeps_fresh
  by unfold_locales (auto simp: keeps_fresh_def buffered_def)

lemma keeps_fresh_fresh: "keeps_fresh m' m \<Longrightarrow> fresh m \<Longrightarrow> fresh m'"
  by (simp add: keeps_fresh_def fresh_def)

interpretation keeps61: unit_steps61 keeps_fresh
  by unfold_locales (auto simp: keeps_fresh_def buffered_def setForward_def BufferedBus_Get_def split: list.splits)

lemma executeUnits61_keeps: "executeUnits_cycle units61 app ks a m = Inr (r, m') \<Longrightarrow> keeps_fresh m' m"
  by (induction ks arbitrary: a m)
    (auto simp: units61_def keeps6.refl dest: keeps61.executeUnit61_step intro: keeps6.trans)

lemma writeUnit6_keeps: "writeUnit6_cycle from k m = Inr m' \<Longrightarrow> keeps_fresh m' m"
  by (auto simp: writeUnit6_cycle_def keeps_fresh_def buffered_def Let_def split_beta split: option.splits if_splits)

lemma writeUnits_keep: "writeUnits_cycle from ks m = Inr m' \<Longrightarrow> keeps_fresh m' m"
  by (induction ks arbitrary: m) (auto simp: keeps6.refl dest: writeUnit6_keeps intro: keeps6.trans)

lemma cycle61_fresh:
  assumes "cpu6_cycle units61 app m = Inr (r, m')"
  shows "fresh m'"
proof -
  from assms obtain m2 m4 where
    m4: "executeUnits_cycle units61 app [0..<length (c_executeUnits m2)] noResp (controlUnit61_cycle m2) = Inr (r, m4)"
    and m': "writeUnits_cycle (-1) [0..<length (c_writeUnits m4)] m4 = Inr m'"
    by (auto simp: cpu6_cycle_def units61_def)
  from controlUnit61_fresh [of m2] executeUnits61_keeps [OF m4] writeUnits_keep [OF m'] show ?thesis
    using keeps_fresh_fresh by blast
qed

lemma mvp61_reaches_fresh: "mvp61_reaches app debug n s \<Longrightarrow> fst s = Cycling \<longrightarrow> fresh (snd s)"
proof (induction rule: mvp61_reaches.induct)
  case (start m)
  then have "c_controlUnit m = newControlUnit61"
    by (auto simp: mvp61_NewCPU_def newCPU6_def cpu6.defs cpu61.defs)
  then show ?case by (simp add: fresh_def newControlUnit61_def)
next
  case (step s s')
  obtain mode m where s: "s = (mode, m)" by force
  note next_state = step.hyps(2) [unfolded mvp61_step_def cpu6_step_def s]
  show ?case
  proof (cases mode)
    case Cycling
    with next_state show ?thesis by (auto split: if_splits dest: cycle61_fresh)
  next
    case Returning
    with next_state show ?thesis by (auto split: if_splits)
  next
    case (Draining k src pc)
    with next_state show ?thesis
      by (auto simp: fresh_def cpu6_flush_def units61_def controlUnit61_flush_def on_cu61_def Let_def split: if_splits)
  qed
qed

section \<open>One choice\<close>

text \<open>The pairs that the loops of \<open>shouldUseForwarding\<close> find, if the map is iterated in this order.\<close>

definition candidates :: "runner61 \<Rightarrow> cpu61 \<Rightarrow> nat list \<Rightarrow> (nat \<times> RegisterType) list" where
  "candidates r m order = concat (map (\<lambda>previous. map (Pair previous) (forward_matches r m previous)) order)"

definition previously_pushed :: "cpu61 \<Rightarrow> nat list" where
  "previously_pushed m = cu1_pushedRunnersInPreviousCycle (c_controlUnit m)"

definition iterate_in :: "nat list \<Rightarrow> cpu61 \<Rightarrow> cpu61" where
  "iterate_in order = on_cu61 (\<lambda>cu. cu\<lparr>cu1_pushedRunnersInPreviousCycle := order\<rparr>)"

text \<open>The contract: what is in flight, and where the runners are that were pushed before.\<close>

definition control_ok :: "cpu61 \<Rightarrow> bool" where
  "control_ok m \<longleftrightarrow> flight_ok view61 m \<and> set (previously_pushed m) \<subseteq> set (BufferedBus_contents (c_executeBus m))"

lemma mvp61_reaches_control_ok: "mvp61_reaches app debug n (Cycling, m) \<Longrightarrow> control_ok m"
  using mvp61_reaches_ok [of app debug n "(Cycling, m)"] mvp61_reaches_fresh [of app debug n "(Cycling, m)"]
    buffered_contents [of m]
  by (auto simp: control_ok_def mode_flight_ok_def fresh_def previously_pushed_def)

text \<open>It holds whenever the control unit looks at an instruction in its cycle.\<close>

interpretation choice61: control61_property control_ok
proof
  fix m m' :: cpu61 and g b r a hazards hazardTypes previous register pushed
  assume ok: "control_ok m"
  note flight = ok [unfolded control_ok_def, THEN conjunct1]
  note on_bus = ok [unfolded control_ok_def previously_pushed_def, THEN conjunct2]
  have frame: "control_ok m1" if "flight_ok view61 m1" "c_executeBus m1 = c_executeBus m"
      "cu1_pushedRunnersInPreviousCycle (c_controlUnit m1) = cu1_pushedRunnersInPreviousCycle (c_controlUnit m)" for m1
    using that on_bus by (simp add: control_ok_def previously_pushed_def)
  have push: "set (previously_pushed m2) \<subseteq> set (BufferedBus_contents (c_executeBus m2))"
    if "pushRunner61 a m1 = (pushed, m')" "m2 = (if pushed then notePushed a m' else m')"
      "c_executeBus m1 = c_executeBus m" "c_controlUnit m1 = c_controlUnit m" for m1 m2 a pushed
    using that on_bus by (auto simp: pushRunner61_def notePushed_def on_cu61_def previously_pushed_def contents_bus(1)
        split: if_splits)
  show "quiet g \<Longrightarrow> control_ok (on_cu61 g m)"
    using frame [OF control61.any_own_state [OF flight]] by (simp add: quiet_def on_cu61_def)
  show "control_ok (m\<lparr>c_controlBus := b\<rparr>)" "control_ok (newCell r m)"
    using frame [OF control61.take_from_bus [OF flight]] frame [OF control61.new_cell [OF flight]]
    by (simp_all add: newCell_def)
  assume a: "a < length (c_runners m)"
  show "control_ok (notePushed a m')" if "fst (IsDataHazard3 (c_ctx m) (methods61 m (c_runners m ! a))) = []"
      "pushRunner61 a m = (True, m')"
    using control61.issue [OF flight a that] push [OF that(2), of "notePushed a m'"] by (simp add: control_ok_def)
  show "control_ok (if pushed then notePushed a m' else m')"
    if h: "IsDataHazard3 (c_ctx m) (methods61 m (c_runners m ! a)) = (hazards, hazardTypes)"
      "shouldUseForwarding (c_runners m ! a) hazards hazardTypes m = Some (previous, register)"
      and p: "pushRunner61 a (linkRunners previous register a m) = (pushed, m')"
  proof -
    have "c_executeBus (linkRunners previous register a m) = c_executeBus m"
      "c_controlUnit (linkRunners previous register a m) = c_controlUnit m"
      by (simp_all add: linkRunners_def Let_def)
    from control61.forward [OF flight a h p] push [OF p refl this] show ?thesis
      unfolding control_ok_def by blast
  qed
qed

lemma shouldUseForwarding_candidates:
  "shouldUseForwarding r hazards hazardTypes m =
    (if 1 < card hazardTypes \<or> ReadAfterWrite \<notin> hazardTypes \<or> 1 < length hazards then None
     else case candidates r m (previously_pushed m) of [] \<Rightarrow> None | match # _ \<Rightarrow> Some match)"
  by (simp add: shouldUseForwarding_def candidates_def previously_pushed_def)

lemma candidates_iterate [simp]: "candidates r (iterate_in order m) xs = candidates r m xs"
  by (simp add: candidates_def forward_matches_def iterate_in_def on_cu61_def methods61_def)

lemma candidates_set:
  "set (candidates r m order) = {(p, q). p \<in> set order \<and> q \<in> set (forward_matches r m p)}"
  by (auto simp: candidates_def)

lemma pair_in_mset:
  assumes "x \<in> set xs" and "y \<in> set xs" and "x \<noteq> y"
  shows "{#f x, f y#} \<subseteq># image_mset f (mset xs)"
proof -
  have "{#x, y#} \<subseteq># mset xs"
    using assms by (simp add: insert_subset_eq_iff in_diff_count)
  from image_mset_subseteq_mono [OF this, of f] show ?thesis by simp
qed

lemma same_targetI: "q \<noteq> Zero \<Longrightarrow> q \<in> set (snd f) \<Longrightarrow> q \<in> set (snd g) \<Longrightarrow> same_target f g"
  unfolding same_target_def by blast

lemma bus_in_flights:
  "image_mset (\<lambda>a. runner_footprint (c_runners m ! a)) (mset (BufferedBus_contents (c_executeBus m))) \<subseteq># flights view61 m"
proof -
  have "flights view61 m = image_mset (\<lambda>a. runner_footprint (c_runners m ! a)) (mset (BufferedBus_contents (c_executeBus m)))
      + (sum_list (map (eu_flights runner_footprint) (c_executeUnits m))
         + image_mset context_footprint (mset (BufferedBus_contents (c_writeBus m)))
         + sum_list (map wu_flights (c_writeUnits m)))"
    by (simp add: flights_def view61_def add.assoc)
  then show ?thesis by (metis mset_subset_eq_add_left)
qed

text \<open>A candidate is in flight, so its register is pending and is the only hazard.\<close>

lemma candidate:
  assumes ok: "control_ok m" and hazards: "IsDataHazard3 (c_ctx m) (methods61 m r) = (hazards, hazardTypes)"
    and one: "length hazards \<le> 1" and cand: "(p, q) \<in> set (candidates r m (previously_pushed m))"
  shows "p \<in> set (BufferedBus_contents (c_executeBus m))" and "q \<noteq> Zero"
    and "q \<in> set (snd (runner_footprint (c_runners m ! p)))"
    and "hazards = [\<lparr>HazardKind = ReadAfterWrite, HazardRegister = q\<rparr>]"
proof -
  let ?f = "runner_footprint (c_runners m ! p)"
  from cand have p: "p \<in> set (previously_pushed m)" and q: "q \<in> set (forward_matches r m p)"
    by (simp_all add: candidates_set)
  with ok show bus: "p \<in> set (BufferedBus_contents (c_executeBus m))" by (auto simp: control_ok_def)
  from q show "q \<noteq> Zero" and written: "q \<in> set (snd ?f)"
    using runner_footprint61 [of "c_runners m ! p" m] by (auto simp: forward_matches_def)
  from q have "q \<in> set (ReadRegisters (methods61 m r))" by (auto simp: forward_matches_def)
  have "?f \<in># flights view61 m" using bus by (simp add: flights_def view61_def)
  from total_member(2) [OF this] written \<open>q \<noteq> Zero\<close> have "q \<in># write_total (flights view61 m)"
    by (auto dest!: set_mset_mono)
  with ok have "pending (PendingWriteRegisters (c_ctx m)) q"
    by (simp add: control_ok_def flight_ok_def exact_def pending_iff)
  with \<open>q \<noteq> Zero\<close> have "read_hazards (c_ctx m) q = [\<lparr>HazardKind = ReadAfterWrite, HazardRegister = q\<rparr>]"
    by (simp add: read_hazards_def)
  with hazards \<open>q \<in> set (ReadRegisters _)\<close> have "\<lparr>HazardKind = ReadAfterWrite, HazardRegister = q\<rparr> \<in> set hazards"
    by (force simp: IsDataHazard3_def Let_def)
  with one show "hazards = [\<lparr>HazardKind = ReadAfterWrite, HazardRegister = q\<rparr>]"
    by (cases hazards) auto
qed

lemma candidates_one:
  assumes ok: "control_ok m" and hazards: "IsDataHazard3 (c_ctx m) (methods61 m r) = (hazards, hazardTypes)"
    and one: "length hazards \<le> 1" and cand: "(p, q) \<in> set (candidates r m (previously_pushed m))"
  shows "set (candidates r m (previously_pushed m)) = {(p, q)}"
    and "{#runner_footprint (c_runners m ! p), f#} \<subseteq># flights view61 m \<Longrightarrow> q \<notin> set (snd f)"
proof -
  note here = candidate [OF ok hazards one cand]
  have allowed: "one_way (flights view61 m)" using ok by (simp add: control_ok_def flight_ok_def view61_def)
  show "q \<notin> set (snd f)" if "{#runner_footprint (c_runners m ! p), f#} \<subseteq># flights view61 m"
    using one_way_targets [OF allowed that] same_targetI [OF here(2,3)] by blast
  have "(p', q') = (p, q)" if "(p', q') \<in> set (candidates r m (previously_pushed m))" for p' q'
  proof -
    note there = candidate [OF ok hazards one that]
    from here(4) there(4) have "q' = q" by simp
    moreover have "p' = p"
    proof (rule ccontr)
      assume "p' \<noteq> p"
      note pair = pair_in_mset [OF there(1) here(1) this, of "\<lambda>a. runner_footprint (c_runners m ! a)"]
      have "\<not> same_target (runner_footprint (c_runners m ! p')) (runner_footprint (c_runners m ! p))"
        by (rule one_way_targets [OF allowed subset_mset.order_trans [OF pair bus_in_flights]])
      moreover have "same_target (runner_footprint (c_runners m ! p')) (runner_footprint (c_runners m ! p))"
        using same_targetI [OF here(2) _ here(3)] there(3) \<open>q' = q\<close> by simp
      ultimately show False ..
    qed
    ultimately show ?thesis by simp
  qed
  then have "x = (p, q)" if "x \<in> set (candidates r m (previously_pushed m))" for x
    using that by (cases x) simp
  with cand show "set (candidates r m (previously_pushed m)) = {(p, q)}" by blast
qed

lemma forward_choice_any_order:
  assumes ok: "control_ok m" and hazards: "IsDataHazard3 (c_ctx m) (methods61 m r) = (hazards, hazardTypes)"
    and order: "set order = set (previously_pushed m)"
  shows "shouldUseForwarding r hazards hazardTypes (iterate_in order m) = shouldUseForwarding r hazards hazardTypes m"
proof -
  have pushed: "previously_pushed (iterate_in order m) = order"
    by (simp add: previously_pushed_def iterate_in_def on_cu61_def)
  have same: "set (candidates r m order) = set (candidates r m (previously_pushed m))"
    using order by (simp add: candidates_set)
  show ?thesis
  proof (cases "length hazards \<le> 1 \<and> candidates r m (previously_pushed m) \<noteq> []")
    case False
    with same have "length hazards \<le> 1 \<Longrightarrow> candidates r m order = [] \<and> candidates r m (previously_pushed m) = []"
      by auto
    then show ?thesis by (auto simp: shouldUseForwarding_candidates pushed)
  next
    case True
    then obtain p q rest where first: "candidates r m (previously_pushed m) = (p, q) # rest"
      by (cases "candidates r m (previously_pushed m)") auto
    with candidates_one(1) [OF ok hazards, of p q] True have "set (candidates r m (previously_pushed m)) = {(p, q)}"
      by simp
    with same obtain rest' where "candidates r m order = (p, q) # rest'"
      by (cases "candidates r m order") auto
    with first show ?thesis by (simp add: shouldUseForwarding_candidates pushed)
  qed
qed

lemma forward_choice_sole:
  assumes ok: "control_ok m" and hazards: "IsDataHazard3 (c_ctx m) (methods61 m r) = (hazards, hazardTypes)"
    and choice: "shouldUseForwarding r hazards hazardTypes m = Some (previous, register)"
  shows "hazards = [\<lparr>HazardKind = ReadAfterWrite, HazardRegister = register\<rparr>]"
    and "register \<in> set (snd (runner_footprint (c_runners m ! previous)))"
    and "{#runner_footprint (c_runners m ! previous), f#} \<subseteq># flights view61 m \<Longrightarrow> register \<notin> set (snd f)"
proof -
  from choice have one: "length hazards \<le> 1"
    and cand: "(previous, register) \<in> set (candidates r m (previously_pushed m))"
    by (auto simp: shouldUseForwarding_candidates split: if_splits list.splits)
  from candidate(3,4) [OF ok hazards one cand] candidates_one(2) [OF ok hazards one cand]
  show "hazards = [\<lparr>HazardKind = ReadAfterWrite, HazardRegister = register\<rparr>]"
    and "register \<in> set (snd (runner_footprint (c_runners m ! previous)))"
    and "{#runner_footprint (c_runners m ! previous), f#} \<subseteq># flights view61 m \<Longrightarrow> register \<notin> set (snd f)"
    by blast+
qed

section \<open>Programs\<close>

text \<open>Two instructions are pushed in one cycle, of which the first writes the register that the next
  instruction reads.\<close>

definition pair_demo :: app where
  "pair_demo = \<lparr>Instructions = [I_nop, I_li T0 7, I_li T2 5, I_addi 1 T1 T0, I_nop, I_nop], Labels = Map.empty\<rparr>"

definition consumer :: "int32 \<Rightarrow> runner61" where
  "consumer pc = runner61_of \<lparr>rp_Runner = I_addi 1 T1 T0, rp_Pc = pc\<rparr>"

lemma pair_demo_run:
  "case state61_after 4 pair_demo of None \<Rightarrow> False
    | Some (mode, m) \<Rightarrow> mode = Cycling \<and> previously_pushed m = [1, 2]
        \<and> (case IsDataHazard3 (c_ctx m) (methods61 m (consumer 12)) of (hazards, hazardTypes) \<Rightarrow>
            shouldUseForwarding (consumer 12) hazards hazardTypes m = Some (1, T0))"
  by code_simp

lemma pair_demo_forwards:
  "\<exists>m hazards hazardTypes. mvp61_reaches pair_demo False 8 (Cycling, m) \<and> previously_pushed m = [1, 2]
    \<and> IsDataHazard3 (c_ctx m) (methods61 m (consumer 12)) = (hazards, hazardTypes)
    \<and> shouldUseForwarding (consumer 12) hazards hazardTypes m = Some (1, T0)"
proof -
  from pair_demo_run obtain m where s: "state61_after 4 pair_demo = Some (Cycling, m)"
    and m: "previously_pushed m = [1, 2]" "case IsDataHazard3 (c_ctx m) (methods61 m (consumer 12)) of
        (hazards, hazardTypes) \<Rightarrow> shouldUseForwarding (consumer 12) hazards hazardTypes m = Some (1, T0)"
    by (auto split: option.splits)
  moreover have "mvp61_reaches pair_demo False 8 (Cycling, m)"
    using state61_after [OF s] by blast
  ultimately show ?thesis by (cases "IsDataHazard3 (c_ctx m) (methods61 m (consumer 12))") auto
qed

text \<open>The way of a forwarded value, on a concrete state: \<open>addi\<close> is linked to the \<open>li\<close> in front of it.\<close>

definition forward_demo_ok :: "cpu61 \<Rightarrow> cpu61 \<Rightarrow> bool" where
  "forward_demo_ok m linked \<longleftrightarrow> length (c_runners m) = 2 \<and> length (c_channels m) < length (c_channels linked)
     \<and> (case IsDataHazard3 (c_ctx m) (methods61 m (c_runners m ! 1)) of (hazards, hazardTypes) \<Rightarrow>
         shouldUseForwarding (c_runners m ! 1) hazards hazardTypes m = Some (0, T0))
     \<and> (case Run (methods61 linked (c_runners linked ! 0)) (c_ctx linked) Map.empty 0 [] of
         Inl e \<Rightarrow> False
       | Inr (ctx, exe) \<Rightarrow> (case finishRun61 (c_runners linked ! 0) exe linked of
           Inl e \<Rightarrow> False
         | Inr (resp, m2) \<Rightarrow> (case receive61 (c_runners linked ! 1) m2 of None \<Rightarrow> False | Some m4 \<Rightarrow> True)))"

lemma forward_demo_run:
  "case state61_after 3 chain_demo of None \<Rightarrow> False
    | Some (mode, m) \<Rightarrow> forward_demo_ok (newCell (consumer 4) m) (linkRunners 0 T0 1 (newCell (consumer 4) m))"
  by code_simp

lemma forward_demo:
  obtains m linked hazards hazardTypes ctx exe resp m2 m4 where
    "c_runners m ! 1 = consumer 4" and "linked = linkRunners 0 T0 1 m"
    and "length (c_runners m) = 2" and "length (c_channels m) < length (c_channels linked)"
    and "shouldUseForwarding (c_runners m ! 1) hazards hazardTypes m = Some (0, T0)"
    and "Run (methods61 linked (c_runners linked ! 0)) (c_ctx linked) Map.empty 0 [] = Inr (ctx, exe)"
    and "finishRun61 (c_runners linked ! 0) exe linked = Inr (resp, m2)"
    and "receive61 (c_runners linked ! 1) m2 = Some m4"
proof -
  obtain mode m0 where s: "state61_after 3 chain_demo = Some (mode, m0)"
    using forward_demo_run by (cases "state61_after 3 chain_demo") auto
  define m where "m = newCell (consumer 4) m0"
  define linked where "linked = linkRunners 0 T0 1 m"
  have "forward_demo_ok m linked"
    using forward_demo_run by (simp add: s m_def linked_def)
  then obtain hazards hazardTypes ctx exe resp m2 m4 where
    "length (c_runners m) = 2" "length (c_channels m) < length (c_channels linked)"
    "shouldUseForwarding (c_runners m ! 1) hazards hazardTypes m = Some (0, T0)"
    "Run (methods61 linked (c_runners linked ! 0)) (c_ctx linked) Map.empty 0 [] = Inr (ctx, exe)"
    "finishRun61 (c_runners linked ! 0) exe linked = Inr (resp, m2)"
    "receive61 (c_runners linked ! 1) m2 = Some m4"
    unfolding forward_demo_ok_def by (auto split: prod.splits sum.splits option.splits)
  moreover from this(1) have "c_runners m ! 1 = consumer 4"
    by (simp add: m_def newCell_def nth_append)
  ultimately show thesis using that linked_def by blast
qed

end
