(* ===== verification/IssueRuns.thy ===== *)
theory IssueRuns
  imports IssueOrder ForwardChoice Mvp60Runs
begin

text \<open>
  The invariants under which the control units keep the order of the program, in the states that a run
  reaches: the queue of the control unit is well-formed, and the addresses on the execute bus of MVP-6.1
  are those of cells.
\<close>

section \<open>Who changes the control unit\<close>

definition same_control :: "('r, 'e, 'c, 'z) cpu6_scheme \<Rightarrow> ('r, 'e, 'c, 'z) cpu6_scheme \<Rightarrow> bool" where
  "same_control m' m \<longleftrightarrow> c_controlUnit m' = c_controlUnit m"

interpretation control_kept60: unit_steps60 same_control
  by unfold_locales (simp_all add: same_control_def)

interpretation control_kept61: unit_steps61 same_control
  by unfold_locales (simp_all add: same_control_def setForward_def)

text \<open>The state in which the control unit begins its cycle.\<close>

definition control_input :: "('r, 'e, 'c, 'z) cpu6_scheme units6 \<Rightarrow> app \<Rightarrow> ('r, 'e, 'c, 'z) cpu6_scheme \<Rightarrow>
    ('r, 'e, 'c, 'z) cpu6_scheme result" where
  "control_input un app m =
     rbind (fetchUnit6_cycle app (cpu6_connect (m\<lparr>c_cycle := c_cycle m + 1\<rparr>))) (un_decode un app)"

lemma fetchUnit6_control: "fetchUnit6_cycle app m = Inr m' \<Longrightarrow> same_control m' m"
  by (auto simp: fetchUnit6_cycle_def Let_def same_control_def split: prod.splits)

lemma decode6_loop_control:
  assumes clear: "\<And>pc m. same_control (clear pc m) m" "\<And>pc m. c_decodeBus (clear pc m) = c_decodeBus m"
  shows "decode6_loop clear app pushed m = Inr (n, m') \<Longrightarrow> same_control m' m"
proof (induction "length (bb_queue (c_decodeBus m))" arbitrary: pushed m rule: less_induct)
  case less
  obtain got b where get: "BufferedBus_Get (c_decodeBus m) = (got, b)" by force
  have step: "same_control m' m1"
    if "decode6_loop clear app k m1 = Inr (n, m')" "c_decodeBus m1 = b" "got \<noteq> None" for k m1
    using less.hyps [of m1 k] that get Get_shorter [of "c_decodeBus m" "the got" b] by auto
  have cleared: "same_control (clear pc (m\<lparr>c_decodeBus := b\<rparr>)) m" for pc
    using clear(1) [of pc "m\<lparr>c_decodeBus := b\<rparr>"] by (simp add: same_control_def)
  show ?case
    using less.prems [unfolded decode6_loop.simps [of _ app pushed m]] get cleared clear(2)
    by (auto simp: Let_def same_control_def split: option.splits if_splits sum.splits dest!: step)
qed

lemma decodeUnit6_control:
  assumes "\<And>pc m. same_control (clear pc m) m" "\<And>pc m. c_decodeBus (clear pc m) = c_decodeBus m"
    and "decodeUnit6_cycle clear app m = Inr m'"
  shows "same_control m' m"
  using assms(3) decode6_loop_control [OF assms(1,2)]
  by (fastforce simp: decodeUnit6_cycle_def Let_def same_control_def split: if_splits)

lemma writeUnits_control: "writeUnits_cycle from ks m = Inr m' \<Longrightarrow> same_control m' m"
  using writeUnits_keep by (auto simp: keeps_fresh_def same_control_def)

text \<open>The contract: the other units leave the control unit alone, and its cycle and its flush keep its
  queue well-formed.\<close>

locale queue_units =
  fixes un :: "('r, 'e, 'c, 'z) cpu6_scheme units6"
    and pendings :: "'c \<Rightarrow> 'q Queue"
    and places :: "('r, 'e, 'c, 'z) cpu6_scheme \<Rightarrow> bool"
  assumes decode_control: "un_decode un app m = Inr m' \<Longrightarrow> same_control m' m"
    and execute_control: "un_execute un k app m = Inr (resp, m') \<Longrightarrow> same_control m' m"
    and control_queue: "places m \<Longrightarrow> Queue_ok (pendings (c_controlUnit m)) \<Longrightarrow>
      Queue_ok (pendings (c_controlUnit (un_control un m)))"
    and flush_queue: "Queue_ok (pendings (c_controlUnit (un_flushControl un m)))"
begin

lemma executeUnits_control: "executeUnits_cycle un app ks a m = Inr (r, m') \<Longrightarrow> same_control m' m"
proof (induction ks arbitrary: a m)
  case (Cons k ks)
  then show ?case using execute_control by (fastforce simp: same_control_def)
qed (simp add: same_control_def)

lemma control_input_control: "control_input un app m = Inr m' \<Longrightarrow> same_control m' m"
  using fetchUnit6_control decode_control
  by (fastforce simp: control_input_def same_control_def cpu6_connect_def)

lemma cycle_queue:
  assumes "cpu6_cycle un app m = Inr (r, m')" and "Queue_ok (pendings (c_controlUnit m))"
    and "\<And>m1. control_input un app m = Inr m1 \<Longrightarrow> places m1"
  shows "Queue_ok (pendings (c_controlUnit m'))"
proof -
  from assms(1) obtain m2 m4 where m2: "control_input un app m = Inr m2"
    and m4: "executeUnits_cycle un app [0..<length (c_executeUnits m2)] noResp (un_control un m2) = Inr (r, m4)"
    and m': "writeUnits_cycle (-1) [0..<length (c_writeUnits m4)] m4 = Inr m'"
    by (auto simp: cpu6_cycle_def control_input_def)
  have "Queue_ok (pendings (c_controlUnit m2))"
    using control_input_control [OF m2] assms(2) by (simp add: same_control_def)
  from control_queue [OF assms(3) [OF m2] this] show ?thesis
    using executeUnits_control [OF m4] writeUnits_control [OF m'] by (simp add: same_control_def)
qed

lemma step_queue:
  assumes "cpu6_step un pendings app (mode, m) = Inr (Continue (mode', m'))"
    and "Queue_ok (pendings (c_controlUnit m))"
    and "\<And>m1. mode = Cycling \<Longrightarrow> control_input un app m = Inr m1 \<Longrightarrow> places m1"
  shows "Queue_ok (pendings (c_controlUnit m'))"
proof (cases mode)
  case Cycling
  from assms(1) Cycling obtain r m1 where m1: "cpu6_cycle un app m = Inr (r, m1)"
    and m': "c_controlUnit m' = c_controlUnit m1"
    by (auto simp: cpu6_step_def connect_writes_def split: if_splits)
  from cycle_queue [OF m1 assms(2) assms(3) [OF Cycling]] show ?thesis by (simp add: m')
next
  case Returning
  with assms(1) obtain m1 where m1: "writeUnits_cycle (-1) [0..<length (c_writeUnits m)] m = Inr m1"
    and m': "c_controlUnit m' = c_controlUnit m1"
    by (auto simp: cpu6_step_def connect_writes_def split: if_splits)
  from writeUnits_control [OF m1] m' assms(2) show ?thesis by (simp add: same_control_def)
next
  case (Draining k src pc)
  then consider "writeUnit6_cycle src k (m\<lparr>c_cycle := c_cycle m + 1\<rparr>) = Inr m'" | "m' = m"
    | "c_controlUnit m' = c_controlUnit (un_flushControl un m)"
    using assms(1) by (auto simp: cpu6_step_def cpu6_flush_def Let_def split: if_splits)
  then show ?thesis
  proof cases
    case 1
    from writeUnit6_keeps [OF this] assms(2) show ?thesis by (simp add: keeps_fresh_def)
  qed (use assms(2) flush_queue in simp_all)
qed

end

section \<open>MVP-6.0\<close>

interpretation queue60: queue_units units60 cu_pendings "\<lambda>m. True"
proof
  fix app and m m' :: cpu60 and k resp
  show "un_decode units60 app m = Inr m' \<Longrightarrow> same_control m' m"
    using decodeUnit6_control [of "\<lambda>pc m. m"] by (simp add: units60_def same_control_def)
  show "un_execute units60 k app m = Inr (resp, m') \<Longrightarrow> same_control m' m"
    by (simp add: units60_def control_kept60.executeUnit60_step)
  show "Queue_ok (cu_pendings (c_controlUnit m)) \<Longrightarrow> Queue_ok (cu_pendings (c_controlUnit (un_control units60 m)))"
    by (simp add: units60_def control60_issues(2))
  show "Queue_ok (cu_pendings (c_controlUnit (un_flushControl units60 m)))"
    by (simp add: units60_def controlUnit60_flush_def on_cu60_def)
qed

lemma mvp60_reaches_queue: "mvp60_reaches app debug n s \<Longrightarrow> Queue_ok (cu_pendings (c_controlUnit (snd s)))"
proof (induction rule: mvp60_reaches.induct)
  case (start m)
  then have "c_controlUnit m = newControlUnit60" by (auto simp: mvp60_NewCPU_def newCPU6_def)
  then show ?case by (simp add: newControlUnit60_def)
next
  case (step s s')
  with queue60.step_queue [of app "fst s" "snd s" "fst s'" "snd s'"] show ?case by (simp add: mvp60_step_def)
qed

lemma mvp60_keeps_order:
  assumes "mvp60_reaches app debug n (Cycling, m)" and "control_input units60 app m = Inr m'"
  shows "issue_order60 (controlUnit60_cycle m') = issue_order60 m'"
  using control60_issues(1) [of m'] mvp60_reaches_queue [OF assms(1)] queue60.control_input_control [OF assms(2)]
  by (simp add: same_control_def)

section \<open>MVP-6.1\<close>

lemma cells_ok_view: "flight_ok view61 m \<Longrightarrow> Queue_ok (cu1_pendings (c_controlUnit m)) \<Longrightarrow> cells_ok m"
  by (simp add: flight_ok_def places_ok_def bus_ok_def view61_def cells_ok_def)

interpretation queue61: queue_units units61 cu1_pendings "flight_ok view61"
proof
  fix app and m m' :: cpu61 and k resp
  show "un_decode units61 app m = Inr m' \<Longrightarrow> same_control m' m"
    using decodeUnit6_control [of "clearForward app"]
    by (simp add: units61_def mvp61_decodeUnit_cycle_def)
      (simp add: clearForward_def setForward_def same_control_def split: sum.splits)
  show "un_execute units61 k app m = Inr (resp, m') \<Longrightarrow> same_control m' m"
    by (simp add: units61_def control_kept61.executeUnit61_step)
  show "flight_ok view61 m \<Longrightarrow> Queue_ok (cu1_pendings (c_controlUnit m)) \<Longrightarrow>
      Queue_ok (cu1_pendings (c_controlUnit (un_control units61 m)))"
    using control61_issues(2) [OF cells_ok_view] by (simp add: units61_def cells_ok_def)
  show "Queue_ok (cu1_pendings (c_controlUnit (un_flushControl units61 m)))"
    by (simp add: units61_def controlUnit61_flush_def on_cu61_def)
qed

lemma control_input_flight_ok:
  assumes "flight_ok view61 m" and "control_input units61 app m = Inr m'"
  shows "flight_ok view61 m'"
proof -
  from assms(2) obtain m1 where m1: "fetchUnit6_cycle app (cpu6_connect (m\<lparr>c_cycle := c_cycle m + 1\<rparr>)) = Inr m1"
    and m': "un_decode units61 app m1 = Inr m'"
    by (auto simp: control_input_def)
  have "flight_ok view61 (cpu6_connect (m\<lparr>c_cycle := c_cycle m + 1\<rparr>))"
    by (rule rules61.connect_flight_ok(1) [OF rules61.flight_ok_update(8) [OF assms(1)]])
  then show ?thesis
    using same_flight_ok [OF rules61.fetchUnit6_same [OF m1]] same_flight_ok [OF flight61.decode_flight [OF m']] by simp
qed

lemma mvp61_reaches_queue: "mvp61_reaches app debug n s \<Longrightarrow> Queue_ok (cu1_pendings (c_controlUnit (snd s)))"
proof (induction rule: mvp61_reaches.induct)
  case (start m)
  then have "c_controlUnit m = newControlUnit61"
    by (auto simp: mvp61_NewCPU_def newCPU6_def cpu6.defs cpu61.defs)
  then show ?case by (simp add: newControlUnit61_def)
next
  case (step s s')
  have "flight_ok view61 m1" if "fst s = Cycling" "control_input units61 app (snd s) = Inr m1" for m1
    using mvp61_reaches_ok [OF step.hyps(1)] that control_input_flight_ok by (auto simp: mode_flight_ok_def)
  with queue61.step_queue [of app "fst s" "snd s" "fst s'" "snd s'"] step show ?case by (simp add: mvp61_step_def)
qed

lemma mvp61_keeps_order:
  assumes "mvp61_reaches app debug n (Cycling, m)" and "control_input units61 app m = Inr m'"
  shows "issue_order61 (controlUnit61_cycle m') = issue_order61 m'"
proof (rule control61_issues(1), rule cells_ok_view)
  have "flight_ok view61 m" using mvp61_reaches_ok [OF assms(1)] by (simp add: mode_flight_ok_def)
  then show "flight_ok view61 m'" using assms(2) by (rule control_input_flight_ok)
  show "Queue_ok (cu1_pendings (c_controlUnit m'))"
    using mvp61_reaches_queue [OF assms(1)] queue61.control_input_control [OF assms(2)]
    by (simp add: same_control_def)
qed

end
