(* ===== verification/Strings.thy ===== *)
theory Strings
  imports Prelude
begin

text \<open>
  The functions of Go's \<open>strings\<close> and \<open>strconv\<close> packages that \<open>src/risc/parser.go\<close> uses, on strings
  of ASCII characters (outside ASCII, \<open>TrimSpace\<close> and \<open>ToLower\<close> know more spaces and letters), and
  the lemmas on splitting, trimming and decimal numbers that the round trip of the parser needs.
\<close>

section \<open>Library functions\<close>

definition is_space :: "char \<Rightarrow> bool" where
  "is_space c \<longleftrightarrow> c = CHR 0x20 \<or> (9 \<le> (of_char c :: nat) \<and> (of_char c :: nat) \<le> 13)"

definition TrimSpace :: "string \<Rightarrow> string" where
  "TrimSpace s = rev (dropWhile is_space (rev (dropWhile is_space s)))"

text \<open>\<open>strings.Index\<close> and \<open>strings.IndexRune\<close> of one character.\<close>

fun Index :: "string \<Rightarrow> char \<Rightarrow> int" where
  "Index [] c = -1"
| "Index (x # xs) c = (if x = c then 0 else if Index xs c = -1 then -1 else Index xs c + 1)"

fun Split :: "string \<Rightarrow> char \<Rightarrow> string list" where
  "Split [] sep = [[]]"
| "Split (c # cs) sep =
     (if c = sep then [] # Split cs sep
      else (case Split cs sep of [] \<Rightarrow> [[c]] | p # ps \<Rightarrow> (c # p) # ps))"

definition lower :: "char \<Rightarrow> char" where
  "lower c =
     (if 65 \<le> (of_char c :: nat) \<and> (of_char c :: nat) \<le> 90 then char_of ((of_char c :: nat) + 32)
      else c)"

definition ToLower :: "string \<Rightarrow> string" where
  "ToLower s = map lower s"

definition digit_value :: "char \<Rightarrow> nat option" where
  "digit_value c =
     (if 48 \<le> (of_char c :: nat) \<and> (of_char c :: nat) \<le> 57 then Some (of_char c - 48) else None)"

fun digits_value :: "nat \<Rightarrow> string \<Rightarrow> nat option" where
  "digits_value acc [] = Some acc"
| "digits_value acc (c # cs) =
     (case digit_value c of None \<Rightarrow> None | Some d \<Rightarrow> digits_value (10 * acc + d) cs)"

text \<open>\<open>strconv.ParseInt(s, 10, 32)\<close>: an optional sign, at least one digit, the range of 32 bits.\<close>

definition ParseInt32 :: "string \<Rightarrow> int32 result" where
  "ParseInt32 s =
     (let neg = (s \<noteq> [] \<and> hd s = CHR ''-'');
          ds = (if s \<noteq> [] \<and> (hd s = CHR ''-'' \<or> hd s = CHR ''+'') then tl s else s)
      in case (if ds = [] then None else digits_value 0 ds) of
           None \<Rightarrow> Inl (Error (BadInt s))
         | Some v \<Rightarrow>
             if neg then (if v \<le> 2 ^ 31 then Inr (word_of_int (- int v)) else Inl (Error (BadInt s)))
             else if v < 2 ^ 31 then Inr (word_of_int (int v)) else Inl (Error (BadInt s)))"

section \<open>Searching and splitting\<close>

lemma Index_missing: "Index s c = -1 \<longleftrightarrow> c \<notin> set s"
proof (induction s)
  case (Cons x xs)
  have "-1 \<le> Index xs c" by (induction xs) auto
  with Cons show ?case by auto
qed simp

lemma Index_append: "c \<notin> set xs \<Longrightarrow> Index (xs @ c # ys) c = int (length xs)"
  by (induction xs) auto

lemma Split_single: "sep \<notin> set s \<Longrightarrow> Split s sep = [s]"
  by (induction s) auto

lemma Split_append: "sep \<notin> set s \<Longrightarrow> Split (s @ sep # rest) sep = s # Split rest sep"
  by (induction s) auto

fun join :: "string \<Rightarrow> string list \<Rightarrow> string" where
  "join sep [] = []"
| "join sep [s] = s"
| "join sep (s # t # ss) = s @ sep @ join sep (t # ss)"

lemma Split_join:
  "ss \<noteq> [] \<Longrightarrow> \<forall>s \<in> set ss. sep \<notin> set s \<Longrightarrow> Split (join [sep] ss) sep = ss"
  by (induction "[sep]" ss rule: join.induct) (auto simp: Split_single Split_append)

section \<open>Trimming\<close>

lemma TrimSpace_ends:
  assumes "s \<noteq> []" and "\<not> is_space (hd s)" and "\<not> is_space (last s)"
  shows "TrimSpace s = s"
proof -
  have "dropWhile is_space s = s" using assms(1,2) by (cases s) auto
  moreover have "dropWhile is_space (rev s) = rev s"
    using assms(1,3) by (cases "rev s") (auto simp: hd_rev [symmetric])
  ultimately show ?thesis by (simp add: TrimSpace_def)
qed

lemma TrimSpace_Nil [simp]: "TrimSpace [] = []"
  by (simp add: TrimSpace_def)

lemma TrimSpace_space [simp]: "TrimSpace (CHR 0x20 # s) = TrimSpace s"
  by (simp add: TrimSpace_def is_space_def)

lemma TrimSpace_unspaced: "\<forall>c \<in> set s. \<not> is_space c \<Longrightarrow> TrimSpace s = s"
  by (cases "s = []") (auto intro!: TrimSpace_ends)

section \<open>Decimal numbers\<close>

definition digit_char :: "nat \<Rightarrow> char" where
  "digit_char d = char_of (48 + d)"

fun show_nat :: "nat \<Rightarrow> string" where
  "show_nat n = (if n < 10 then [digit_char n] else show_nat (n div 10) @ [digit_char (n mod 10)])"

declare show_nat.simps [simp del]

definition show_int32 :: "int32 \<Rightarrow> string" where
  "show_int32 v =
     (if sint v < 0 then CHR ''-'' # show_nat (nat (- sint v)) else show_nat (nat (sint v)))"

lemma of_digit_char: "d < 10 \<Longrightarrow> (of_char (digit_char d) :: nat) = 48 + d"
  by (simp add: digit_char_def)

lemma digit_value_char: "d < 10 \<Longrightarrow> digit_value (digit_char d) = Some d"
  by (simp add: digit_value_def of_digit_char)

lemma digits_value_append:
  "digits_value acc (xs @ ys) =
    (case digits_value acc xs of None \<Rightarrow> None | Some v \<Rightarrow> digits_value v ys)"
  by (induction acc xs rule: digits_value.induct) (auto split: option.split)

lemma digits_value_show: "digits_value 0 (show_nat n) = Some n"
  by (induction n rule: show_nat.induct)
    (subst show_nat.simps, simp add: digits_value_append digit_value_char)

lemma show_nat_digits: "c \<in> set (show_nat n) \<Longrightarrow> \<exists>d < 10. c = digit_char d"
proof (induction n rule: show_nat.induct)
  case (1 n)
  show ?case
  proof (cases "n < 10")
    case True
    with 1(2) show ?thesis by (auto simp: show_nat.simps [of n])
  next
    case False
    with 1 show ?thesis by (auto simp: show_nat.simps [of n] intro: exI [of _ "n mod 10"])
  qed
qed

lemma show_nat_nonempty [simp]: "show_nat n \<noteq> []"
  by (subst show_nat.simps) simp

text \<open>The characters of a printed number, apart from its sign, are neither spaces nor separators.\<close>

lemma digit_char_other:
  assumes "d < 10"
  shows "\<not> is_space (digit_char d)" and "digit_char d \<notin> {CHR '','', CHR ''#'', CHR ''('', CHR ''-'', CHR ''+''}"
proof -
  have "(of_char (digit_char d) :: nat) = 48 + d" using of_digit_char [OF assms] .
  then show "\<not> is_space (digit_char d)"
    and "digit_char d \<notin> {CHR '','', CHR ''#'', CHR ''('', CHR ''-'', CHR ''+''}"
    by (auto simp: is_space_def)
qed

lemma show_nat_other:
  assumes "c \<in> set (show_nat n)"
  shows "\<not> is_space c" and "c \<notin> {CHR '','', CHR ''#'', CHR ''('', CHR ''-'', CHR ''+''}"
  using show_nat_digits [OF assms] digit_char_other by auto

lemma show_int32_other:
  "c \<in> set (show_int32 v) \<Longrightarrow> \<not> is_space c \<and> c \<notin> {CHR '','', CHR ''#'', CHR ''(''}"
  by (auto simp: show_int32_def is_space_def split: if_splits dest: show_nat_other)

text \<open>Reading a printed number gives it back.\<close>

lemma ParseInt32_show: "ParseInt32 (show_int32 v) = Inr v"
proof (cases "sint v < 0")
  case True
  have "nat (- sint v) \<le> 2 ^ 31"
    using sint32_range(1) [of v] by (simp add: nat_le_iff)
  with True show ?thesis
    by (simp add: ParseInt32_def show_int32_def Let_def digits_value_show)
next
  case False
  have "hd (show_nat (nat (sint v))) \<notin> {CHR ''-'', CHR ''+''}"
    using show_nat_other(2) [of "hd (show_nat (nat (sint v)))" "nat (sint v)"] by auto
  moreover have "nat (sint v) < 2 ^ 31"
    using False sint32_range(2) [of v] by (simp add: nat_less_iff)
  ultimately show ?thesis
    using False by (simp add: ParseInt32_def show_int32_def Let_def digits_value_show)
qed

end
