(* ===== verification/Parser.thy ===== *)
theory Parser
  imports Opcodes Strings
begin

text \<open>
  \<open>src/risc/parser.go\<close>: the assembler. Each case of the switch on the mnemonic is the definition
  \<open>case_<mnemonic>\<close>; \<open>dispatch\<close> is the switch. An error of a case is wrapped with its line
  (\<open>OnLine\<close>); a panic (the slice expression of \<open>parseOffsetReg\<close>) is not. After \<open>validateArgs\<close> the
  indices into \<open>elements\<close> are in range.
\<close>

section \<open>Operands\<close>

definition validateArgs :: "nat \<Rightarrow> string list \<Rightarrow> string \<Rightarrow> unit result" where
  "validateArgs expected args line =
     (if length args \<noteq> expected then Inl (Error (WrongArgs expected (length args) line)) else Inr ())"

definition register_names :: "(string \<times> RegisterType) list" where
  "register_names =
    [(''zero'', Zero), (''$zero'', Zero), (''ra'', Ra), (''$ra'', Ra),
     (''sp'', Sp), (''$sp'', Sp), (''gp'', Gp), (''$gp'', Gp), (''tp'', Tp), (''$tp'', Tp),
     (''t0'', T0), (''$t0'', T0), (''t1'', T1), (''$t1'', T1), (''t2'', T2), (''$t2'', T2),
     (''s0'', S0), (''$s0'', S0), (''s1'', S1), (''$s1'', S1), (''a0'', A0), (''$a0'', A0),
     (''a1'', A1), (''$a1'', A1), (''a2'', A2), (''$a2'', A2), (''a3'', A3), (''$a3'', A3),
     (''a4'', A4), (''$a4'', A4), (''a5'', A5), (''$a5'', A5), (''a6'', A6), (''$a6'', A6),
     (''a7'', A7), (''$a7'', A7), (''s2'', S2), (''$s2'', S2), (''s3'', S3), (''$s3'', S3),
     (''s4'', S4), (''$s4'', S4), (''s5'', S5), (''$s5'', S5), (''s6'', S6), (''$s6'', S6),
     (''s7'', S7), (''$s7'', S7), (''s8'', S8), (''$s8'', S8), (''s9'', S9), (''$s9'', S9),
     (''s10'', S10), (''$s10'', S10), (''s11'', S11), (''$s11'', S11),
     (''t3'', T3), (''$t3'', T3), (''t4'', T4), (''$t4'', T4), (''t5'', T5), (''$t5'', T5),
     (''t6'', T6), (''$t6'', T6)]"

definition parseRegister :: "string \<Rightarrow> RegisterType result" where
  "parseRegister s =
     (case map_of register_names s of
        Some r \<Rightarrow> Inr r
      | None \<Rightarrow> Inl (Error (UnknownRegister s)))"

text \<open>\<open>s[firstParenthesis+1 : len(s)-1]\<close> drops the last character, whatever it is, and panics when the
  parenthesis is the last one.\<close>

definition parseOffsetReg :: "string \<Rightarrow> (int32 \<times> RegisterType) result" where
  "parseOffsetReg s =
     (let firstParenthesis = Index s CHR ''('' in
      if firstParenthesis = -1 then Inl (Error (InvalidOffset s))
      else rbind (ParseInt32 (TrimSpace (take (nat firstParenthesis) s))) (\<lambda>imm.
           if int (length s) - 1 < firstParenthesis + 1 then Inl (Panic SliceOutOfRange)
           else rbind (parseRegister (TrimSpace (butlast (drop (nat (firstParenthesis + 1)) s)))) (\<lambda>reg.
           Inr (imm, reg))))"

section \<open>The cases of the switch\<close>

definition case_add :: "string list \<Rightarrow> string \<Rightarrow> instr result" where
  "case_add elements line =
     rbind (validateArgs 3 elements line) (\<lambda>_.
     rbind (parseRegister (TrimSpace (elements ! 0))) (\<lambda>rd.
     rbind (parseRegister (TrimSpace (elements ! 1))) (\<lambda>rs1.
     rbind (parseRegister (TrimSpace (elements ! 2))) (\<lambda>rs2.
     Inr (I_add rd rs1 rs2)))))"

definition case_and :: "string list \<Rightarrow> string \<Rightarrow> instr result" where
  "case_and elements line =
     rbind (validateArgs 3 elements line) (\<lambda>_.
     rbind (parseRegister (TrimSpace (elements ! 0))) (\<lambda>rd.
     rbind (parseRegister (TrimSpace (elements ! 1))) (\<lambda>rs1.
     rbind (parseRegister (TrimSpace (elements ! 2))) (\<lambda>rs2.
     Inr (I_and rd rs1 rs2)))))"

definition case_addi :: "string list \<Rightarrow> string \<Rightarrow> instr result" where
  "case_addi elements line =
     rbind (validateArgs 3 elements line) (\<lambda>_.
     rbind (parseRegister (TrimSpace (elements ! 0))) (\<lambda>rd.
     rbind (parseRegister (TrimSpace (elements ! 1))) (\<lambda>rs.
     rbind (ParseInt32 (TrimSpace (elements ! 2))) (\<lambda>imm.
     Inr (I_addi imm rd rs)))))"

definition case_andi :: "string list \<Rightarrow> string \<Rightarrow> instr result" where
  "case_andi elements line =
     rbind (validateArgs 3 elements line) (\<lambda>_.
     rbind (parseRegister (TrimSpace (elements ! 0))) (\<lambda>rd.
     rbind (parseRegister (TrimSpace (elements ! 1))) (\<lambda>rs.
     rbind (ParseInt32 (TrimSpace (elements ! 2))) (\<lambda>imm.
     Inr (I_andi imm rd rs)))))"

definition case_auipc :: "string list \<Rightarrow> string \<Rightarrow> instr result" where
  "case_auipc elements line =
     rbind (validateArgs 2 elements line) (\<lambda>_.
     rbind (parseRegister (TrimSpace (elements ! 0))) (\<lambda>rd.
     rbind (ParseInt32 (TrimSpace (elements ! 1))) (\<lambda>imm.
     Inr (I_auipc rd imm))))"

definition case_beq :: "string list \<Rightarrow> string \<Rightarrow> instr result" where
  "case_beq elements line =
     rbind (validateArgs 3 elements line) (\<lambda>_.
     rbind (parseRegister (TrimSpace (elements ! 0))) (\<lambda>rd.
     rbind (parseRegister (TrimSpace (elements ! 1))) (\<lambda>rs.
     let label = TrimSpace (elements ! 2) in
     Inr (I_beq rd rs label))))"

definition case_beqz :: "string list \<Rightarrow> string \<Rightarrow> instr result" where
  "case_beqz elements line =
     rbind (validateArgs 2 elements line) (\<lambda>_.
     rbind (parseRegister (TrimSpace (elements ! 0))) (\<lambda>rs.
     let label = TrimSpace (elements ! 1) in
     Inr (I_beqz rs label)))"

definition case_bge :: "string list \<Rightarrow> string \<Rightarrow> instr result" where
  "case_bge elements line =
     rbind (validateArgs 3 elements line) (\<lambda>_.
     rbind (parseRegister (TrimSpace (elements ! 0))) (\<lambda>rs1.
     rbind (parseRegister (TrimSpace (elements ! 1))) (\<lambda>rs2.
     let label = TrimSpace (elements ! 2) in
     Inr (I_bge rs1 rs2 label))))"

definition case_bgeu :: "string list \<Rightarrow> string \<Rightarrow> instr result" where
  "case_bgeu elements line =
     rbind (validateArgs 3 elements line) (\<lambda>_.
     rbind (parseRegister (TrimSpace (elements ! 0))) (\<lambda>rs1.
     rbind (parseRegister (TrimSpace (elements ! 1))) (\<lambda>rs2.
     let label = TrimSpace (elements ! 2) in
     Inr (I_bgeu rs1 rs2 label))))"

definition case_blt :: "string list \<Rightarrow> string \<Rightarrow> instr result" where
  "case_blt elements line =
     rbind (validateArgs 3 elements line) (\<lambda>_.
     rbind (parseRegister (TrimSpace (elements ! 0))) (\<lambda>rs1.
     rbind (parseRegister (TrimSpace (elements ! 1))) (\<lambda>rs2.
     let label = TrimSpace (elements ! 2) in
     Inr (I_blt rs1 rs2 label))))"

definition case_bltu :: "string list \<Rightarrow> string \<Rightarrow> instr result" where
  "case_bltu elements line =
     rbind (validateArgs 3 elements line) (\<lambda>_.
     rbind (parseRegister (TrimSpace (elements ! 0))) (\<lambda>rs1.
     rbind (parseRegister (TrimSpace (elements ! 1))) (\<lambda>rs2.
     let label = TrimSpace (elements ! 2) in
     Inr (I_bltu rs1 rs2 label))))"

definition case_bne :: "string list \<Rightarrow> string \<Rightarrow> instr result" where
  "case_bne elements line =
     rbind (validateArgs 3 elements line) (\<lambda>_.
     rbind (parseRegister (TrimSpace (elements ! 0))) (\<lambda>rs1.
     rbind (parseRegister (TrimSpace (elements ! 1))) (\<lambda>rs2.
     let label = TrimSpace (elements ! 2) in
     Inr (I_bne rs1 rs2 label))))"

definition case_div :: "string list \<Rightarrow> string \<Rightarrow> instr result" where
  "case_div elements line =
     rbind (validateArgs 3 elements line) (\<lambda>_.
     rbind (parseRegister (TrimSpace (elements ! 0))) (\<lambda>rd.
     rbind (parseRegister (TrimSpace (elements ! 1))) (\<lambda>rs1.
     rbind (parseRegister (TrimSpace (elements ! 2))) (\<lambda>rs2.
     Inr (I_div rd rs1 rs2)))))"

definition case_j :: "string list \<Rightarrow> string \<Rightarrow> instr result" where
  "case_j elements line =
     rbind (validateArgs 1 elements line) (\<lambda>_.
     let label = TrimSpace (elements ! 0) in
     Inr (I_j label))"

definition case_jal :: "string list \<Rightarrow> string \<Rightarrow> instr result" where
  "case_jal elements line =
     rbind (validateArgs 2 elements line) (\<lambda>_.
     rbind (parseRegister (TrimSpace (elements ! 0))) (\<lambda>rd.
     let label = TrimSpace (elements ! 1) in
     Inr (I_jal label rd)))"

definition case_jalr :: "string list \<Rightarrow> string \<Rightarrow> instr result" where
  "case_jalr elements line =
     rbind (validateArgs 3 elements line) (\<lambda>_.
     rbind (parseRegister (TrimSpace (elements ! 0))) (\<lambda>rd.
     rbind (parseRegister (TrimSpace (elements ! 1))) (\<lambda>rs.
     rbind (ParseInt32 (TrimSpace (elements ! 2))) (\<lambda>imm.
     Inr (I_jalr rd rs imm)))))"

definition case_lui :: "string list \<Rightarrow> string \<Rightarrow> instr result" where
  "case_lui elements line =
     rbind (validateArgs 2 elements line) (\<lambda>_.
     rbind (parseRegister (TrimSpace (elements ! 0))) (\<lambda>rd.
     rbind (ParseInt32 (TrimSpace (elements ! 1))) (\<lambda>imm.
     Inr (I_lui rd imm))))"

definition case_lb :: "string list \<Rightarrow> string \<Rightarrow> instr result" where
  "case_lb elements line =
     rbind (validateArgs 2 elements line) (\<lambda>_.
     rbind (parseRegister (TrimSpace (elements ! 0))) (\<lambda>rd.
     rbind (parseOffsetReg (TrimSpace (elements ! 1))) (\<lambda>(offset, rs).
     Inr (I_lb rd offset rs))))"

definition case_lh :: "string list \<Rightarrow> string \<Rightarrow> instr result" where
  "case_lh elements line =
     rbind (validateArgs 2 elements line) (\<lambda>_.
     rbind (parseRegister (TrimSpace (elements ! 0))) (\<lambda>rd.
     rbind (parseOffsetReg (TrimSpace (elements ! 1))) (\<lambda>(offset, rs).
     Inr (I_lh rd offset rs))))"

definition case_li :: "string list \<Rightarrow> string \<Rightarrow> instr result" where
  "case_li elements line =
     rbind (validateArgs 2 elements line) (\<lambda>_.
     rbind (parseRegister (TrimSpace (elements ! 0))) (\<lambda>rd.
     rbind (ParseInt32 (TrimSpace (elements ! 1))) (\<lambda>imm.
     Inr (I_li rd imm))))"

definition case_lw :: "string list \<Rightarrow> string \<Rightarrow> instr result" where
  "case_lw elements line =
     rbind (validateArgs 2 elements line) (\<lambda>_.
     rbind (parseRegister (TrimSpace (elements ! 0))) (\<lambda>rd.
     rbind (parseOffsetReg (TrimSpace (elements ! 1))) (\<lambda>(offset, rs).
     Inr (I_lw rd offset rs))))"

definition case_nop :: "string list \<Rightarrow> string \<Rightarrow> instr result" where
  "case_nop elements line =
     Inr I_nop"

definition case_mul :: "string list \<Rightarrow> string \<Rightarrow> instr result" where
  "case_mul elements line =
     rbind (validateArgs 3 elements line) (\<lambda>_.
     rbind (parseRegister (TrimSpace (elements ! 0))) (\<lambda>rd.
     rbind (parseRegister (TrimSpace (elements ! 1))) (\<lambda>rs1.
     rbind (parseRegister (TrimSpace (elements ! 2))) (\<lambda>rs2.
     Inr (I_mul rd rs1 rs2)))))"

definition case_mv :: "string list \<Rightarrow> string \<Rightarrow> instr result" where
  "case_mv elements line =
     rbind (validateArgs 2 elements line) (\<lambda>_.
     rbind (parseRegister (TrimSpace (elements ! 0))) (\<lambda>rd.
     rbind (parseRegister (TrimSpace (elements ! 1))) (\<lambda>rs.
     Inr (I_mv rd rs))))"

definition case_or :: "string list \<Rightarrow> string \<Rightarrow> instr result" where
  "case_or elements line =
     rbind (validateArgs 3 elements line) (\<lambda>_.
     rbind (parseRegister (TrimSpace (elements ! 0))) (\<lambda>rd.
     rbind (parseRegister (TrimSpace (elements ! 1))) (\<lambda>rs1.
     rbind (parseRegister (TrimSpace (elements ! 2))) (\<lambda>rs2.
     Inr (I_or rd rs1 rs2)))))"

definition case_ori :: "string list \<Rightarrow> string \<Rightarrow> instr result" where
  "case_ori elements line =
     rbind (validateArgs 3 elements line) (\<lambda>_.
     rbind (parseRegister (TrimSpace (elements ! 0))) (\<lambda>rd.
     rbind (parseRegister (TrimSpace (elements ! 1))) (\<lambda>rs.
     rbind (ParseInt32 (TrimSpace (elements ! 2))) (\<lambda>imm.
     Inr (I_ori imm rd rs)))))"

definition case_rem :: "string list \<Rightarrow> string \<Rightarrow> instr result" where
  "case_rem elements line =
     rbind (validateArgs 3 elements line) (\<lambda>_.
     rbind (parseRegister (TrimSpace (elements ! 0))) (\<lambda>rd.
     rbind (parseRegister (TrimSpace (elements ! 1))) (\<lambda>rs1.
     rbind (parseRegister (TrimSpace (elements ! 2))) (\<lambda>rs2.
     Inr (I_rem rd rs1 rs2)))))"

definition case_ret :: "string list \<Rightarrow> string \<Rightarrow> instr result" where
  "case_ret elements line =
     Inr I_ret"

definition case_sb :: "string list \<Rightarrow> string \<Rightarrow> instr result" where
  "case_sb elements line =
     rbind (validateArgs 2 elements line) (\<lambda>_.
     rbind (parseRegister (TrimSpace (elements ! 0))) (\<lambda>rs2.
     rbind (parseOffsetReg (TrimSpace (elements ! 1))) (\<lambda>(offset, rs1).
     Inr (I_sb rs2 offset rs1))))"

definition case_sh :: "string list \<Rightarrow> string \<Rightarrow> instr result" where
  "case_sh elements line =
     rbind (validateArgs 3 elements line) (\<lambda>_.
     rbind (parseRegister (TrimSpace (elements ! 0))) (\<lambda>rs2.
     rbind (ParseInt32 (TrimSpace (elements ! 1))) (\<lambda>offset.
     rbind (parseRegister (TrimSpace (elements ! 2))) (\<lambda>rs1.
     Inr (I_sh rs2 offset rs1)))))"

definition case_sll :: "string list \<Rightarrow> string \<Rightarrow> instr result" where
  "case_sll elements line =
     rbind (validateArgs 3 elements line) (\<lambda>_.
     rbind (parseRegister (TrimSpace (elements ! 0))) (\<lambda>rd.
     rbind (parseRegister (TrimSpace (elements ! 1))) (\<lambda>rs1.
     rbind (parseRegister (TrimSpace (elements ! 2))) (\<lambda>rs2.
     Inr (I_sll rd rs1 rs2)))))"

definition case_slli :: "string list \<Rightarrow> string \<Rightarrow> instr result" where
  "case_slli elements line =
     rbind (validateArgs 3 elements line) (\<lambda>_.
     rbind (parseRegister (TrimSpace (elements ! 0))) (\<lambda>rd.
     rbind (parseRegister (TrimSpace (elements ! 1))) (\<lambda>rs.
     rbind (ParseInt32 (TrimSpace (elements ! 2))) (\<lambda>imm.
     Inr (I_slli rd rs imm)))))"

definition case_slt :: "string list \<Rightarrow> string \<Rightarrow> instr result" where
  "case_slt elements line =
     rbind (validateArgs 3 elements line) (\<lambda>_.
     rbind (parseRegister (TrimSpace (elements ! 0))) (\<lambda>rd.
     rbind (parseRegister (TrimSpace (elements ! 1))) (\<lambda>rs1.
     rbind (parseRegister (TrimSpace (elements ! 2))) (\<lambda>rs2.
     Inr (I_slt rd rs1 rs2)))))"

definition case_sltu :: "string list \<Rightarrow> string \<Rightarrow> instr result" where
  "case_sltu elements line =
     rbind (validateArgs 3 elements line) (\<lambda>_.
     rbind (parseRegister (TrimSpace (elements ! 0))) (\<lambda>rd.
     rbind (parseRegister (TrimSpace (elements ! 1))) (\<lambda>rs1.
     rbind (parseRegister (TrimSpace (elements ! 2))) (\<lambda>rs2.
     Inr (I_sltu rd rs1 rs2)))))"

definition case_slti :: "string list \<Rightarrow> string \<Rightarrow> instr result" where
  "case_slti elements line =
     rbind (validateArgs 3 elements line) (\<lambda>_.
     rbind (parseRegister (TrimSpace (elements ! 0))) (\<lambda>rd.
     rbind (parseRegister (TrimSpace (elements ! 1))) (\<lambda>rs.
     rbind (ParseInt32 (TrimSpace (elements ! 2))) (\<lambda>imm.
     Inr (I_slti rd rs imm)))))"

definition case_sra :: "string list \<Rightarrow> string \<Rightarrow> instr result" where
  "case_sra elements line =
     rbind (validateArgs 3 elements line) (\<lambda>_.
     rbind (parseRegister (TrimSpace (elements ! 0))) (\<lambda>rd.
     rbind (parseRegister (TrimSpace (elements ! 1))) (\<lambda>rs1.
     rbind (parseRegister (TrimSpace (elements ! 2))) (\<lambda>rs2.
     Inr (I_sra rd rs1 rs2)))))"

definition case_srai :: "string list \<Rightarrow> string \<Rightarrow> instr result" where
  "case_srai elements line =
     rbind (validateArgs 3 elements line) (\<lambda>_.
     rbind (parseRegister (TrimSpace (elements ! 0))) (\<lambda>rd.
     rbind (parseRegister (TrimSpace (elements ! 1))) (\<lambda>rs.
     rbind (ParseInt32 (TrimSpace (elements ! 2))) (\<lambda>imm.
     Inr (I_srai rd rs imm)))))"

definition case_srl :: "string list \<Rightarrow> string \<Rightarrow> instr result" where
  "case_srl elements line =
     rbind (validateArgs 3 elements line) (\<lambda>_.
     rbind (parseRegister (TrimSpace (elements ! 0))) (\<lambda>rd.
     rbind (parseRegister (TrimSpace (elements ! 1))) (\<lambda>rs1.
     rbind (parseRegister (TrimSpace (elements ! 2))) (\<lambda>rs2.
     Inr (I_srl rd rs1 rs2)))))"

definition case_srli :: "string list \<Rightarrow> string \<Rightarrow> instr result" where
  "case_srli elements line =
     rbind (validateArgs 3 elements line) (\<lambda>_.
     rbind (parseRegister (TrimSpace (elements ! 0))) (\<lambda>rd.
     rbind (parseRegister (TrimSpace (elements ! 1))) (\<lambda>rs.
     rbind (ParseInt32 (TrimSpace (elements ! 2))) (\<lambda>imm.
     Inr (I_srli rd rs imm)))))"

definition case_sub :: "string list \<Rightarrow> string \<Rightarrow> instr result" where
  "case_sub elements line =
     rbind (validateArgs 3 elements line) (\<lambda>_.
     rbind (parseRegister (TrimSpace (elements ! 0))) (\<lambda>rd.
     rbind (parseRegister (TrimSpace (elements ! 1))) (\<lambda>rs1.
     rbind (parseRegister (TrimSpace (elements ! 2))) (\<lambda>rs2.
     Inr (I_sub rd rs1 rs2)))))"

definition case_sw :: "string list \<Rightarrow> string \<Rightarrow> instr result" where
  "case_sw elements line =
     rbind (validateArgs 2 elements line) (\<lambda>_.
     rbind (parseRegister (TrimSpace (elements ! 0))) (\<lambda>rs2.
     rbind (parseOffsetReg (TrimSpace (elements ! 1))) (\<lambda>(offset, rs1).
     Inr (I_sw rs2 offset rs1))))"

definition case_xor :: "string list \<Rightarrow> string \<Rightarrow> instr result" where
  "case_xor elements line =
     rbind (validateArgs 3 elements line) (\<lambda>_.
     rbind (parseRegister (TrimSpace (elements ! 0))) (\<lambda>rd.
     rbind (parseRegister (TrimSpace (elements ! 1))) (\<lambda>rs1.
     rbind (parseRegister (TrimSpace (elements ! 2))) (\<lambda>rs2.
     Inr (I_xor rd rs1 rs2)))))"

definition case_xori :: "string list \<Rightarrow> string \<Rightarrow> instr result" where
  "case_xori elements line =
     rbind (validateArgs 3 elements line) (\<lambda>_.
     rbind (parseRegister (TrimSpace (elements ! 0))) (\<lambda>rd.
     rbind (parseRegister (TrimSpace (elements ! 1))) (\<lambda>rs.
     rbind (ParseInt32 (TrimSpace (elements ! 2))) (\<lambda>imm.
     Inr (I_xori imm rd rs)))))"

lemmas case_defs =
  case_add_def case_and_def case_addi_def case_andi_def case_auipc_def case_beq_def
  case_beqz_def case_bge_def case_bgeu_def case_blt_def case_bltu_def case_bne_def
  case_div_def case_j_def case_jal_def case_jalr_def case_lui_def case_lb_def
  case_lh_def case_li_def case_lw_def case_nop_def case_mul_def case_mv_def case_or_def
  case_ori_def case_rem_def case_ret_def case_sb_def case_sh_def case_sll_def
  case_slli_def case_slt_def case_sltu_def case_slti_def case_sra_def case_srai_def
  case_srl_def case_srli_def case_sub_def case_sw_def case_xor_def case_xori_def

definition dispatch :: "(string \<times> (string list \<Rightarrow> string \<Rightarrow> instr result)) list" where
  "dispatch =
    [(''add'', case_add), (''and'', case_and), (''addi'', case_addi), (''andi'', case_andi),
     (''auipc'', case_auipc), (''beq'', case_beq), (''beqz'', case_beqz), (''bge'', case_bge),
     (''bgeu'', case_bgeu), (''blt'', case_blt), (''bltu'', case_bltu), (''bne'', case_bne),
     (''div'', case_div), (''j'', case_j), (''jal'', case_jal), (''jalr'', case_jalr),
     (''lui'', case_lui), (''lb'', case_lb), (''lh'', case_lh), (''li'', case_li),
     (''lw'', case_lw), (''nop'', case_nop), (''mul'', case_mul), (''mv'', case_mv),
     (''or'', case_or), (''ori'', case_ori), (''rem'', case_rem), (''ret'', case_ret),
     (''sb'', case_sb), (''sh'', case_sh), (''sll'', case_sll), (''slli'', case_slli),
     (''slt'', case_slt), (''sltu'', case_sltu), (''slti'', case_slti), (''sra'', case_sra),
     (''srai'', case_srai), (''srl'', case_srl), (''srli'', case_srli), (''sub'', case_sub),
     (''sw'', case_sw), (''xor'', case_xor), (''xori'', case_xori)]"

section \<open>Lines and programs\<close>

record parsing =
  parsed :: "instr list"
  parsed_labels :: "string \<rightharpoonup> int32"
  parsed_pc :: int32

definition on_line :: "string \<Rightarrow> 'a result \<Rightarrow> 'a result" where
  "on_line line r = (case r of Inl (Error e) \<Rightarrow> Inl (Error (OnLine line e)) | _ \<Rightarrow> r)"

text \<open>The body of the loop over the lines.\<close>

definition parse_line :: "string \<Rightarrow> parsing \<Rightarrow> parsing result" where
  "parse_line text st =
     (let line = TrimSpace text in
      if length line = 0 \<or> hd line = CHR ''#'' then Inr st
      else let firstWhitespace = Index line CHR '' ''; lastCharacters = last line in
      if firstWhitespace = -1 \<and> lastCharacters \<noteq> CHR '':'' then Inl (Error (InvalidLine line))
      else if firstWhitespace = -1 \<and> lastCharacters = CHR '':''
      then Inr (st\<lparr>parsed_labels := (parsed_labels st)(butlast line \<mapsto> parsed_pc st)\<rparr>)
      else let remainingLine = drop (nat (firstWhitespace + 1)) line;
               comment = Index remainingLine CHR ''#'';
               remainingLine = (if comment \<noteq> -1 then TrimSpace (take (nat comment) remainingLine)
                 else remainingLine);
               elements = Split remainingLine CHR '',''
           in case map_of dispatch (ToLower (take (nat firstWhitespace) line)) of
                None \<Rightarrow> Inl (Error (InvalidInstruction line))
              | Some f \<Rightarrow> rbind (on_line remainingLine (f elements remainingLine)) (\<lambda>i.
                  Inr (st\<lparr>parsed := parsed st @ [i], parsed_pc := parsed_pc st + 4\<rparr>)))"

fun parse_lines :: "string list \<Rightarrow> parsing \<Rightarrow> parsing result" where
  "parse_lines [] st = Inr st"
| "parse_lines (l # ls) st = rbind (parse_line l st) (parse_lines ls)"

definition Parse :: "string \<Rightarrow> app result" where
  "Parse s =
     rbind (parse_lines (Split s (CHR 0x0A)) \<lparr>parsed = [], parsed_labels = Map.empty, parsed_pc = 0\<rparr>)
       (\<lambda>st. Inr \<lparr>Instructions = parsed st, Labels = parsed_labels st\<rparr>)"

end
