(* ===== verification/Assembly.thy ===== *)
theory Assembly
  imports Parser
begin

text \<open>
  Assembly text as a specification of the parser: \<open>print_program\<close> writes instructions and labels in
  the syntax that \<open>Parse\<close> reads, and \<open>Parse_print\<close> shows that reading gives them back. Instructions
  without operands are printed with an empty comment, since the parser rejects a mnemonic that no
  space follows.
\<close>

section \<open>Printing\<close>

definition register_name :: "RegisterType \<Rightarrow> string" where
  "register_name r = ToLower (RegisterType_String r)"

text \<open>The mnemonic of an instruction and its operands in the order of the text.\<close>

primrec print_parts :: "instr \<Rightarrow> string \<times> string list" where
  "print_parts (I_add rd rs1 rs2) =
    (''add'', [register_name rd, register_name rs1, register_name rs2])"
| "print_parts (I_addi imm rd rs) =
    (''addi'', [register_name rd, register_name rs, show_int32 imm])"
| "print_parts (I_and rd rs1 rs2) =
    (''and'', [register_name rd, register_name rs1, register_name rs2])"
| "print_parts (I_andi imm rd rs) =
    (''andi'', [register_name rd, register_name rs, show_int32 imm])"
| "print_parts (I_auipc rd imm) =
    (''auipc'', [register_name rd, show_int32 imm])"
| "print_parts (I_beq rs1 rs2 label) =
    (''beq'', [register_name rs1, register_name rs2, label])"
| "print_parts (I_beqz rs label) =
    (''beqz'', [register_name rs, label])"
| "print_parts (I_bge rs1 rs2 label) =
    (''bge'', [register_name rs1, register_name rs2, label])"
| "print_parts (I_bgeu rs1 rs2 label) =
    (''bgeu'', [register_name rs1, register_name rs2, label])"
| "print_parts (I_blt rs1 rs2 label) =
    (''blt'', [register_name rs1, register_name rs2, label])"
| "print_parts (I_bltu rs1 rs2 label) =
    (''bltu'', [register_name rs1, register_name rs2, label])"
| "print_parts (I_bne rs1 rs2 label) =
    (''bne'', [register_name rs1, register_name rs2, label])"
| "print_parts (I_div rd rs1 rs2) =
    (''div'', [register_name rd, register_name rs1, register_name rs2])"
| "print_parts (I_j label) =
    (''j'', [label])"
| "print_parts (I_jal label rd) =
    (''jal'', [register_name rd, label])"
| "print_parts (I_jalr rd rs imm) =
    (''jalr'', [register_name rd, register_name rs, show_int32 imm])"
| "print_parts (I_lui rd imm) =
    (''lui'', [register_name rd, show_int32 imm])"
| "print_parts (I_lb rd offset rs) =
    (''lb'', [register_name rd, show_int32 offset @ ''('' @ register_name rs @ '')''])"
| "print_parts (I_lh rd offset rs) =
    (''lh'', [register_name rd, show_int32 offset @ ''('' @ register_name rs @ '')''])"
| "print_parts (I_li rd imm) =
    (''li'', [register_name rd, show_int32 imm])"
| "print_parts (I_lw rd offset rs) =
    (''lw'', [register_name rd, show_int32 offset @ ''('' @ register_name rs @ '')''])"
| "print_parts I_nop =
    (''nop'', [])"
| "print_parts (I_mul rd rs1 rs2) =
    (''mul'', [register_name rd, register_name rs1, register_name rs2])"
| "print_parts (I_mv rd rs) =
    (''mv'', [register_name rd, register_name rs])"
| "print_parts (I_or rd rs1 rs2) =
    (''or'', [register_name rd, register_name rs1, register_name rs2])"
| "print_parts (I_ori imm rd rs) =
    (''ori'', [register_name rd, register_name rs, show_int32 imm])"
| "print_parts (I_rem rd rs1 rs2) =
    (''rem'', [register_name rd, register_name rs1, register_name rs2])"
| "print_parts I_ret =
    (''ret'', [])"
| "print_parts (I_sb rs2 offset rs1) =
    (''sb'', [register_name rs2, show_int32 offset @ ''('' @ register_name rs1 @ '')''])"
| "print_parts (I_sh rs2 offset rs1) =
    (''sh'', [register_name rs2, show_int32 offset, register_name rs1])"
| "print_parts (I_sll rd rs1 rs2) =
    (''sll'', [register_name rd, register_name rs1, register_name rs2])"
| "print_parts (I_slli rd rs imm) =
    (''slli'', [register_name rd, register_name rs, show_int32 imm])"
| "print_parts (I_slt rd rs1 rs2) =
    (''slt'', [register_name rd, register_name rs1, register_name rs2])"
| "print_parts (I_sltu rd rs1 rs2) =
    (''sltu'', [register_name rd, register_name rs1, register_name rs2])"
| "print_parts (I_slti rd rs imm) =
    (''slti'', [register_name rd, register_name rs, show_int32 imm])"
| "print_parts (I_sra rd rs1 rs2) =
    (''sra'', [register_name rd, register_name rs1, register_name rs2])"
| "print_parts (I_srai rd rs imm) =
    (''srai'', [register_name rd, register_name rs, show_int32 imm])"
| "print_parts (I_srl rd rs1 rs2) =
    (''srl'', [register_name rd, register_name rs1, register_name rs2])"
| "print_parts (I_srli rd rs imm) =
    (''srli'', [register_name rd, register_name rs, show_int32 imm])"
| "print_parts (I_sub rd rs1 rs2) =
    (''sub'', [register_name rd, register_name rs1, register_name rs2])"
| "print_parts (I_sw rs2 offset rs1) =
    (''sw'', [register_name rs2, show_int32 offset @ ''('' @ register_name rs1 @ '')''])"
| "print_parts (I_xor rd rs1 rs2) =
    (''xor'', [register_name rd, register_name rs1, register_name rs2])"
| "print_parts (I_xori imm rd rs) =
    (''xori'', [register_name rd, register_name rs, show_int32 imm])"

text \<open>Names that can stand as an operand or a label: no spaces, no separators.\<close>

definition plain :: "string \<Rightarrow> bool" where
  "plain s \<longleftrightarrow> s \<noteq> [] \<and> list_all (\<lambda>c. \<not> is_space c \<and> c \<noteq> CHR '','' \<and> c \<noteq> CHR ''#'') s"

primrec label_of :: "instr \<Rightarrow> string option" where
  "label_of (I_add rd rs1 rs2) = None"
| "label_of (I_addi imm rd rs) = None"
| "label_of (I_and rd rs1 rs2) = None"
| "label_of (I_andi imm rd rs) = None"
| "label_of (I_auipc rd imm) = None"
| "label_of (I_beq rs1 rs2 label) = Some label"
| "label_of (I_beqz rs label) = Some label"
| "label_of (I_bge rs1 rs2 label) = Some label"
| "label_of (I_bgeu rs1 rs2 label) = Some label"
| "label_of (I_blt rs1 rs2 label) = Some label"
| "label_of (I_bltu rs1 rs2 label) = Some label"
| "label_of (I_bne rs1 rs2 label) = Some label"
| "label_of (I_div rd rs1 rs2) = None"
| "label_of (I_j label) = Some label"
| "label_of (I_jal label rd) = Some label"
| "label_of (I_jalr rd rs imm) = None"
| "label_of (I_lui rd imm) = None"
| "label_of (I_lb rd offset rs) = None"
| "label_of (I_lh rd offset rs) = None"
| "label_of (I_li rd imm) = None"
| "label_of (I_lw rd offset rs) = None"
| "label_of I_nop = None"
| "label_of (I_mul rd rs1 rs2) = None"
| "label_of (I_mv rd rs) = None"
| "label_of (I_or rd rs1 rs2) = None"
| "label_of (I_ori imm rd rs) = None"
| "label_of (I_rem rd rs1 rs2) = None"
| "label_of I_ret = None"
| "label_of (I_sb rs2 offset rs1) = None"
| "label_of (I_sh rs2 offset rs1) = None"
| "label_of (I_sll rd rs1 rs2) = None"
| "label_of (I_slli rd rs imm) = None"
| "label_of (I_slt rd rs1 rs2) = None"
| "label_of (I_sltu rd rs1 rs2) = None"
| "label_of (I_slti rd rs imm) = None"
| "label_of (I_sra rd rs1 rs2) = None"
| "label_of (I_srai rd rs imm) = None"
| "label_of (I_srl rd rs1 rs2) = None"
| "label_of (I_srli rd rs imm) = None"
| "label_of (I_sub rd rs1 rs2) = None"
| "label_of (I_sw rs2 offset rs1) = None"
| "label_of (I_xor rd rs1 rs2) = None"
| "label_of (I_xori imm rd rs) = None"

definition printable :: "instr \<Rightarrow> bool" where
  "printable i \<longleftrightarrow> (case label_of i of None \<Rightarrow> True | Some l \<Rightarrow> plain l)"

definition print_instr :: "instr \<Rightarrow> string" where
  "print_instr i =
     fst (print_parts i) @ '' ''
       @ (if snd (print_parts i) = [] then ''#'' else join '', '' (snd (print_parts i)))"

datatype item = Label string | Instruction instr

fun print_item :: "item \<Rightarrow> string" where
  "print_item (Label l) = l @ '':''"
| "print_item (Instruction i) = print_instr i"

definition print_program :: "item list \<Rightarrow> string" where
  "print_program items = join [CHR 0x0A] (map print_item items)"

fun item_ok :: "item \<Rightarrow> bool" where
  "item_ok (Label l) = plain l"
| "item_ok (Instruction i) = printable i"

section \<open>Operands\<close>

text \<open>The 32 registers by evaluation.\<close>

lemma register_names_all:
  "list_all (\<lambda>r. map_of register_names (register_name r) = Some r \<and> plain (register_name r)
     \<and> CHR ''('' \<notin> set (register_name r)) all_registers"
  by code_simp

lemma register_name_plain: "plain (register_name r)"
  and register_name_paren: "CHR ''('' \<notin> set (register_name r)"
  and register_name_known: "map_of register_names (register_name r) = Some r"
  using register_names_all all_registers_complete [of r] by (auto simp: list_all_iff)

lemma parseRegister_name: "parseRegister (register_name r) = Inr r"
  by (simp add: parseRegister_def register_name_known)

lemma plain_TrimSpace: "plain s \<Longrightarrow> TrimSpace s = s"
  by (rule TrimSpace_unspaced) (auto simp: plain_def list_all_iff)

lemma show_int32_plain: "plain (show_int32 v)"
  using show_int32_other [of _ v] by (auto simp: plain_def list_all_iff show_int32_def)

lemma plain_offset: "plain (show_int32 v @ ''('' @ register_name r @ '')'')"
  using show_int32_plain [of v] register_name_plain [of r]
  by (simp add: plain_def is_space_def)

lemma parseOffsetReg_print:
  "parseOffsetReg (show_int32 v @ ''('' @ register_name r @ '')'') = Inr (v, r)"
proof -
  have "CHR ''('' \<notin> set (show_int32 v)" using show_int32_other by blast
  then have "Index (show_int32 v @ ''('' @ register_name r @ '')'') CHR ''('' = int (length (show_int32 v))"
    using Index_append [of "CHR ''(''" "show_int32 v"] by simp
  then show ?thesis
    using plain_TrimSpace [OF show_int32_plain [of v]] plain_TrimSpace [OF register_name_plain [of r]]
    by (simp add: parseOffsetReg_def ParseInt32_show parseRegister_name nat_add_distrib)
qed

lemma parts_plain: "printable i \<Longrightarrow> \<forall>s \<in> set (snd (print_parts i)). plain s"
  by (cases i) (simp_all add: register_name_plain show_int32_plain plain_offset [simplified]
      printable_def)

section \<open>Instructions\<close>

lemma two_elements: "map f xs = [a, b] \<Longrightarrow> \<exists>x y. xs = [x, y] \<and> f x = a \<and> f y = b"
  by (auto simp: map_eq_Cons_conv)

lemma three_elements:
  "map f xs = [a, b, c] \<Longrightarrow> \<exists>x y z. xs = [x, y, z] \<and> f x = a \<and> f y = b \<and> f z = c"
  by (auto simp: map_eq_Cons_conv)

text \<open>The case of the printed mnemonic reads the printed operands.\<close>

lemma dispatch_print:
  assumes "snd (print_parts i) = [] \<or> map TrimSpace elements = snd (print_parts i)"
  shows "\<exists>f. map_of dispatch (fst (print_parts i)) = Some f \<and> f elements line = Inr i"
  using assms
  by (cases i)
    (auto simp: dispatch_def case_defs validateArgs_def parseRegister_name ParseInt32_show
      parseOffsetReg_print [simplified] map_eq_Cons_conv)

section \<open>Lines\<close>

lemma mnemonic:
  "fst (print_parts i) \<noteq> [] \<and> list_all (\<lambda>c. \<not> is_space c \<and> c \<noteq> CHR ''#'') (fst (print_parts i))
    \<and> ToLower (fst (print_parts i)) = fst (print_parts i)"
  by (cases i) (simp_all add: ToLower_def lower_def is_space_def)

text \<open>Splitting the printed operands at the commas leaves a space before all but the first.\<close>

lemma Split_operands:
  assumes "args \<noteq> []" and "\<forall>s \<in> set args. CHR '','' \<notin> set s" and "pre = [] \<or> pre = '' ''"
  shows "map TrimSpace (Split (pre @ join '', '' args) CHR '','') = map TrimSpace args"
  using assms
proof (induction "'', ''" args arbitrary: pre rule: join.induct)
  case (2 s)
  then have "CHR '','' \<notin> set (pre @ s)" by auto
  with 2 show ?case by (auto simp: Split_single)
next
  case (3 s t ss)
  then have "CHR '','' \<notin> set (pre @ s)" by auto
  then have "Split ((pre @ s) @ CHR '','' # '' '' @ join '', '' (t # ss)) CHR '',''
      = (pre @ s) # Split ('' '' @ join '', '' (t # ss)) CHR '',''"
    by (rule Split_append)
  moreover have "map TrimSpace (Split ('' '' @ join '', '' (t # ss)) CHR '','') = map TrimSpace (t # ss)"
    using 3 by (intro 3(1)) auto
  moreover have "pre @ join '', '' (s # t # ss) = (pre @ s) @ CHR '','' # '' '' @ join '', '' (t # ss)"
    by simp
  moreover have "TrimSpace (pre @ s) = TrimSpace s"
    using 3(4) by auto
  ultimately show ?case by (simp only: list.map)
qed simp

lemma join_chars: "c \<in> set (join sep ss) \<Longrightarrow> c \<in> set sep \<or> (\<exists>s \<in> set ss. c \<in> set s)"
  by (induction sep ss rule: join.induct) auto

lemma join_last:
  "ss \<noteq> [] \<Longrightarrow> \<forall>s \<in> set ss. s \<noteq> [] \<Longrightarrow> join sep ss \<noteq> [] \<and> last (join sep ss) = last (last ss)"
  by (induction sep ss rule: join.induct) auto

lemma plain_char: "plain s \<Longrightarrow> c \<in> set s \<Longrightarrow> \<not> is_space c \<and> c \<noteq> CHR '','' \<and> c \<noteq> CHR ''#''"
  by (auto simp: plain_def list_all_iff)

lemma plain_nonempty: "plain s \<Longrightarrow> s \<noteq> []"
  by (simp add: plain_def)

text \<open>The part of a printed instruction after its mnemonic.\<close>

definition operands_text :: "instr \<Rightarrow> string" where
  "operands_text i =
     (if snd (print_parts i) = [] then ''#'' else join '', '' (snd (print_parts i)))"

lemma print_instr_text: "print_instr i = fst (print_parts i) @ CHR '' '' # operands_text i"
  by (simp add: print_instr_def operands_text_def)

lemma operands_text_end:
  assumes "printable i"
  shows "operands_text i \<noteq> []" and "\<not> is_space (last (operands_text i))"
    and "CHR 0x0A \<notin> set (operands_text i)"
    and "snd (print_parts i) \<noteq> [] \<Longrightarrow> CHR ''#'' \<notin> set (operands_text i)"
proof -
  note plain = parts_plain [OF assms]
  have args: "join '', '' (snd (print_parts i)) \<noteq> []
      \<and> last (join '', '' (snd (print_parts i))) = last (last (snd (print_parts i)))"
    if "snd (print_parts i) \<noteq> []"
    using that plain plain_nonempty by (intro join_last) auto
  then show "operands_text i \<noteq> []" by (simp add: operands_text_def)
  show "\<not> is_space (last (operands_text i))"
  proof (cases "snd (print_parts i) = []")
    case False
    then have "plain (last (snd (print_parts i)))" using plain by simp
    then have "\<not> is_space (last (last (snd (print_parts i))))"
      using plain_char plain_nonempty last_in_set by blast
    with args False show ?thesis by (simp add: operands_text_def)
  qed (simp add: operands_text_def is_space_def)
  have newline: "is_space (CHR 0x0A)" by (simp add: is_space_def)
  then show "CHR 0x0A \<notin> set (operands_text i)"
    using plain plain_char by (auto simp: operands_text_def dest!: join_chars)
  show "CHR ''#'' \<notin> set (operands_text i)" if "snd (print_parts i) \<noteq> []"
    using that plain plain_char by (auto simp: operands_text_def dest!: join_chars)
qed

lemma print_instr_trimmed:
  assumes "printable i"
  shows "TrimSpace (print_instr i) = print_instr i" and "print_instr i \<noteq> []"
    and "hd (print_instr i) \<noteq> CHR ''#''"
    and "Index (print_instr i) CHR '' '' = int (length (fst (print_parts i)))"
proof -
  have "hd (fst (print_parts i)) \<in> set (fst (print_parts i))"
    using mnemonic [of i] by simp
  then have first: "\<not> is_space (hd (print_instr i)) \<and> hd (print_instr i) \<noteq> CHR ''#''"
    using mnemonic [of i] by (auto simp: print_instr_text list_all_iff)
  have "last (print_instr i) = last (operands_text i)"
    using operands_text_end(1) [OF assms] by (simp add: print_instr_text)
  then show "TrimSpace (print_instr i) = print_instr i"
    using first operands_text_end(2) [OF assms]
    by (intro TrimSpace_ends) (simp_all add: print_instr_text)
  show "print_instr i \<noteq> []" by (simp add: print_instr_text)
  show "hd (print_instr i) \<noteq> CHR ''#''" using first by simp
  have "CHR '' '' \<notin> set (fst (print_parts i))"
    using mnemonic [of i] by (auto simp: list_all_iff is_space_def)
  then show "Index (print_instr i) CHR '' '' = int (length (fst (print_parts i)))"
    unfolding print_instr_text by (rule Index_append)
qed

lemma parse_print_instr:
  assumes "printable i"
  shows "parse_line (print_instr i) st =
    Inr (st\<lparr>parsed := parsed st @ [i], parsed_pc := parsed_pc st + 4\<rparr>)"
proof -
  let ?mn = "fst (print_parts i)" and ?rest = "operands_text i"
  define remaining where "remaining = (if Index ?rest CHR ''#'' \<noteq> -1
    then TrimSpace (take (nat (Index ?rest CHR ''#'')) ?rest) else ?rest)"
  note t = print_instr_trimmed [OF assms]
  have "snd (print_parts i) = [] \<or> map TrimSpace (Split remaining CHR '','') = snd (print_parts i)"
  proof (cases "snd (print_parts i) = []")
    case False
    have commas: "\<forall>s \<in> set (snd (print_parts i)). CHR '','' \<notin> set s"
      and trimmed: "map TrimSpace (snd (print_parts i)) = snd (print_parts i)"
      using parts_plain [OF assms] plain_char by (auto intro!: map_idI plain_TrimSpace)
    have "remaining = join '', '' (snd (print_parts i))"
      using False operands_text_end(4) [OF assms False] Index_missing [of ?rest "CHR ''#''"]
      by (simp add: remaining_def operands_text_def)
    then show ?thesis
      using Split_operands [OF False commas, of "[]"] trimmed by simp
  qed simp
  from dispatch_print [OF this, of remaining] obtain f where
    f: "map_of dispatch ?mn = Some f" "f (Split remaining CHR '','') remaining = Inr i"
    by blast
  have parts: "take (nat (int (length ?mn))) (print_instr i) = ?mn"
    "drop (nat (int (length ?mn) + 1)) (print_instr i) = ?rest"
    by (simp_all add: print_instr_text nat_add_distrib)
  show ?thesis
    unfolding parse_line_def t(1) Let_def t(4) parts remaining_def [symmetric]
    using t(2,3) f mnemonic [of i] by (simp add: on_line_def)
qed

lemma parse_print_label:
  assumes "plain l"
  shows "parse_line (l @ '':'') st = Inr (st\<lparr>parsed_labels := (parsed_labels st)(l \<mapsto> parsed_pc st)\<rparr>)"
proof -
  have chars: "\<forall>c \<in> set (l @ '':''). \<not> is_space c"
    using plain_char [OF assms] by (auto simp: is_space_def)
  then have trim: "TrimSpace (l @ '':'') = l @ '':''"
    by (rule TrimSpace_unspaced)
  have "Index (l @ '':'') CHR '' '' = -1"
    unfolding Index_missing using chars by (auto simp: is_space_def)
  moreover have "hd (l @ '':'') \<noteq> CHR ''#''"
    using plain_char [OF assms, of "hd l"] plain_nonempty [OF assms] by simp
  ultimately show ?thesis
    unfolding parse_line_def trim Let_def by simp
qed

section \<open>Programs\<close>

text \<open>What a program means: its instructions, and for a label the address of the instruction that
  follows its last definition.\<close>

fun instructions_of :: "item list \<Rightarrow> instr list" where
  "instructions_of [] = []"
| "instructions_of (Label l # items) = instructions_of items"
| "instructions_of (Instruction i # items) = i # instructions_of items"

fun labels_from :: "nat \<Rightarrow> item list \<Rightarrow> (string \<rightharpoonup> int32) \<Rightarrow> (string \<rightharpoonup> int32)" where
  "labels_from k [] m = m"
| "labels_from k (Label l # items) m = labels_from k items (m(l \<mapsto> of_nat (4 * k)))"
| "labels_from k (Instruction i # items) m = labels_from (Suc k) items m"

definition assemble :: "item list \<Rightarrow> app" where
  "assemble items =
     \<lparr>Instructions = instructions_of items, Labels = labels_from 0 items Map.empty\<rparr>"

lemma ex_split_Cons:
  "(\<exists>xs ys. it # items = xs @ x # ys \<and> P xs ys) \<longleftrightarrow>
    (it = x \<and> P [] items) \<or> (\<exists>xs ys. items = xs @ x # ys \<and> P (it # xs) ys)"
  (is "?lhs \<longleftrightarrow> ?rhs")
proof
  assume ?lhs
  then obtain xs ys where "it # items = xs @ x # ys" and "P xs ys" by blast
  then show ?rhs by (cases xs) auto
next
  assume ?rhs
  then show ?lhs by (metis append_Cons append_Nil)
qed

lemma labels_from_iff:
  "labels_from k items m l = Some a \<longleftrightarrow>
    (\<exists>xs ys. items = xs @ Label l # ys
      \<and> Label l \<notin> set ys \<and> a = of_nat (4 * (k + length (instructions_of xs))))
    \<or> (Label l \<notin> set items \<and> m l = Some a)"
proof (induction k items m rule: labels_from.induct)
  case (1 k m)
  then show ?case by simp
next
  case (2 k j items m)
  show ?case
    unfolding labels_from.simps 2 ex_split_Cons instructions_of.simps
    by (cases "j = l") auto
next
  case (3 k i items m)
  show ?case
    unfolding labels_from.simps 3 ex_split_Cons instructions_of.simps
    by auto
qed

lemma parse_items:
  assumes "\<forall>it \<in> set items. item_ok it"
  shows "parse_lines (map print_item items) \<lparr>parsed = done_before, parsed_labels = m, parsed_pc = of_nat (4 * k)\<rparr> =
    Inr \<lparr>parsed = done_before @ instructions_of items, parsed_labels = labels_from k items m,
      parsed_pc = of_nat (4 * (k + length (instructions_of items)))\<rparr>"
  using assms
proof (induction items arbitrary: done_before m k)
  case Nil
  then show ?case by simp
next
  case (Cons it items)
  have next_pc: "of_nat (4 * k) + 4 = (of_nat (4 * Suc k) :: int32)" by simp
  show ?case
  proof (cases it)
    case (Label l)
    with Cons show ?thesis by (simp add: parse_print_label del: of_nat_mult of_nat_add)
  next
    case (Instruction i)
    with Cons.prems Cons.IH [of "done_before @ [i]" m "Suc k"] next_pc show ?thesis
      by (simp add: parse_print_instr del: of_nat_mult of_nat_Suc of_nat_add)
  qed
qed

lemma print_item_line: "item_ok it \<Longrightarrow> CHR 0x0A \<notin> set (print_item it)"
proof (cases it)
  case (Label l)
  assume "item_ok it"
  moreover have "is_space (CHR 0x0A)" by (simp add: is_space_def)
  ultimately show ?thesis
    using Label plain_char by auto
next
  case (Instruction i)
  assume "item_ok it"
  with Instruction have operands: "CHR 0x0A \<notin> set (operands_text i)"
    using operands_text_end(3) by simp
  have "list_all (\<lambda>c. \<not> is_space c \<and> c \<noteq> CHR ''#'') (fst (print_parts i))"
    using mnemonic by blast
  then have "\<forall>c \<in> set (fst (print_parts i)). \<not> is_space c"
    by (simp add: list_all_iff)
  moreover have "is_space (CHR 0x0A)" by (simp add: is_space_def)
  ultimately have "CHR 0x0A \<notin> set (fst (print_parts i))" by blast
  with operands show ?thesis
    by (simp add: Instruction print_instr_text)
qed

lemma Parse_print:
  assumes "items \<noteq> []" and "\<forall>it \<in> set items. item_ok it"
  shows "Parse (print_program items) = Inr (assemble items)"
proof -
  have "Split (print_program items) (CHR 0x0A) = map print_item items"
    unfolding print_program_def using assms print_item_line by (intro Split_join) auto
  then show ?thesis
    using parse_items [OF assms(2), of "[]" Map.empty 0] by (simp add: Parse_def assemble_def)
qed

section \<open>Failures\<close>

text \<open>The only panic of the parser is the slice expression of \<open>parseOffsetReg\<close>.\<close>

definition slice_panic_only :: "'a result \<Rightarrow> bool" where
  "slice_panic_only m \<longleftrightarrow> (\<forall>p. m = Inl (Panic p) \<longrightarrow> p = SliceOutOfRange)"

lemma slice_panic_only_bind:
  "slice_panic_only m \<Longrightarrow> (\<And>x. slice_panic_only (f x)) \<Longrightarrow> slice_panic_only (rbind m f)"
  by (cases m) (auto simp: slice_panic_only_def)

lemma slice_panic_only_basic:
  "slice_panic_only (Inr x)"
  "slice_panic_only (Inl (Error e))"
  "slice_panic_only (Inl (Panic SliceOutOfRange))"
  "slice_panic_only (validateArgs n args line)"
  "slice_panic_only (parseRegister s)"
  "slice_panic_only (ParseInt32 s)"
  by (auto simp: slice_panic_only_def validateArgs_def parseRegister_def ParseInt32_def Let_def
      split: option.splits if_splits)

lemma slice_panic_only_pair:
  "(\<And>a b. slice_panic_only (f a b)) \<Longrightarrow> slice_panic_only (case p of (a, b) \<Rightarrow> f a b)"
  by (cases p) simp

lemma parseOffsetReg_panics: "slice_panic_only (parseOffsetReg s)"
  unfolding parseOffsetReg_def Let_def
  by (simp add: slice_panic_only_basic slice_panic_only_bind)

lemmas slice_panic_only_intros =
  slice_panic_only_bind slice_panic_only_pair slice_panic_only_basic parseOffsetReg_panics

lemma case_panics: "list_all (\<lambda>(mn, f). slice_panic_only (f elements line)) dispatch"
  unfolding dispatch_def list.pred_inject prod.case
  by (simp only: case_defs Let_def HOL.simp_thms) (intro conjI TrueI list.pred_inject(1) slice_panic_only_intros)+

lemma dispatch_panics: "(mn, f) \<in> set dispatch \<Longrightarrow> slice_panic_only (f elements line)"
  using case_panics [of elements line] by (auto simp: list_all_iff)

lemma parse_line_panics: "slice_panic_only (parse_line text st)"
proof -
  have "slice_panic_only (on_line line (f elements line))"
    if "map_of dispatch mn = Some f" for mn f elements line
    using dispatch_panics [OF map_of_SomeD [OF that], of elements line]
    by (auto simp: slice_panic_only_def on_line_def split: sum.splits failure.splits)
  then show ?thesis
    unfolding parse_line_def Let_def
    by (auto simp: slice_panic_only_basic intro!: slice_panic_only_bind split: option.split)
qed

lemma Parse_panics: "slice_panic_only (Parse s)"
proof -
  have "slice_panic_only (parse_lines ls st)" for ls st
    by (induction ls arbitrary: st)
      (simp_all add: slice_panic_only_basic slice_panic_only_bind parse_line_panics)
  then show ?thesis
    unfolding Parse_def by (intro slice_panic_only_intros)
qed

end
