(* ===== verification/Spec2Isabelle.thy ===== *)
theory Spec2Isabelle
  imports Isa Hazards Bus Queue Btb Runner Mvp2 Mvp3 Mvp60Runs IssueRuns Assembly
begin

text \<open>
  A model of the RISC-V virtual processors of this repository (Go, \<open>src/\<close>) and the theorems that make
  them correct.

  \<^bold>\<open>The program.\<close> Package \<open>risc\<close> holds the instruction set: registers and instruction types
  (\<open>risc.go\<close>), the execution context with registers, memory and the scoreboard of pending registers
  (\<open>app.go\<close>), 43 instructions with their methods (\<open>opcodes.go\<close>), byte conversions (\<open>bit.go\<close>), an
  assembly parser (\<open>parser.go\<close>) and an interpreter (\<open>runner.go\<close>). Package \<open>proc/comp\<close> holds the parts of
  the processors: an LRU cache, two kinds of bus and a queue. The packages \<open>proc/mvp1\<close> to
  \<open>proc/mvp6-1\<close> are processors that execute the same programs with more and more machinery:
  MVP-1 executes one instruction after the other, MVP-2 adds an instruction cache, MVP-3 a write-back
  data cache, MVP-4 a four-stage pipeline with a branch unit, MVP-5 a branch target buffer, MVP-6.0 two
  execute units and a control unit that issues instructions out of a queue, MVP-6.1 forwarding.

  \<^bold>\<open>Conventions.\<close> A Go struct is a record with the source's field names (a prefix where two structs
  share one), a method a function from the old to the new state; \<open>int32\<close> and \<open>int8\<close> are words of
  that width, with Go's truncated division and signed comparison; \<open>int\<close> counters are integers. A
  result is \<open>Inl\<close> of an error or of a panic (\<open>failure\<close>) or \<open>Inr\<close> of a value: index and slice
  expressions, integer conversion and nil maps panic as in Go. A Go map that is read only by key is a
  map; one that is iterated is an association list, and a theorem shows that the order is
  irrelevant. A main loop is \<open>run_loop\<close> over a step function with fuel: \<open>None\<close> means that the loop is
  still running. Fuel is an upper bound of the number of iterations; the theorems hold for every
  fuel, or give the fuel that is enough.

  \<^bold>\<open>The theories.\<close>
  \<^item> \<open>Prelude\<close>: results and their bind, words, list lemmas, named collections. \<open>Risc\<close>, \<open>Bits\<close>, \<open>App\<close>,
    \<open>Hazards\<close>: \<open>risc.go\<close>, \<open>bit.go\<close>, \<open>app.go\<close>. \<open>Opcodes\<close>, \<open>Footprint\<close>, \<open>Isa\<close>: \<open>opcodes.go\<close>, what an
    instruction reads and writes, and a reference semantics of RV32 that it is compared with.
  \<^item> \<open>Strings\<close>, \<open>Parser\<close>, \<open>Assembly\<close>: \<open>parser.go\<close> with the library functions that it calls, and the
    printer that parsing inverts.
  \<^item> \<open>Cache\<close>, \<open>Bus\<close>, \<open>Queue\<close>, \<open>Btb\<close>, \<open>Mmu\<close>, \<open>DataCache\<close>: \<open>proc/comp\<close>, the branch target buffers and the
    memory management units, with the memory that a program sees through its data cache (\<open>seen\<close>).
  \<^item> \<open>Machine\<close>: the architecture \<open>arch_step\<close> (one instruction, executed on registers and memory) and
    \<open>run_loop\<close>, with the locales that compare two loops. \<open>Runner\<close>, \<open>Mvp1\<close>, \<open>Mvp2\<close>, \<open>Mvp3\<close>: the
    processors that execute one instruction at a time; each is in lockstep with the previous one
    or with the architecture.
  \<^item> \<open>Stuttering\<close>: the locale for processors whose cycles mostly complete no instruction. \<open>Pipeline\<close>: the
    execute unit, write unit and main loop that MVP-4 and MVP-5 share, over a \<open>front_end\<close>.
    \<open>PipelineData\<close>: the architectural state that a pipeline drains to. \<open>PipelineExec\<close> and \<open>PipelineSim\<close>:
    the locale \<open>front_laws\<close>, the contract of the front, under which the pipeline follows the
    architecture. \<open>Front\<close>, \<open>Mvp4\<close>, \<open>Mvp5\<close>: the fetch and decode units, the branch units and the proof
    that both fronts obey the contract. \<open>PipelineRuns\<close>: concrete runs.
  \<^item> \<open>Superscalar\<close>: what MVP-6.0 and MVP-6.1 share, their main loop with its inner loops as modes, and the
    locale \<open>unit_steps\<close> for relations that the parts of an execute unit preserve. \<open>Mvp60\<close>: the control
    unit and execute units of MVP-6.0, with the locale \<open>control60_property\<close> for what a control unit
    preserves. \<open>Coroutine\<close>: \<open>common/coroutine\<close>. \<open>Mvp61\<close>: the units of MVP-6.1, with stores for the cells,
    channels and forwarded values that its pointers share.
  \<^item> \<open>Flights\<close>, \<open>Flights60\<close>, \<open>Flights61\<close>: the instructions in flight and the scoreboard, over a view of how
    a version stores its instructions (locales \<open>flight_rules\<close> and \<open>flight_units\<close>). \<open>IssueOrder\<close>,
    \<open>IssueRuns\<close>: the control units issue in order, in every cycle of a run. \<open>ForwardChoice\<close>,
    \<open>Forwarding\<close>: the choice of a producer and the way of a forwarded value. \<open>Draining\<close>: the inner loops after \<open>ret\<close> and before a flush. \<open>Waiting\<close>, \<open>Mvp60Runs\<close>:
    concrete runs, whose first 50 cycles are skipped by a lemma.

  \<^bold>\<open>What is shown.\<close> The instructions conform to the reference semantics but for the ones listed, and
  read and write only what they declare. Buses deliver in order, the cache keeps the last lines that
  were used, a flush writes the cached bytes back, a prediction is the last target that was taken, the
  scoreboard is exact. MVP-1 to MVP-3 compute what the architecture computes, with bounds on the
  cycles; MVP-4 and MVP-5 do under a discipline that names what the pipelines get wrong, and then
  return within 400 cycles for each instruction. The 400 bounds \<open>waiting\<close>: at most 153 cycles of the write
  unit (three stores of 51), and at most 180 until the execute unit completes or a flush is over, of
  which 60 are for the front, 50 for the latency of the instruction and 50 for a load. MVP-6.0 and
  MVP-6.1 issue in order, and what they have in flight at the same time may be reordered: the
  instructions of MVP-6.0 are independent, those of MVP-6.1 conflict only where a value is forwarded,
  and a forwarded value is the one that the register gets. After a \<open>ret\<close> MVP-6.0 ends; a flush ends in
  exactly the states that the theorem names. The printed form of a program parses to the program.

  \<^bold>\<open>Where the code departs.\<close> Several theorems show deviations: unsigned comparisons and shifts that are
  signed, a data cache that loses evicted writes, a program that never stops on MVP-1, register results
  that are cleared on retirement, a \<open>bltu\<close> that no branch unit checks, a \<open>ret\<close> that loses results in
  flight, a jump to the end of the program that panics, mnemonics that the parser rejects; in MVP-6.0 a
  flush that never ends, a flush that drops an older load, a \<open>ret\<close> that is obeyed behind a taken branch;
  in MVP-6.1 chained forwards that reach the wrong register.

  \<^bold>\<open>Not modelled.\<close> Debug printing and \<open>common/log\<close>, the \<open>String\<close> methods of the cache, and \<open>Stats\<close>
  have no effect on what is computed. Strings are ASCII, as the parser's input in practice. Test code
  and the interface of \<open>proc/mvp.go\<close> have no behaviour of their own. The packages from MVP-3 on have copies of
  the same memory management unit and from MVP-5 on of the same branch target buffer, each modelled once.
  That MVP-6.0 and MVP-6.1 compute what the architecture computes is not claimed: on some programs they
  do not, as the theorems show, and no discipline is given under which they do.
\<close>

section \<open>The pipelines\<close>





text \<open>C3: The front of MVP-5 delivers the program in order. Let the invariant \<open>f5_fetching\<close> hold for the
  address of the next instruction. A cycle of the fetch and decode units followed by \<open>Get\<close> on the
  execute bus does not fail; it takes nothing and keeps the invariant, or it takes exactly the
  instruction at that address, and if that is not a jump the invariant holds for the address behind
  it. As long as the program has an instruction there, a bounded distance decreases; behind its end
  the front is empty.\<close>

theorem mvp5_front_delivers:
  assumes "f5_fetching app pc f" and "mmu_ok u mem"
  shows "\<exists>f' u'. mvp5_front_cycle app f u = Inr (f', u') \<and> mmu_ok u' mem \<and> l1d u' = l1d u
    \<and> (case mvp5_front_get f' of
         (None, f'') \<Rightarrow> f5_fetching app pc f'' \<and> f5_distance f'' \<le> f5_distance f
           \<and> (if pc_in_app app pc then f5_distance f'' < f5_distance f else mvp5_front_isEmpty f'')
       | (Some r, f'') \<Rightarrow> rp_Pc r = pc \<and> pc_in_app app pc
           \<and> instruction_at app pc = Inr (rp_Runner r)
           \<and> (\<not> is_jump r \<longrightarrow> f5_fetching app (pc + 4) f''))"
  using mvp5_fetching_law [OF assms] by (fastforce simp: f5_issued_def is_jump_def split: prod.splits option.splits)

theorem mvp5_front_delivers_witness:
  "\<exists>u mem f' u'. mmu_ok u mem \<and> f5_fetching jump_demo 0 mvp5_newFront
    \<and> mvp5_front_cycle jump_demo mvp5_newFront u = Inr (f', u')
    \<and> f5_fetching jump_demo 0 (snd (mvp5_front_get f'))"
proof -
  note start = mvp5_newFront_fetching [OF jump_demo_ok]
  from newMemoryManagementUnit_ok [of "replicate 8 0"] obtain u where
    u: "newMemoryManagementUnit = Inr u" "mmu_ok u (replicate 8 0)" by auto
  have start_cycle: "case newMemoryManagementUnit of
      Inr u \<Rightarrow> (case mvp5_front_cycle jump_demo mvp5_newFront u of
        Inr (f', u') \<Rightarrow> fst (mvp5_front_get f') = None | _ \<Rightarrow> False)
    | _ \<Rightarrow> False"
    by code_simp
  obtain f' u' where "mvp5_front_cycle jump_demo mvp5_newFront u = Inr (f', u')"
    "fst (mvp5_front_get f') = None"
    using start_cycle [unfolded u(1)] by (auto split: sum.splits)
  with mvp5_front_delivers [OF start u(2)] u(2) start show ?thesis
    by (cases "mvp5_front_get f'") auto
qed

text \<open>A \<open>bltu\<close> is not a conditional branch for the branch units: MVP-5 never flushes after it, and
  MVP-4 does not unless an older check is left over, so the instructions behind a taken \<open>bltu\<close> are
  executed.\<close>

theorem bltu_not_checked:
  assumes "instructionType (rp_Runner r) = Bltu"
  shows "\<not> fst (btb_shouldFlushPipeline pc (btb_assert r f))
    \<and> (bu_toCheck bu \<or> \<not> fst (simple_shouldFlushPipeline pc (simple_assert r bu)))"
  using assms
  by (simp_all add: btb_shouldFlushPipeline_def btb_assert_def simple_assert_def
      simple_shouldFlushPipeline_def instruction_class_defs)

theorem bltu_not_checked_witness:
  "let r = \<lparr>rp_Runner = I_bltu Zero T0 ''end'', rp_Pc = 4\<rparr> in
    \<not> fst (btb_shouldFlushPipeline 12 (btb_assert r mvp5_newFront))
    \<and> (False \<or> \<not> fst (simple_shouldFlushPipeline 12
        (simple_assert r \<lparr>bu_toCheck = False, bu_expectation = 0\<rparr>)))"
proof -
  have "instructionType (rp_Runner \<lparr>rp_Runner = I_bltu Zero T0 ''end'', rp_Pc = 4\<rparr>) = Bltu"
    by (simp add: op_defs)
  from bltu_not_checked [OF this, of 12 mvp5_newFront "\<lparr>bu_toCheck = False, bu_expectation = 0\<rparr>"]
  show ?thesis by simp
qed

text \<open>C4: \<open>ret\<close> stops MVP-4 while register writes are in flight: a program that sets \<open>t1\<close> to 3 before
  \<open>ret\<close>, behind a store, returns with \<open>t1 = 0\<close> on MVP-4 and with 3 on the architecture.\<close>

theorem ret_loses_writes:
  "(\<exists>m. mvp4_NewCPU False 8 = Inr m \<and> returns_with T1 0 (mvp4_Run (49 + 12) m ret_demo))
    \<and> (\<exists>ctx. run_loop (arch_step Done ret_demo) 4 (0, NewContext False 8) = Some (Inr ctx)
        \<and> map_get (Registers ctx) T1 = 3)"
  using ret_loses_write ret_keeps_write by blast

text \<open>C5: A jump to a label at the end of the program makes MVP-4 and MVP-5 panic with an index out of
  range, where the architecture returns.\<close>

theorem jump_to_end_panics:
  "(\<exists>m. mvp4_NewCPU False 8 = Inr m
      \<and> mvp4_Run (49 + 20) m end_demo = Some (Inl (Panic IndexOutOfRange)))
    \<and> (\<exists>m. mvp5_NewCPU False 8 = Inr m
      \<and> mvp5_Run (49 + 20) m end_demo = Some (Inl (Panic IndexOutOfRange)))
    \<and> (\<exists>ctx. run_loop (arch_step Done end_demo) 2 (0, NewContext False 8) = Some (Inr ctx))"
  using end_panics_mvp4 end_panics_mvp5 end_returns by simp

section \<open>MVP-6.0\<close>



text \<open>C7: After a \<open>ret\<close> MVP-6.0 comes to an end. From every state that it reaches in the loop that empties
  the write units, it returns or fails within 52 iterations for each result on the write bus and the
  rest of the writes to memory that have begun.\<close>

theorem mvp60_ret_terminates:
  assumes "mvp60_reaches app debug n (Returning, m)"
  shows "\<exists>r. run_loop (mvp60_step app) (Suc (drain_time m)) (Returning, m) = Some r"
  using w60.return_ends [OF mvp60_reaches_modes [OF assms]] by (simp add: mvp60_step_def)

theorem mvp60_ret_terminates_witness:
  "\<exists>m r. run_loop (mvp60_step spec_ret) (Suc (drain_time m)) (Returning, m) = Some r"
  using spec_ret_returns(1) mvp60_ret_terminates by blast

text \<open>C8: A flush of MVP-6.0 ends if and only if the write bus has no entry left in its buffer when it
  begins. If so, the processor is back in its main loop after a bounded number of iterations, or it
  has failed; otherwise it never returns, because the bus is not connected in the loop that waits for
  it.\<close>

theorem mvp60_flush_ends_iff:
  assumes "mvp60_reaches app debug n (Draining 0 from pc, m)"
  shows "(bb_buffer (c_writeBus m) = [] \<longrightarrow> (\<exists>k \<le> drain_time m + 3.
      (\<exists>r. run_loop (mvp60_step app) k (Draining 0 from pc, m) = Some r)
      \<or> (\<exists>m'. continues (mvp60_step app) k (Draining 0 from pc, m) = Some (Cycling, m'))))
    \<and> (bb_buffer (c_writeBus m) \<noteq> [] \<longrightarrow>
      (\<forall>fuel m'. run_loop (mvp60_step app) fuel (Draining 0 from pc, m) \<noteq> Some (Inr m')))"
proof -
  have "length (c_writeUnits m) = 2"
    using mvp60_reaches_ok [OF assms] by (simp add: mode_flight_ok_def drain_ok_def queues_ok_def)
  then have "Suc (drain_time m + length (c_writeUnits m)) = drain_time m + 3" "c_writeUnits m \<noteq> []"
    by auto
  with flush_drains(1) [of m units60 cu_pendings app "from" pc]
    flush_drains(2) [of m units60 cu_pendings app _ "from" pc] show ?thesis
    by (simp add: mvp60_step_def)
qed

theorem mvp60_flush_ends_iff_witness:
  "(\<exists>ctx. run_loop (arch_step Done flush_demo) 7 (0, NewContext False 8) = Some (Inr ctx))
    \<and> (\<exists>m. mvp60_reaches flush_demo False 8 (Draining 0 16 24, m)
        \<and> (\<forall>fuel m'. run_loop (mvp60_step flush_demo) fuel (Draining 0 16 24, m) \<noteq> Some (Inr m')))"
  using flush_demo_arch flush_demo_drains mvp60_flush_ends_iff by blast

text \<open>MVP-6.0 obeys a \<open>ret\<close> that stands behind a taken branch: issued together with the branch it
  returns at once, with \<open>t1 = 0\<close>, where the architecture takes the branch and returns with 1.\<close>

theorem mvp60_speculative_ret:
  "(\<exists>m m'. mvp60_NewCPU False 8 = Inr m \<and> mvp60_Run 58 m spec_ret = Some (Inr m')
      \<and> map_get (Registers (c_ctx m')) T1 = 0)
    \<and> (\<exists>ctx. run_loop (arch_step Done spec_ret) 5 (0, NewContext False 8) = Some (Inr ctx)
      \<and> map_get (Registers ctx) T1 = 1)"
  using spec_ret_returns(2) spec_ret_arch by blast

text \<open>C9: A flush of MVP-6.0 drops instructions that are older than the branch: the execute units are reset,
  also a unit that waits for the memory with a load in front of the branch. A program that loads into
  \<open>t0\<close> before a taken branch returns with the old value 7 of \<open>t0\<close>, where the architecture has the
  loaded 0.\<close>

theorem mvp60_flush_loses_load:
  "(\<exists>m m'. mvp60_NewCPU False 8 = Inr m \<and> mvp60_Run 67 m lost_load = Some (Inr m')
      \<and> map_get (Registers (c_ctx m')) T0 = 7)
    \<and> (\<exists>ctx. run_loop (arch_step Done lost_load) 5 (0, NewContext False 8) = Some (Inr ctx)
      \<and> map_get (Registers ctx) T0 = 0)"
  using lost_load_returns lost_load_arch by blast

section \<open>MVP-6.1\<close>

text \<open>C10: The control units of MVP-6.0 and MVP-6.1 issue in the order of the program: in every cycle of a
  run, the instructions on the execute bus, in the queue of the control unit and on its input bus, read
  in this order, are the same sequence before and after the control unit's part of the cycle. Nothing is
  lost, doubled or overtaken.\<close>

theorem control_units_keep_order:
  "(\<forall>m m1. mvp60_reaches app debug n (Cycling, m) \<longrightarrow> control_input units60 app m = Inr m1 \<longrightarrow>
      issue_order60 (controlUnit60_cycle m1) = issue_order60 m1)
    \<and> (\<forall>m m1. mvp61_reaches app debug n (Cycling, m) \<longrightarrow> control_input units61 app m = Inr m1 \<longrightarrow>
      issue_order61 (controlUnit61_cycle m1) = issue_order61 m1)"
  using mvp60_keeps_order mvp61_keeps_order by blast

theorem control_units_keep_order_witness:
  "(\<exists>m m1. mvp60_reaches pair_demo False 8 (Cycling, m) \<and> control_input units60 pair_demo m = Inr m1
      \<and> 2 < length (issue_order60 m1) \<and> issue_order60 (controlUnit60_cycle m1) = issue_order60 m1)
    \<and> (\<exists>m m1. mvp61_reaches pair_demo False 8 (Cycling, m) \<and> control_input units61 pair_demo m = Inr m1
      \<and> 2 < length (issue_order61 m1) \<and> issue_order61 (controlUnit61_cycle m1) = issue_order61 m1)"
proof -
  have "case state60_after 4 pair_demo of None \<Rightarrow> False
      | Some (mode, m) \<Rightarrow> mode = Cycling \<and> (case control_input units60 pair_demo m of
          Inl e \<Rightarrow> False | Inr m1 \<Rightarrow> 2 < length (issue_order60 m1))"
    by code_simp
  then obtain m where s60: "state60_after 4 pair_demo = Some (Cycling, m)"
    "case control_input units60 pair_demo m of Inl e \<Rightarrow> False | Inr m1 \<Rightarrow> 2 < length (issue_order60 m1)"
    by (auto split: option.splits)
  then obtain m1 where m: "control_input units60 pair_demo m = Inr m1" "2 < length (issue_order60 m1)"
    by (cases "control_input units60 pair_demo m") auto
  have "case state61_after 4 pair_demo of None \<Rightarrow> False
      | Some (mode, m) \<Rightarrow> mode = Cycling \<and> (case control_input units61 pair_demo m of
          Inl e \<Rightarrow> False | Inr m1 \<Rightarrow> 2 < length (issue_order61 m1))"
    by code_simp
  then obtain m' where s61: "state61_after 4 pair_demo = Some (Cycling, m')"
    "case control_input units61 pair_demo m' of Inl e \<Rightarrow> False | Inr m1 \<Rightarrow> 2 < length (issue_order61 m1)"
    by (auto split: option.splits)
  then obtain m1' where m': "control_input units61 pair_demo m' = Inr m1'" "2 < length (issue_order61 m1')"
    by (cases "control_input units61 pair_demo m'") auto
  have "mvp60_reaches pair_demo False 8 (Cycling, m)" "mvp61_reaches pair_demo False 8 (Cycling, m')"
    using state60_after [OF s60(1)] state61_after [OF s61(1)] by blast+
  with control_units_keep_order [of pair_demo False 8] m m' show ?thesis by blast
qed

text \<open>C11: In MVP-6.1 an instruction may be in flight together with one that it gets a value from, but in
  every state reached outside a flush no two instructions in flight write the same register, and of two
  of them at most one reads what the other writes. The scoreboard counts exactly their registers. At the
  start of a cycle the runners pushed in the previous cycle are still on the execute bus.\<close>

theorem mvp61_in_flight_one_way:
  assumes "mvp61_reaches app debug n (mode, m)" and "mode = Cycling \<or> mode = Returning"
  shows "one_way (flights view61 m)
    \<and> in_flight (PendingReadRegisters (c_ctx m)) = read_total (flights view61 m)
    \<and> in_flight (PendingWriteRegisters (c_ctx m)) = write_total (flights view61 m)
    \<and> (mode = Cycling \<longrightarrow> set (previously_pushed m) \<subseteq> set (BufferedBus_contents (c_executeBus m)))"
  using mvp61_reaches_ok [OF assms(1)] mvp61_reaches_control_ok [of app debug n m] assms
  by (auto simp: mode_flight_ok_def flight_ok_def exact_def view61_def control_ok_def)

theorem mvp61_in_flight_one_way_witness:
  "\<exists>m. mvp61_reaches pair_demo False 8 (Cycling, m) \<and> previously_pushed m = [1, 2]
    \<and> one_way (flights view61 m)
    \<and> in_flight (PendingWriteRegisters (c_ctx m)) = write_total (flights view61 m)
    \<and> {1, 2} \<subseteq> set (BufferedBus_contents (c_executeBus m))"
proof -
  from pair_demo_forwards obtain m where
    m: "mvp61_reaches pair_demo False 8 (Cycling, m)" "previously_pushed m = [1, 2]" by blast
  from mvp61_in_flight_one_way [OF m(1)] m show ?thesis by auto
qed

text \<open>C12: The producer of a forwarded register is determined. Let the instructions in flight be as above.
  Then \<open>shouldUseForwarding\<close> answers the same for every order in which the map of previously pushed runners
  is iterated. If it answers with a runner and a register, that register is the only hazard of the
  instruction, the runner writes it, and no other instruction in flight does.\<close>

theorem mvp61_forward_choice:
  assumes "control_ok m" and "IsDataHazard3 (c_ctx m) (methods61 m r) = (hazards, hazardTypes)"
    and "set order = set (previously_pushed m)"
  shows "shouldUseForwarding r hazards hazardTypes (iterate_in order m) = shouldUseForwarding r hazards hazardTypes m
    \<and> (\<forall>previous register. shouldUseForwarding r hazards hazardTypes m = Some (previous, register) \<longrightarrow>
        hazards = [\<lparr>HazardKind = ReadAfterWrite, HazardRegister = register\<rparr>]
        \<and> register \<in> set (snd (runner_footprint (c_runners m ! previous)))
        \<and> (\<forall>f. {#runner_footprint (c_runners m ! previous), f#} \<subseteq># flights view61 m \<longrightarrow> register \<notin> set (snd f)))"
  using forward_choice_any_order [OF assms] forward_choice_sole [OF assms(1,2)] by blast

theorem mvp61_forward_choice_witness:
  "\<exists>m hazards hazardTypes. mvp61_reaches pair_demo False 8 (Cycling, m) \<and> previously_pushed m = [1, 2]
    \<and> shouldUseForwarding (consumer 12) hazards hazardTypes (iterate_in [2, 1] m) = Some (1, T0)
    \<and> hazards = [\<lparr>HazardKind = ReadAfterWrite, HazardRegister = T0\<rparr>]"
proof -
  from pair_demo_forwards obtain m hazards hazardTypes where
    m: "mvp61_reaches pair_demo False 8 (Cycling, m)" "previously_pushed m = [1, 2]"
    and h: "IsDataHazard3 (c_ctx m) (methods61 m (consumer 12)) = (hazards, hazardTypes)"
      "shouldUseForwarding (consumer 12) hazards hazardTypes m = Some (1, T0)"
    by blast
  have "set [2, 1] = set (previously_pushed m)" using m(2) by auto
  from mvp61_forward_choice [OF mvp61_reaches_control_ok [OF m(1)] h(1) this] h(2)
  have "shouldUseForwarding (consumer 12) hazards hazardTypes (iterate_in [2, 1] m) = Some (1, T0)"
    and "hazards = [\<lparr>HazardKind = ReadAfterWrite, HazardRegister = T0\<rparr>]"
    by metis+
  with m show ?thesis by blast
qed



text \<open>C14: A chain of two forwards goes wrong in MVP-6.1: the second link overwrites the register for which
  the middle instruction receives a value, so that it reads its source as it was. With \<open>li t0, 7\<close> and two
  dependent \<open>addi\<close> the processor returns with \<open>t1 = 1\<close>, where the architecture has 8.\<close>

theorem mvp61_chained_forwarding:
  "(\<exists>m m'. mvp61_NewCPU False 8 = Inr m \<and> mvp61_Run 57 m chain_demo = Some (Inr m')
      \<and> map_get (Registers (c_ctx m')) T1 = 1)
    \<and> (\<exists>ctx. run_loop (arch_step Done chain_demo) 4 (0, NewContext False 8) = Some (Inr ctx)
      \<and> map_get (Registers ctx) T1 = 8)"
  using chain_demo_returns chain_demo_arch by blast

section \<open>The processors\<close>

text \<open>C15: MVP-2 computes what MVP-1 computes. For every program and every number of loop iterations,
  both fail alike, both are still running, or both have returned with the same registers and
  memory; the instruction cache changes the cycle count by at most 49 less and 2 more for each
  iteration.\<close>

theorem mvp2_computes_as_mvp1:
  "rel_option (rel_sum (=) (\<lambda>m2 m1. mvp2_ctx m2 = mvp1_ctx m1
      \<and> mvp1_cycle m1 - 49 * int fuel \<le> mvp2_cycle m2
      \<and> mvp2_cycle m2 \<le> mvp1_cycle m1 + 2 * int fuel))
    (mvp2_Run fuel (mvp2_NewCPU debug n) app) (mvp1_Run fuel (mvp1_NewCPU debug n) app)"
proof -
  have "mvp2_ctx (mvp2_NewCPU debug n) = mvp1_ctx (mvp1_NewCPU debug n)"
    by (simp add: mvp2_NewCPU_def mvp1_NewCPU_def)
  from mvp2_run_mvp1 [OF this, of fuel app] show ?thesis
    by (rule option.rel_mono_strong, elim rel_sum.cases)
      (auto simp: mvp2_NewCPU_def mvp1_NewCPU_def)
qed

text \<open>C16: MVP-3, with its write-back data cache, computes what the architecture without caches
  computes: if the architecture returns and the run is disciplined (each data line goes into free
  room, a store lies inside one line or touches none), MVP-3 returns, and after its flush the
  registers and the memory are those of the architecture.\<close>

theorem mvp3_implements_architecture:
  assumes "n < 2 ^ 31" and "mvp3_NewCPU debug n = Inr m"
    and "along (disciplined app) (mvp3_step app) fuel (0, m)"
    and "run_loop (arch_step Done app) fuel (0, NewContext debug n) = Some (Inr ctx)"
  shows "\<exists>m'. mvp3_Run fuel m app = Some (Inr m') \<and> mvp3_ctx m' = ctx"
proof -
  have "mvp3_sim (0, m) (0, NewContext debug n)"
    using mvp3_NewCPU_ok [OF assms(1), of debug] assms(2) by (auto simp: mvp3_sim_def)
  from mvp3_arch.run_follows [OF this assms(3,4)] show ?thesis
    by (simp add: mvp3_Run_def)
qed

definition store_load_demo :: app where
  "store_load_demo =
     \<lparr>Instructions = [I_li T0 77, I_lw T1 0 Zero, I_sb T0 1 Zero, I_lw T2 0 Zero, I_ret],
      Labels = Map.empty\<rparr>"

theorem mvp3_implements_architecture_witness:
  "\<exists>m m' ctx. mvp3_NewCPU False 8 = Inr m
    \<and> run_loop (arch_step Done store_load_demo) 6 (0, NewContext False 8) = Some (Inr ctx)
    \<and> mvp3_Run 6 m store_load_demo = Some (Inr m') \<and> mvp3_ctx m' = ctx"
proof -
  have "case mvp3_NewCPU False 8 of Inr m \<Rightarrow>
      along (disciplined store_load_demo) (mvp3_step store_load_demo) 6 (0, m) | Inl _ \<Rightarrow> False"
    by code_simp
  then obtain m where m: "mvp3_NewCPU False 8 = Inr m"
    "along (disciplined store_load_demo) (mvp3_step store_load_demo) 6 (0, m)"
    by (auto split: sum.splits)
  have "case run_loop (arch_step Done store_load_demo) 6 (0, NewContext False 8) of
      Some (Inr ctx) \<Rightarrow> True | _ \<Rightarrow> False"
    by code_simp
  then obtain ctx where
    "run_loop (arch_step Done store_load_demo) 6 (0, NewContext False 8) = Some (Inr ctx)"
    by (auto split: option.splits sum.splits)
  with m mvp3_implements_architecture [of 8 False m store_load_demo 6 ctx] show ?thesis
    by auto
qed

text \<open>C17: MVP-1 implements the architecture: on every program it fails, runs on or returns exactly as
  the architecture does, with the same registers and memory, and every loop iteration costs at most
  152 cycles.\<close>

theorem mvp1_implements_architecture:
  "rel_option (rel_sum (=) (\<lambda>m ctx. mvp1_ctx m = ctx \<and> 0 \<le> mvp1_cycle m \<and> mvp1_cycle m \<le> 152 * int fuel))
    (mvp1_Run fuel (mvp1_NewCPU debug n) app)
    (run_loop (arch_step finish_return app) fuel (0, NewContext debug n))"
  using mvp1_run_arch [of "mvp1_NewCPU debug n" fuel app]
  by (simp add: mvp1_NewCPU_def)

text \<open>C18: The interpreter \<open>Runner\<close> agrees with the architecture on the programs without loads and
  without \<open>ret\<close>.\<close>

theorem runner_implements_architecture:
  assumes "runner_program app"
  shows "Runner_Run fuel (NewRunner app n) =
    run_loop (arch_step Done app) fuel (0, NewContext False n)"
proof -
  have "runner_step app = arch_step Done app"
    using runner_step_arch [OF assms] by (simp add: fun_eq_iff)
  then show ?thesis
    by (simp add: Runner_Run_def NewRunner_def)
qed

definition count_demo :: app where
  "count_demo =
     \<lparr>Instructions = [I_li T1 3, I_addi 1 T0 T0, I_bne T0 T1 ''loop''],
      Labels = [''loop'' \<mapsto> 4]\<rparr>"

theorem runner_implements_architecture_witness:
  "Runner_Run 9 (NewRunner count_demo 4) =
    run_loop (arch_step Done count_demo) 9 (0, NewContext False 4)"
  by (rule runner_implements_architecture)
    (simp add: count_demo_def runner_program_def op_defs instruction_class_defs)

text \<open>C19: Register \<open>Zero\<close> reads 0 and the memory keeps its size in whatever MVP-1 returns.\<close>

theorem mvp1_context_ok:
  assumes "mvp1_Run fuel (mvp1_NewCPU debug n) app = Some (Inr m)"
  shows "context_ok n (mvp1_ctx m)"
proof -
  obtain ctx where "run_loop (arch_step finish_return app) fuel (0, NewContext debug n) = Some (Inr ctx)"
    "mvp1_ctx m = ctx"
    using mvp1_run_arch [of "mvp1_NewCPU debug n" fuel app] assms
    by (auto simp: mvp1_NewCPU_def elim!: option.rel_cases rel_sum.cases)
  with arch_ok.run_result [of n "(0, NewContext debug n)" app fuel ctx] show ?thesis
    by (simp add: context_ok_New)
qed

theorem mvp1_context_ok_witness:
  "\<exists>m. mvp1_Run 9 (mvp1_NewCPU False 4) count_demo = Some (Inr m) \<and> context_ok 4 (mvp1_ctx m)"
proof -
  obtain m where "mvp1_Run 9 (mvp1_NewCPU False 4) count_demo = Some (Inr m)"
    by (simp add: count_demo_def mvp1_eval)
  with mvp1_context_ok [of 9 False 4 count_demo m] show ?thesis by blast
qed

text \<open>C20: A program of \<open>nop\<close> and a jump to its own end never terminates on MVP-1, because \<open>jal\<close>
  leaves an address in \<open>Ra\<close> and \<open>goto loop\<close> starts again at address 0.\<close>

theorem mvp1_never_returns:
  "mvp1_Run fuel (mvp1_NewCPU debug n) jump_to_end = None"
  using mvp1_run_arch [of "mvp1_NewCPU debug n" fuel jump_to_end]
  by (simp add: jump_to_end_forever)

text \<open>The \<open>Runner\<close> gives no memory to the instructions: a load panics.\<close>

theorem runner_load_panics:
  assumes "pc_in_app app pc" and "instruction_at app pc = Inr i"
    and "IsMemoryRead (instructionType i)"
  shows "runner_step app (pc, ctx) = Inl (Panic IndexOutOfRange)"
  using assms runner_loads_panic by (simp add: runner_step_def)

theorem runner_load_panics_witness:
  "runner_step store_load_demo (4, NewContext False 8) = Inl (Panic IndexOutOfRange)"
  by (rule runner_load_panics [where i = "I_lw T1 0 Zero"])
    (simp_all add: store_load_demo_def pc_in_app_def instruction_at_def quot32_def word_sless_alt
      op_defs instruction_class_defs)

section \<open>Instructions\<close>



text \<open>C22: The execution of an instruction, and the addresses it reads, depend only on its declared
  read registers: it may run early, or with forwarded values, as soon as those are known.\<close>

theorem instructions_read_declared:
  assumes "\<forall>r \<in> set (ReadRegisters (runner i f)). registerRead ctx f r = registerRead ctx' f' r"
  shows "rbind (Run (runner i f) ctx labels pc memory) (\<lambda>(_, exe). Inr exe) =
      rbind (Run (runner i f') ctx' labels pc memory) (\<lambda>(_, exe). Inr exe)
    \<and> MemoryRead (runner i f) ctx = MemoryRead (runner i f') ctx'"
  using run_reads [OF assms] memory_reads [OF assms] by blast

theorem instructions_read_declared_witness:
  "rbind (Run (runner (I_addi 1 T0 T1) \<lparr>FwdRegister = T1, FwdValue = 5\<rparr>) (NewContext False 0)
      Map.empty 0 []) (\<lambda>(_, exe). Inr exe) =
    rbind (Run (runner (I_addi 1 T0 T1) noForward)
      ((NewContext False 0)\<lparr>Registers := [T1 \<mapsto> 5]\<rparr>) Map.empty 0 []) (\<lambda>(_, exe). Inr exe)"
  by (rule instructions_read_declared [THEN conjunct1])
    (simp add: op_defs registerRead_def noForward_def NewContext_def)

text \<open>C23: An instruction that succeeds writes at most its declared write registers (\<open>lh\<close> excepted)
  and, for \<open>jal\<close>, register \<open>Ra\<close>; never a value other than 0 to register \<open>Zero\<close>; its flags fit its
  type.\<close>

theorem instructions_write_declared:
  assumes "Run (runner i f) ctx labels pc memory = Inr (ctx', exe)"
  shows "(RegisterChange exe \<and> instructionType i \<noteq> Lh \<longrightarrow>
        Register exe \<in> set (WriteRegisters (runner i f)))
    \<and> (RegisterChange exe \<and> Register exe = Zero \<longrightarrow> RegisterValue exe = 0)
    \<and> ctx' = (if instructionType i = Jal then ctx\<lparr>Registers := (Registers ctx)(Ra \<mapsto> pc)\<rparr> else ctx)
    \<and> (MemoryChange exe \<longleftrightarrow> IsMemoryWrite (instructionType i))
    \<and> (Return exe \<longleftrightarrow> instructionType i = Ret)
    \<and> (PcChange exe \<longrightarrow> IsBranch (instructionType i) \<or> instructionType i = Bltu)"
  using run_register [OF assms] run_context [OF assms] run_class [OF assms] by blast

theorem instructions_write_declared_witness:
  "\<exists>ctx' exe. Run (runner (I_jal ''f'' T0) noForward) (NewContext False 0) [''f'' \<mapsto> 8] 4 [] = Inr (ctx', exe)
    \<and> ctx' = (NewContext False 0)\<lparr>Registers := [Ra \<mapsto> 4]\<rparr>"
proof -
  obtain ctx' exe where run:
    "Run (runner (I_jal ''f'' T0) noForward) (NewContext False 0) [''f'' \<mapsto> 8] 4 [] = Inr (ctx', exe)"
    by (simp add: op_defs)
  from instructions_write_declared [OF run] have "ctx' = (NewContext False 0)\<lparr>Registers := [Ra \<mapsto> 4]\<rparr>"
    by (simp add: op_defs NewContext_def)
  with run show ?thesis by blast
qed

text \<open>C24: The unsigned comparisons and the logical right shifts run as their signed counterparts, and
  two operands are ordered differently by the two comparisons exactly when their signs differ.\<close>

theorem unsigned_instructions_are_signed:
  "Run (runner (I_bltu a b l) f) = Run (runner (I_blt a b l) f)
    \<and> Run (runner (I_bgeu a b l) f) = Run (runner (I_bge a b l) f)
    \<and> Run (runner (I_sltu rd a b) f) = Run (runner (I_slt rd a b) f)
    \<and> Run (runner (I_srl rd a b) f) = Run (runner (I_sra rd a b) f)
    \<and> Run (runner (I_srli rd a imm) f) = Run (runner (I_srai rd a imm) f)
    \<and> ((v < w) = (v <s w) \<longleftrightarrow> (0 \<le> sint v) = (0 \<le> sint (w :: int32)))"
  by (intro conjI unsigned_run_as_signed unsigned_less_signed_iff)

section \<open>Memory and bytes\<close>

text \<open>C25: \<open>WriteMemory\<close> does not depend on the order in which Go iterates over the map of changes.\<close>

theorem write_memory_order_irrelevant:
  assumes "Run (runner i f) c labels pc memory = Inr (c', exe)"
    and "mset kvs = mset (MemoryChanges exe)"
  shows "WriteMemory ctx (exe\<lparr>MemoryChanges := kvs\<rparr>) = WriteMemory ctx exe"
proof -
  have "distinct (map fst kvs)"
    using run_memory_distinct [OF assms(1)] assms(2)
    by (metis mset_eq_imp_distinct_iff mset_map)
  with store_all_permutation [OF assms(2)] show ?thesis
    by (simp add: WriteMemory_def)
qed

theorem write_memory_order_irrelevant_witness:
  "\<exists>c' exe. Run (runner (I_sh T0 0 Zero) noForward) (NewContext False 4) Map.empty 0 [] = Inr (c', exe)
    \<and> WriteMemory (NewContext False 4) (exe\<lparr>MemoryChanges := rev (MemoryChanges exe)\<rparr>)
      = WriteMemory (NewContext False 4) exe"
proof -
  obtain c' exe where
    "Run (runner (I_sh T0 0 Zero) noForward) (NewContext False 4) Map.empty 0 [] = Inr (c', exe)"
    by (simp add: run_defs)
  with write_memory_order_irrelevant [OF this, of "rev (MemoryChanges exe)"] show ?thesis
    by auto
qed

text \<open>C26: The two conversions of \<open>bit.go\<close> never fail and are inverse to each other.\<close>

theorem bytes_roundtrip:
  "rbind (BytesFromLowBits v) (\<lambda>(b0, b1, b2, b3). I32FromBytes b0 b1 b2 b3) = Inr v
    \<and> rbind (I32FromBytes a0 a1 a2 a3) BytesFromLowBits = Inr (a0, a1, a2, a3)"
  by (simp only: join_split split_join simp_thms)

text \<open>C27: A word stored by \<open>sw\<close> is what \<open>lw\<close> loads from the same address.\<close>

theorem store_then_load:
  assumes "Run (runner (I_sw rs ofs base) f) ctx labels pc [] = Inr (c1, exe)"
    and "WriteMemory ctx exe = Inr ctx'" and "rd \<noteq> Zero"
  shows "\<exists>bytes c2 exe2. getFromMemory (Memory ctx') (MemoryRead (runner (I_lw rd ofs base) f) ctx') = Inr bytes
    \<and> Run (runner (I_lw rd ofs base) f) ctx' labels pc bytes = Inr (c2, exe2)
    \<and> RegisterChange exe2 \<and> Register exe2 = rd \<and> RegisterValue exe2 = registerRead ctx f rs"
proof -
  let ?kvs = "MemoryChanges exe" and ?v = "registerRead ctx f rs"
  let ?a = "registerRead ctx f base + ofs"
  from assms(1) obtain b0 b1 b2 b3 where b: "BytesFromLowBits ?v = Inr (b0, b1, b2, b3)"
    and kvs: "?kvs = [(?a, b0), (?a + 1, b1), (?a + 2, b2), (?a + 3, b3)]"
    by (auto simp: op_defs Let_def)
  from assms(2) obtain mem where mem: "store_all ?kvs (Memory ctx) = Inr mem"
    and ctx': "ctx' = ctx\<lparr>Memory := mem\<rparr>"
    unfolding WriteMemory_Inr by blast
  have addrs: "MemoryRead (runner (I_lw rd ofs base) f) ctx' = map fst ?kvs"
    by (simp add: kvs ctx' op_defs registerRead_def Let_def)
  have range: "\<forall>k \<in> set (map fst ?kvs). 0 \<le> sint k \<and> sint k < int (length mem)"
    using store_all_in_range [of ?kvs "Memory ctx"] mem length_store_all [OF mem] by auto
  have distinct: "distinct (map fst ?kvs)"
    using run_memory_distinct [OF assms(1)] .
  have "mem ! nat (sint (fst kv)) = snd kv" if "kv \<in> set ?kvs" for kv
    using nth_store_all [OF mem distinct, of "fst kv"] range that map_of_is_SomeI [OF distinct, of "fst kv" "snd kv"]
    by auto
  then have "map (\<lambda>a. mem ! nat (sint a)) (map fst ?kvs) = map snd ?kvs"
    by simp
  then have "getFromMemory mem (map fst ?kvs) = Inr (map snd ?kvs)"
    using range getFromMemory_eq [of mem "map fst ?kvs" "map snd ?kvs"] by simp
  then have bytes: "getFromMemory mem (map fst ?kvs) = Inr [b0, b1, b2, b3]"
    by (simp add: kvs)
  have "I32FromBytes b0 b1 b2 b3 = Inr ?v"
    using join_split [of ?v] b by simp
  then have "Run (runner (I_lw rd ofs base) f) ctx' labels pc [b0, b1, b2, b3] =
      Inr (ctx', register_execution rd ?v)"
    by (simp add: op_defs go_index_def)
  with bytes assms(3) show ?thesis
    unfolding addrs by (simp add: ctx')
qed

theorem store_then_load_witness:
  "\<exists>exe ctx' bytes c2 exe2.
      WriteMemory ((NewContext False 8)\<lparr>Registers := [T0 \<mapsto> 1234567]\<rparr>) exe = Inr ctx'
    \<and> Run (runner (I_lw T1 0 Zero) noForward) ctx' Map.empty 0 bytes = Inr (c2, exe2)
    \<and> RegisterValue exe2 = 1234567"
proof -
  let ?ctx = "(NewContext False 8)\<lparr>Registers := [T0 \<mapsto> 1234567]\<rparr>"
  obtain c1 exe where run: "Run (runner (I_sw T0 0 Zero) noForward) ?ctx Map.empty 0 [] = Inr (c1, exe)"
    and changes: "map fst (MemoryChanges exe) = [0, 1, 2, 3]"
    by (simp add: run_defs registerRead_def noForward_def)
  then have "\<exists>mem. store_all (MemoryChanges exe) (Memory ?ctx) = Inr mem"
    unfolding store_all_in_range set_map [symmetric] changes by (simp add: NewContext_def)
  then obtain ctx' where "WriteMemory ?ctx exe = Inr ctx'"
    unfolding WriteMemory_Inr by blast
  with store_then_load [OF run this, of T1] show ?thesis
    by (fastforce simp: registerRead_def noForward_def)
qed

section \<open>Buses, queues and predictions\<close>



text \<open>C29: The same for the simple bus, which holds at most two elements.\<close>

theorem simple_bus_fifo:
  assumes "bus_run SimpleBus_CanAdd (\<lambda>b x c. SimpleBus_Add b x) (\<lambda>b c. b) SimpleBus_Get ops newSimpleBus
      = (accepted, out, b)"
  shows "out @ SimpleBus_contents b = accepted \<and> length accepted \<le> length out + 2"
  using simple_bus.fifo [OF _ assms] simple_bus.in_transit_bounded [OF _ _ assms]
  by (auto simp: SimpleBus_contents_def newSimpleBus_def)

theorem simple_bus_fifo_witness:
  "\<exists>accepted out b. bus_run SimpleBus_CanAdd (\<lambda>b x c. SimpleBus_Add b x) (\<lambda>b c. b) SimpleBus_Get
      [Offer (1::nat) 0, Offer 2 0, Take, Offer 3 0, Take] newSimpleBus = (accepted, out, b)
    \<and> accepted = [1, 3] \<and> out @ SimpleBus_contents b = accepted"
proof -
  obtain out b where "bus_run SimpleBus_CanAdd (\<lambda>b x c. SimpleBus_Add b x) (\<lambda>b c. b) SimpleBus_Get
      [Offer (1::nat) 0, Offer 2 0, Take, Offer 3 0, Take] newSimpleBus = ([1, 3], out, b)"
    by (simp add: SimpleBus_defs)
  with simple_bus_fifo [OF this] show ?thesis by blast
qed

text \<open>C30: The queue's iterator is a goroutine that runs while its user removes elements. In every
  interleaving it delivers exactly the elements that the queue held when it started, in order.\<close>

theorem queue_iterator_snapshot:
  assumes "Queue_ok q" and "iter_step\<^sup>*\<^sup>* (iter_start q) s" and "it_cursor s = None"
  shows "it_received s @ it_channel s = Queue_Iterator q"
  using assms by (rule iterator_snapshot_aux)

theorem queue_iterator_snapshot_witness:
  "\<exists>s. iter_step\<^sup>*\<^sup>* (iter_start (Queue_Push (NewQueue 3) (7 :: nat))) s \<and> it_cursor s = None
    \<and> it_received s @ it_channel s = Queue_Iterator (Queue_Push (NewQueue 3) 7)"
proof -
  let ?q = "Queue_Push (NewQueue 3) (7 :: nat)"
  let ?s = "(iter_start ?q)\<lparr>it_cursor := element_next 0 (q_list ?q), it_channel := [(0, 7)]\<rparr>"
  have "iter_step (iter_start ?q) ?s"
    using iter_step.send [of "iter_start ?q" "(0, 7)"] by (simp add: iter_start_def Queue_defs)
  moreover have "it_cursor ?s = None"
    by (simp add: Queue_defs)
  ultimately show ?thesis
    using queue_iterator_snapshot [of ?q ?s] Queue_ok_Push [OF Queue_ok_New, of 3 7] by blast
qed

text \<open>C31: What the branch target buffer predicts for a branch is the last target that was recorded
  for it, whatever was evicted in between; recording never fails.\<close>

theorem btb_prediction_is_last:
  assumes "0 < n"
  shows "\<exists>b. record_all btb_add targets (newBranchTargetBuffer n) = Inr b
    \<and> (\<forall>pc t. btb_get b pc = Some t \<longrightarrow> map_of (rev targets) pc = Some t)"
proof -
  have ok: "btb_ok (newBranchTargetBuffer n)"
    using btb_ok_new [OF assms] .
  have fresh: "\<And>pc. btb_get (newBranchTargetBuffer n) pc = None"
    by (simp add: btb_get_def newBranchTargetBuffer_def)
  from btb.record_all_returns [OF ok] btb.prediction_is_last [OF ok fresh] show ?thesis
    by blast
qed

theorem btb_prediction_is_last_witness:
  "\<exists>b. record_all btb_add [(4, 8), (12, 16), (4, 20)] (newBranchTargetBuffer 4) = Inr b
    \<and> (\<forall>pc t. btb_get b pc = Some t \<longrightarrow> map_of (rev [(4, 8), (12, 16), (4, 20)]) pc = Some t)"
  by (rule btb_prediction_is_last) simp

section \<open>Caches\<close>

text \<open>C32: A disciplined load through the data cache returns the bytes that the program sees in
  memory, and what the program sees does not change, whether the load hits or brings in a line.\<close>

theorem load_through_cache:
  assumes "mvp3_ok m" and "load_disciplined (mvp3_mmu m) (MemoryRead (runner i f) ctx)"
    and "getFromMemory (Memory (mvp3_seen m)) (MemoryRead (runner i f) ctx) = Inr bytes"
  shows "\<exists>m'. mvp3_load m (MemoryRead (runner i f) ctx) = Inr (bytes, m')
    \<and> mvp3_ok m' \<and> mvp3_seen m' = mvp3_seen m"
proof -
  from memory_read_addresses [of i f ctx] obtain a where
    "MemoryRead (runner i f) ctx = consecutive a (length (MemoryRead (runner i f) ctx))"
    "length (MemoryRead (runner i f) ctx) \<le> 64"
    unfolding consecutive_def by auto
  from mvp3_load_result [OF assms(1) this assms(3,2)] show ?thesis
    by blast
qed

theorem load_through_cache_witness:
  "\<exists>m m'. mvp3_NewCPU False 8 = Inr m
    \<and> mvp3_load m (MemoryRead (runner (I_lw T0 0 Zero) noForward) (NewContext False 8))
      = Inr ([0, 0, 0, 0], m') \<and> mvp3_seen m' = mvp3_seen m"
proof -
  let ?addrs = "MemoryRead (runner (I_lw T0 0 Zero) noForward) (NewContext False 8)"
  obtain m where m: "mvp3_NewCPU False 8 = Inr m" "mvp3_ok m" "mvp3_seen m = NewContext False 8"
    using mvp3_NewCPU_ok [of 8 False] by auto
  have "case mvp3_NewCPU False 8 of Inr m \<Rightarrow> load_disciplined (mvp3_mmu m) ?addrs | Inl _ \<Rightarrow> False"
    by code_simp
  with m have "load_disciplined (mvp3_mmu m) ?addrs" by simp
  moreover have "getFromMemory (Memory (NewContext False 8)) ?addrs = Inr [0, 0, 0, 0]"
    by code_simp
  ultimately show ?thesis
    using load_through_cache [OF m(2), of "I_lw T0 0 Zero" noForward "NewContext False 8"] m by auto
qed

text \<open>C33: The flush of the memory management unit never fails and leaves in memory exactly what the
  program saw, at the price of one memory access for each line.\<close>

theorem flush_writes_back:
  assumes "mmu_ok u mem"
  shows "mmu_flush cost u mem = Inr (cost * int (length (lines (l1d u))), seen u mem)"
  using assms by (rule mmu_flush_result)

theorem flush_writes_back_witness:
  "\<exists>u. newMemoryManagementUnit = Inr u \<and> mmu_flush 50 u (replicate 4 7) = Inr (0, seen u (replicate 4 7))"
proof -
  obtain u where u: "newMemoryManagementUnit = Inr u" "mmu_ok u (replicate 4 7)"
    using newMemoryManagementUnit_ok [of "replicate 4 7"] by auto
  moreover from u(1) have "lines (l1d u) = []"
    by (auto simp: newMemoryManagementUnit_def NewLRUCache_def)
  ultimately show ?thesis
    using flush_writes_back [OF u(2), of 50] u(1) by (intro exI [of _ u]) simp
qed

text \<open>C34: The cache replaces the least recently used line: what was just looked up is still there,
  with its value, after any sequence of pushes that is shorter than the number of lines.\<close>

theorem recently_used_survives:
  assumes "cache_shape c" and "LRUCache_Get c addr = Inr (Some v, c')"
    and "length pushes < numberOfLines c" and "push_all pushes c' = Inr c''"
  shows "\<exists>l \<in> set (lines c''). covers l addr \<and> line_byte l addr = v"
proof -
  from assms(1,2) have v: "lines_value (lines c) addr = Some v"
    and c': "c' = c\<lparr>lines := touch addr (lines c)\<rparr>"
    by (simp_all add: LRUCache_Get_eq)
  from v obtain xs l ys where l: "touch addr (lines c) = [] @ l # xs @ ys"
    "covers l addr" "line_byte l addr = v"
    by (cases rule: touch_cases [of addr "lines c"]) auto
  have "l \<in> set (lines c'')"
    by (rule push_all_keeps [OF assms(4)]) (use l(1) assms(3) c' in auto)
  with l(2,3) show ?thesis by blast
qed

theorem recently_used_survives_witness:
  "\<exists>c c' c''. LRUCache_PushLine \<lparr>numberOfLines = 2, lineLength = 2, cacheLength = 4, lines = []\<rparr> 0 [5, 6]
      = Inr ([], c) \<and> LRUCache_Get c 1 = Inr (Some 6, c') \<and> push_all [(2, [7, 8])] c' = Inr c''
    \<and> (\<exists>l \<in> set (lines c''). covers l 1 \<and> line_byte l 1 = 6)"
proof -
  let ?c = "\<lparr>numberOfLines = 2, lineLength = 2, cacheLength = 4,
    lines = [\<lparr>boundary_from = 0, boundary_to = 2, Data = [5, 6]\<rparr>]\<rparr>"
  have shape: "cache_shape ?c"
    by (simp add: cache_shape_def line_shape_def)
  have push: "LRUCache_PushLine \<lparr>numberOfLines = 2, lineLength = 2, cacheLength = 4, lines = []\<rparr> 0 [5, 6]
      = Inr ([], ?c)"
    by (simp add: LRUCache_PushLine_def)
  have get: "LRUCache_Get ?c 1 = Inr (Some 6, ?c)"
    by (simp add: LRUCache_Get_def Line_get_def go_index_def word_sless_alt word_sle_eq)
  obtain c'' where "push_all [(2, [7, 8])] ?c = Inr c''"
    by (simp add: LRUCache_PushLine_def)
  with recently_used_survives [OF shape get _ this] push get show ?thesis
    by (metis One_nat_def length_Cons lessI list.size(3) LRUCache.select_convs(1) numeral_2_eq_2)
qed

text \<open>C35: When the data cache is full, a fetched line that is pushed replaces the last line, and the
  bytes of that line are lost: the memory does not change, so that at the addresses of the replaced
  line the program sees the memory's old bytes again.\<close>

theorem eviction_loses_writes:
  assumes "mmu_ok u mem" and "length (lines (l1d u)) = numberOfLines (l1d u)"
    and "fetchCacheLine mem a = Inr line" and "0 \<le> sint a"
    and "covers (last (lines (l1d u))) x" and "\<not> covers (new_line (l1d u) a line) x"
  shows "\<exists>u'. pushLineToL1D u mem a line = Inr (u', mem) \<and> view u' x = None"
proof -
  let ?c = "l1d u" and ?new = "new_line (l1d u) a line"
  have ok: "cache_ok ?c" "length mem < 2 ^ 31" and n: "0 < numberOfLines ?c"
    using assms(1) by (auto simp: mmu_ok_def cache_ok_def cache_shape_def)
  have line: "line = map (\<lambda>i. if nat (sint a) + i < length mem then mem ! (nat (sint a) + i) else 0) [0..<64]"
    using assms(3) fetchCacheLine_eq [OF assms(4), of mem] by simp
  have "patched mem (nat (sint a)) line = mem"
    by (rule nth_equalityI) (auto simp: line)
  then have "writeToMemory mem a line = Inr mem"
    using writeToMemory_eq [OF assms(4) ok(2), of line] by simp
  moreover have "LRUCache_PushLine ?c a line =
      Inr (Data (last (?new # butlast (lines ?c))), ?c\<lparr>lines := ?new # butlast (lines ?c)\<rparr>)"
    using PushLine_full [OF assms(2) n] .
  ultimately have push: "pushLineToL1D u mem a line =
      Inr (u\<lparr>l1d := ?c\<lparr>lines := ?new # butlast (lines ?c)\<rparr>\<rparr>, mem)"
    by (simp add: pushLineToL1D_def)
  have ls: "lines ?c = butlast (lines ?c) @ [last (lines ?c)]"
    using assms(2) n by (metis append_butlast_last_id length_greater_0_conv)
  have "disjoint_lines (butlast (lines ?c) @ [last (lines ?c)])"
    using ok(1) ls by (simp add: cache_ok_def)
  then have "\<forall>l \<in> set (butlast (lines ?c)). \<not> covers l x"
    using assms(5) by (auto simp: disjoint_lines_def sorted_wrt_append dest: covers_disjoint)
  with assms(6) have "lines_value (?new # butlast (lines ?c)) x = None"
    by (simp add: lines_value_None)
  with push show ?thesis
    by (simp add: view_def)
qed

definition full_unit :: memoryManagementUnit where
  "full_unit =
     \<lparr>l1i = \<lparr>numberOfLines = 16, lineLength = 64, cacheLength = 1024, lines = []\<rparr>,
      l1d = \<lparr>numberOfLines = 16, lineLength = 64, cacheLength = 1024,
        lines = map (\<lambda>k. \<lparr>boundary_from = of_nat (64 * k), boundary_to = of_nat (64 * k + 64),
          Data = replicate 64 1\<rparr>) [0..<16]\<rparr>\<rparr>"

theorem eviction_loses_writes_witness:
  "\<exists>line u'. fetchCacheLine (replicate 2000 0) 1024 = Inr line
    \<and> view full_unit 960 = Some 1
    \<and> pushLineToL1D full_unit (replicate 2000 0) 1024 line = Inr (u', replicate 2000 0)
    \<and> view u' 960 = None"
proof -
  have upt: "[0..<16] = [0, 1, 2, 3, 4, 5, 6, 7, 8, 9, 10, 11, 12, 13, 14, 15 :: nat]"
    by (simp add: upt_rec)
  have "mmu_ok full_unit (replicate 2000 0)"
    by (simp add: full_unit_def upt mmu_ok_def cache_ok_def cache_shape_def line_shape_def
        disjoint_lines_def disjoint_from_def line_placed_def word_sle_eq)
  moreover obtain line where line: "fetchCacheLine (replicate 2000 0) 1024 = Inr line"
    using fetchCacheLine_eq [of 1024 "replicate 2000 0"] by simp
  moreover have "covers (last (lines (l1d full_unit))) 960"
    by (simp add: full_unit_def upt covers_def word_sle_eq word_sless_alt)
  moreover have "\<not> covers (new_line (l1d full_unit) 1024 line) 960"
    by (simp add: covers_def new_line_def word_sle_eq word_sless_alt)
  moreover have "view full_unit 960 = Some 1"
    by (simp add: view_def full_unit_def upt covers_def line_byte_def word_sle_eq word_sless_alt)
  moreover have "length (lines (l1d full_unit)) = numberOfLines (l1d full_unit)"
    by (simp add: full_unit_def)
  ultimately show ?thesis
    using eviction_loses_writes [of full_unit "replicate 2000 0" 1024 line 960] by auto
qed

text \<open>C36: The instruction line of MVP-2 covers the 17 instructions from the fetched one on, one more
  than its 64 bytes hold.\<close>

theorem mvp2_line_covers_17:
  assumes "k \<le> 16" and "sint pc + 64 < 2 ^ 31"
  shows "isPresentInL1i (fetchL1i m pc) (pc + of_nat (4 * k))"
  using assms by (rule fetchL1i_covers)

theorem mvp2_line_covers_17_witness:
  "isPresentInL1i (fetchL1i (mvp2_NewCPU False 0) 0) (0 + of_nat (4 * 16))"
  by (rule mvp2_line_covers_17) simp_all

section \<open>Hazards\<close>

text \<open>C37: The scoreboard of pending registers is exact: after instructions were issued and some of
  them retired, in any order, a register is pending for writing exactly if an instruction that has
  not retired writes it, and the same holds for reading.\<close>

theorem pending_registers_exact:
  assumes "mset retired \<subseteq># mset issued"
  shows "(pending (PendingWriteRegisters (fold retire_pending retired
        (fold issue_pending issued (NewContext debug n)))) r \<longleftrightarrow>
      (\<exists>run \<in># mset issued - mset retired. r \<in> set (WriteRegisters run) - {Zero}))
    \<and> (pending (PendingReadRegisters (fold retire_pending retired
        (fold issue_pending issued (NewContext debug n)))) r \<longleftrightarrow>
      (\<exists>run \<in># mset issued - mset retired. r \<in> set (ReadRegisters run) - {Zero}))"
  using write_board.busy_outstanding [of "NewContext debug n" retired issued r]
    read_board.busy_outstanding [of "NewContext debug n" retired issued r] assms
  by (simp add: NewContext_def)

theorem pending_registers_exact_witness:
  "let i = runner (I_add T0 T1 T2) noForward; j = runner (I_addi 1 T0 T0) noForward;
      ctx = fold retire_pending [j] (fold issue_pending [i, j] (NewContext False 0))
    in pending (PendingWriteRegisters ctx) T0 \<and> \<not> pending (PendingReadRegisters ctx) T0"
proof -
  let ?i = "runner (I_add T0 T1 T2) noForward" and ?j = "runner (I_addi 1 T0 T0) noForward"
  have "mset [?j] \<subseteq># mset [?i, ?j]" by simp
  from pending_registers_exact [OF this, of False 0 T0] show ?thesis
    by (simp add: op_defs)
qed

text \<open>\<open>IsDataHazard3\<close> reports a hazard exactly if a register that the instruction reads is
  pending for writing or one that it writes is pending at all; the read-after-write hazards are
  those of the three older checks.\<close>

theorem hazard_checks_decide:
  "(fst (IsDataHazard3 ctx run) \<noteq> [] \<longleftrightarrow>
      (\<exists>r \<in> set (ReadRegisters run). r \<noteq> Zero \<and> pending (PendingWriteRegisters ctx) r)
      \<or> (\<exists>r \<in> set (WriteRegisters run). r \<noteq> Zero \<and>
          (pending (PendingWriteRegisters ctx) r \<or> pending (PendingReadRegisters ctx) r)))
    \<and> (ReadAfterWrite \<in> snd (IsDataHazard3 ctx run) \<longleftrightarrow> fst (IsDataHazard ctx run))
    \<and> (fst (IsDataHazard2 ctx run) \<longleftrightarrow> fst (IsDataHazard ctx run))
    \<and> (IsWriteDataHazard ctx (ReadRegisters run) \<longleftrightarrow> fst (IsDataHazard ctx run))"
  unfolding IsDataHazard3_none read_checks_agree by blast

text \<open>When MVP-4 or MVP-5 retires an instruction, every written register whose value is negative
  is cleared: the deletion tests and deletes the register file instead of the counter.\<close>

theorem retiring_clears_registers:
  "map_get (Registers (DeletePendingWriteRegisters ctx rs)) r =
    (if r \<in> set rs \<and> map_get (Registers ctx) r <=s 0 then 0 else map_get (Registers ctx) r)"
  by (rule DeletePendingWriteRegisters_registers)

section \<open>The parser\<close>

text \<open>C38: Parsing is the inverse of printing: for every non-empty sequence of labels and instructions
  with well-formed names, \<open>Parse\<close> accepts the printed program and returns exactly its
  instructions, in order, and its label table.\<close>

theorem parse_print_roundtrip:
  assumes "items \<noteq> []" and "\<forall>it \<in> set items. item_ok it"
  shows "Parse (print_program items) = Inr (assemble items)"
  using assms by (rule Parse_print)

theorem parse_print_roundtrip_witness:
  "Parse (print_program [Label ''loop'', Instruction (I_addi (- 1) T0 T0), Instruction (I_bne T0 Zero ''loop'')])
    = Inr \<lparr>Instructions = [I_addi (- 1) T0 T0, I_bne T0 Zero ''loop''], Labels = [''loop'' \<mapsto> 0]\<rparr>"
  by (subst parse_print_roundtrip) (simp_all add: plain_def is_space_def printable_def assemble_def)

text \<open>C39: In a parsed program a label stands for the byte address of the instruction that follows its
  last definition: four times the number of instructions before it.\<close>

theorem label_addresses:
  assumes "items \<noteq> []" and "\<forall>it \<in> set items. item_ok it"
    and "Parse (print_program items) = Inr app"
  shows "Labels app l = Some a \<longleftrightarrow>
    (\<exists>before after. items = before @ Label l # after \<and> Label l \<notin> set after
      \<and> a = of_nat (4 * length (instructions_of before)))"
  using assms(3) labels_from_iff [of 0 items Map.empty l a]
  unfolding Parse_print [OF assms(1,2)] by (auto simp: assemble_def)

theorem label_addresses_witness:
  "Labels \<lparr>Instructions = [I_nop], Labels = [''end'' \<mapsto> 4]\<rparr> ''end'' = Some 4 \<longleftrightarrow>
    (\<exists>before after. [Instruction I_nop, Label ''end''] = before @ Label ''end'' # after
      \<and> Label ''end'' \<notin> set after \<and> (4 :: int32) = of_nat (4 * length (instructions_of before)))"
proof -
  have ok: "\<forall>it \<in> set [Instruction I_nop, Label ''end'']. item_ok it"
    by (simp add: plain_def is_space_def printable_def)
  have "Parse (print_program [Instruction I_nop, Label ''end'']) =
      Inr \<lparr>Instructions = [I_nop], Labels = [''end'' \<mapsto> 4]\<rparr>"
    unfolding Parse_print [OF list.distinct(2) ok] by (simp add: assemble_def)
  from label_addresses [OF list.distinct(2) ok this] show ?thesis .
qed



text \<open>A line that holds a mnemonic and no space is rejected as an invalid line, also for the
  instructions without operands, \<open>ret\<close> and \<open>nop\<close>.\<close>

theorem bare_mnemonics_rejected:
  assumes "line = TrimSpace text" and "line \<noteq> []" and "hd line \<noteq> CHR ''#''"
    and "CHR '' '' \<notin> set line" and "last line \<noteq> CHR '':''"
  shows "parse_line text st = Inl (Error (InvalidLine line))"
  using assms Index_missing [of line "CHR '' ''"] by (auto simp: parse_line_def Let_def)

theorem bare_mnemonics_rejected_witness:
  "parse_line ''ret'' \<lparr>parsed = [I_nop], parsed_labels = Map.empty, parsed_pc = 4\<rparr> =
    Inl (Error (InvalidLine ''ret''))"
  by (rule bare_mnemonics_rejected) (simp_all add: TrimSpace_def is_space_def)

end
